(* ===== verification/Prelude.thy ===== *)
theory Prelude
  imports Main "HOL-Library.Word"
begin

text \<open>
  Shared vocabulary of the development: Rust's \<open>Result\<close> and \<open>Option\<close> combinators on sum and
  option types, the list lemmas the components share, the fact collections their proofs use, and
  the interface of a transition system with an invariant.
\<close>

section \<open>Fact collections\<close>

text \<open>
  \<open>rust_simps\<close> unfolds the combinators and validators of the standard library;
  \<open>sql_simps\<close> unfolds the statements of the database model; \<open>step_intros\<close> collects the
  preservation lemmas of the step relations.
\<close>

named_theorems rust_simps
named_theorems sql_simps
named_theorems step_intros

section \<open>Results\<close>

text \<open>
  \<open>Result<T, E>\<close> is the sum \<open>'e + 'a\<close>, the error on the left. The operator \<open>?\<close> is
  \<open>and_then\<close>: it hands the value to the rest of the function and returns the error unchanged.
\<close>

type_synonym ('a, 'e) result = "'e + 'a"

abbreviation Ok :: "'a \<Rightarrow> ('a, 'e) result" where
  "Ok \<equiv> Inr"

abbreviation Err :: "'e \<Rightarrow> ('a, 'e) result" where
  "Err \<equiv> Inl"

definition and_then :: "('a, 'e) result \<Rightarrow> ('a \<Rightarrow> ('b, 'e) result) \<Rightarrow> ('b, 'e) result" where
  "and_then r f = (case r of Inl e \<Rightarrow> Inl e | Inr a \<Rightarrow> f a)"

definition map_err :: "('e \<Rightarrow> 'f) \<Rightarrow> ('a, 'e) result \<Rightarrow> ('a, 'f) result" where
  "map_err f r = (case r of Inl e \<Rightarrow> Inl (f e) | Inr a \<Rightarrow> Inr a)"

definition ok_or :: "'e \<Rightarrow> 'a option \<Rightarrow> ('a, 'e) result" where
  "ok_or e x = (case x of None \<Rightarrow> Inl e | Some a \<Rightarrow> Inr a)"

definition is_ok :: "('a, 'e) result \<Rightarrow> bool" where
  "is_ok r = (case r of Inl _ \<Rightarrow> False | Inr _ \<Rightarrow> True)"

definition ok :: "('a, 'e) result \<Rightarrow> 'a option" where
  "ok r = (case r of Inl _ \<Rightarrow> None | Inr a \<Rightarrow> Some a)"

definition option_filter :: "('a \<Rightarrow> bool) \<Rightarrow> 'a option \<Rightarrow> 'a option" where
  "option_filter p x = (case x of None \<Rightarrow> None | Some a \<Rightarrow> if p a then Some a else None)"

text \<open>\<open>Iterator::collect\<close> into a \<open>Result<Vec<_>, _>\<close> stops at the first error.\<close>

fun collect_results :: "('a, 'e) result list \<Rightarrow> ('a list, 'e) result" where
  "collect_results [] = Ok []"
| "collect_results (r # rs) = and_then r (\<lambda>a. and_then (collect_results rs) (\<lambda>as. Ok (a # as)))"

lemma and_then_simps [simp]:
  "and_then (Inl e) f = Inl e"
  "and_then (Inr a) f = f a"
  by (simp_all add: and_then_def)

lemma map_err_simps [simp]:
  "map_err g (Inl e) = Inl (g e)"
  "map_err g (Inr a) = Inr a"
  by (simp_all add: map_err_def)

lemma ok_or_simps [simp]:
  "ok_or e None = Inl e"
  "ok_or e (Some a) = Inr a"
  by (simp_all add: ok_or_def)

lemma is_ok_simps [simp]:
  "is_ok (Inl e) = False"
  "is_ok (Inr a) = True"
  by (simp_all add: is_ok_def)

lemma ok_simps [simp]:
  "ok (Inl e) = None"
  "ok (Inr a) = Some a"
  by (simp_all add: ok_def)

lemma option_filter_simps [simp]:
  "option_filter p None = None"
  "option_filter p (Some a) = (if p a then Some a else None)"
  by (simp_all add: option_filter_def)

lemma and_then_eq_Inr [simp]: "and_then r f = Inr b \<longleftrightarrow> (\<exists>a. r = Inr a \<and> f a = Inr b)"
  by (cases r) simp_all

lemma and_then_eq_Inl:
  "and_then r f = Inl e \<longleftrightarrow> r = Inl e \<or> (\<exists>a. r = Inr a \<and> f a = Inl e)"
  by (cases r) simp_all

lemma map_err_eq_Inr [simp]: "map_err g r = Inr a \<longleftrightarrow> r = Inr a"
  by (cases r) simp_all

lemma map_err_eq_Inl: "map_err g r = Inl f \<longleftrightarrow> (\<exists>e. r = Inl e \<and> f = g e)"
  by (cases r) auto

lemma ok_or_eq_Inr [simp]: "ok_or e x = Inr a \<longleftrightarrow> x = Some a"
  by (cases x) simp_all

lemma ok_or_eq_Inl [simp]: "ok_or e x = Inl f \<longleftrightarrow> x = None \<and> f = e"
  by (cases x) auto

lemma ok_eq_Some [simp]: "ok r = Some a \<longleftrightarrow> r = Inr a"
  by (cases r) simp_all

lemma option_filter_eq_Some [simp]: "option_filter p x = Some a \<longleftrightarrow> x = Some a \<and> p a"
  by (cases x) auto

lemma option_filter_eq_None: "option_filter p x = None \<longleftrightarrow> (\<forall>a. x = Some a \<longrightarrow> \<not> p a)"
  by (cases x) auto

lemma collect_results_Inr_iff:
  "collect_results rs = Inr as \<longleftrightarrow> rs = map Inr as"
proof (induction rs arbitrary: as)
  case Nil
  then show ?case by auto
next
  case (Cons r rs)
  then show ?case by (cases as) auto
qed

lemma collect_results_map_Inr [simp]: "collect_results (map Inr as) = Inr as"
  by (simp add: collect_results_Inr_iff)

section \<open>Lists\<close>

text \<open>Fields joined by a separator, as a \<open>format!\<close> with a fixed separator writes them.\<close>

fun join_with :: "'a \<Rightarrow> 'a list list \<Rightarrow> 'a list" where
  "join_with sep [] = []"
| "join_with sep [x] = x"
| "join_with sep (x # y # zs) = x @ sep # join_with sep (y # zs)"

lemma append_sep_eq:
  assumes "sep \<notin> set x" "sep \<notin> set y" "x @ sep # r = y @ sep # s"
  shows "x = y \<and> r = s"
  using assms
proof (induction x arbitrary: y)
  case Nil
  then show ?case by (cases y) auto
next
  case (Cons a x)
  then show ?case by (cases y) auto
qed

text \<open>
  A joined record is unambiguous when no field but possibly the last holds the separator: equally
  many fields and the same text mean the same fields.
\<close>

lemma join_with_inj:
  assumes "length xs = length ys"
    and "\<forall>x \<in> set (butlast xs). sep \<notin> set x" and "\<forall>y \<in> set (butlast ys). sep \<notin> set y"
    and "join_with sep xs = join_with sep ys"
  shows "xs = ys"
  using assms
proof (induction sep xs arbitrary: ys rule: join_with.induct)
  case (1 sep)
  then show ?case by simp
next
  case (2 sep x)
  then show ?case by (cases ys) auto
next
  case (3 sep x x' xs)
  from "3.prems"(1) obtain y y' ys' where ys: "ys = y # y' # ys'"
    by (metis length_Suc_conv)
  with "3.prems" have "x @ sep # join_with sep (x' # xs) = y @ sep # join_with sep (y' # ys')"
    and "sep \<notin> set x" "sep \<notin> set y"
    by auto
  then have eq: "x = y" "join_with sep (x' # xs) = join_with sep (y' # ys')"
    by (auto dest: append_sep_eq [rotated 2])
  have "x' # xs = y' # ys'"
    by (rule "3.IH") (use "3.prems" ys eq in auto)
  with eq(1) ys show ?case by simp
qed

lemma find_Some_in_set: "find P xs = Some x \<Longrightarrow> x \<in> set xs \<and> P x"
  by (induction xs) (auto split: if_splits)

lemma map_of_eq_Some_iff_distinct:
  "distinct (map fst kvs) \<Longrightarrow> map_of kvs k = Some v \<longleftrightarrow> (k, v) \<in> set kvs"
  by (metis map_of_eq_Some_iff)

lemma distinct_map_filter_fst: "distinct (map f xs) \<Longrightarrow> distinct (map f (filter P xs))"
  by (induction xs) auto

section \<open>Transition systems with an invariant\<close>

text \<open>
  A component that runs concurrently with its environment is a step relation. The interface says
  that every step keeps the invariant; its lemmas lift that to runs of any length.
\<close>

locale invariant_system =
  fixes step :: "'s \<Rightarrow> 's \<Rightarrow> bool"
    and inv :: "'s \<Rightarrow> bool"
  assumes step_inv: "inv s \<Longrightarrow> step s t \<Longrightarrow> inv t"
begin

lemma run_inv: "step\<^sup>*\<^sup>* s t \<Longrightarrow> inv s \<Longrightarrow> inv t"
  by (induction rule: rtranclp_induct) (auto intro: step_inv)

lemma run_monotone:
  assumes mono: "\<And>s t. inv s \<Longrightarrow> step s t \<Longrightarrow> f s \<subseteq> f t"
    and run: "step\<^sup>*\<^sup>* s t" and inv: "inv s"
  shows "f s \<subseteq> f t"
  using run
proof (induction rule: rtranclp_induct)
  case base
  show ?case by simp
next
  case (step t u)
  have "inv t" using step.hyps(1) inv by (rule run_inv)
  then have "f t \<subseteq> f u" using step.hyps(2) by (rule mono)
  with step.IH show ?case by blast
qed

end

text \<open>
  A system that implements an abstract one: every step of the system is a sequence of abstract
  steps (none, one or more) between the abstractions of its states. Runs then map to abstract
  runs, and what holds in every state the abstract system reaches holds of the abstraction of
  every state the system reaches.
\<close>

locale simulation = invariant_system step inv
  for step :: "'s \<Rightarrow> 's \<Rightarrow> bool" and inv :: "'s \<Rightarrow> bool" +
  fixes abs_state :: "'s \<Rightarrow> 'a"
    and abs_step :: "'a \<Rightarrow> 'a \<Rightarrow> bool"
  assumes step_simulated: "inv s \<Longrightarrow> step s t \<Longrightarrow> abs_step\<^sup>*\<^sup>* (abs_state s) (abs_state t)"
begin

lemma run_simulated:
  assumes "step\<^sup>*\<^sup>* s t" and "inv s"
  shows "abs_step\<^sup>*\<^sup>* (abs_state s) (abs_state t)"
  using assms(1)
proof (induction rule: rtranclp_induct)
  case (step t u)
  have "inv t" using step.hyps(1) assms(2) by (rule run_inv)
  with step.hyps(2) have "abs_step\<^sup>*\<^sup>* (abs_state t) (abs_state u)" by (rule step_simulated [rotated])
  with step.IH show ?case by simp
qed simp

end

end
