(* ===== verification/Rust_Std.thy ===== *)
theory Rust_Std
  imports Prelude
begin

text \<open>
  The parts of Rust's standard library the server uses: \<open>String\<close> and \<open>char\<close> (Unicode
  scalar values with their UTF-8 bytes), ASCII byte classes, decimal \<open>Display\<close> of unsigned
  integers, \<open>u64::saturating_sub\<close> and readings of the system clock.
\<close>

section \<open>Strings\<close>

text \<open>
  A \<open>char\<close> is a Unicode scalar value, written as its code point; a \<open>String\<close> is the list of
  its \<open>chars()\<close>. Bytes are the values 0 to 255. An ASCII literal of the source is written
  \<open>rs ''...''\<close>.
\<close>

type_synonym uchar = nat
type_synonym u8 = nat
type_synonym rstring = "uchar list"

definition rs :: "string \<Rightarrow> rstring" where
  "rs s = map of_char s"

text \<open>UTF-8: one to four bytes for a scalar value (\<open>str::as_bytes\<close>, \<open>str::bytes\<close>).\<close>

definition utf8_char :: "uchar \<Rightarrow> u8 list" where
  "utf8_char c =
     (if c < 128 then [c]
      else if c < 2048 then [192 + c div 64, 128 + c mod 64]
      else if c < 65536 then [224 + c div 4096, 128 + c div 64 mod 64, 128 + c mod 64]
      else [240 + c div 262144, 128 + c div 4096 mod 64, 128 + c div 64 mod 64, 128 + c mod 64])"

definition as_bytes :: "rstring \<Rightarrow> u8 list" where
  "as_bytes s = concat (map utf8_char s)"

text \<open>\<open>str::len\<close> counts bytes.\<close>

definition rlen :: "rstring \<Rightarrow> nat" where
  "rlen s = length (as_bytes s)"

text \<open>\<open>char::is_control\<close> is the general category Cc.\<close>

definition is_control :: "uchar \<Rightarrow> bool" where
  "is_control c \<longleftrightarrow> c \<le> 31 \<or> (127 \<le> c \<and> c \<le> 159)"

text \<open>\<open>char::is_whitespace\<close> is the Unicode property \<open>White_Space\<close>.\<close>

definition is_whitespace :: "uchar \<Rightarrow> bool" where
  "is_whitespace c \<longleftrightarrow>
     (9 \<le> c \<and> c \<le> 13) \<or> c = 32 \<or> c = 133 \<or> c = 160 \<or> c = 5760 \<or> (8192 \<le> c \<and> c \<le> 8202) \<or>
     c = 8232 \<or> c = 8233 \<or> c = 8239 \<or> c = 8287 \<or> c = 12288"

definition trim :: "rstring \<Rightarrow> rstring" where
  "trim s = rev (dropWhile is_whitespace (rev (dropWhile is_whitespace s)))"

definition starts_with :: "rstring \<Rightarrow> rstring \<Rightarrow> bool" where
  "starts_with p s \<longleftrightarrow> take (length p) s = p"

definition strip_prefix :: "rstring \<Rightarrow> rstring \<Rightarrow> rstring option" where
  "strip_prefix p s = (if starts_with p s then Some (drop (length p) s) else None)"

section \<open>Byte classes\<close>

definition is_ascii_lowercase :: "u8 \<Rightarrow> bool" where
  "is_ascii_lowercase b \<longleftrightarrow> 97 \<le> b \<and> b \<le> 122"

definition is_ascii_digit :: "u8 \<Rightarrow> bool" where
  "is_ascii_digit b \<longleftrightarrow> 48 \<le> b \<and> b \<le> 57"

definition is_ascii_alphanumeric :: "u8 \<Rightarrow> bool" where
  "is_ascii_alphanumeric b \<longleftrightarrow>
     (48 \<le> b \<and> b \<le> 57) \<or> (65 \<le> b \<and> b \<le> 90) \<or> (97 \<le> b \<and> b \<le> 122)"

definition is_ascii_control :: "u8 \<Rightarrow> bool" where
  "is_ascii_control b \<longleftrightarrow> b \<le> 31 \<or> b = 127"

section \<open>Integers and time\<close>

type_synonym u64 = "64 word"

text \<open>\<open>Display\<close> of an unsigned integer: its decimal digits.\<close>

fun show_nat :: "nat \<Rightarrow> rstring" where
  "show_nat n = (if n < 10 then [48 + n] else show_nat (n div 10) @ [48 + n mod 10])"

declare show_nat.simps [simp del]

definition saturating_sub :: "u64 \<Rightarrow> u64 \<Rightarrow> u64" where
  "saturating_sub a b = (if a < b then 0 else a - b)"

text \<open>
  A reading of \<open>SystemTime::now()\<close> in nanoseconds relative to the Unix epoch;
  \<open>duration_since(UNIX_EPOCH)\<close> fails on a reading before it.
\<close>

type_synonym system_time = int

definition duration_since_epoch :: "system_time \<Rightarrow> nat option" where
  "duration_since_epoch t = (if t < 0 then None else Some (nat t))"

text \<open>\<open>u64::try_from(n).unwrap_or(u64::MAX)\<close> for a \<open>u128\<close>.\<close>

definition u64_try_from_or_max :: "nat \<Rightarrow> u64" where
  "u64_try_from_or_max n = (if n < 2 ^ 64 then of_nat n else - 1)"

section \<open>Facts about bytes and lengths\<close>

lemma rs_simps [simp]:
  "rs [] = []"
  "rs (c # s) = of_char c # rs s"
  by (simp_all add: rs_def)

lemma length_rs [simp]: "length (rs s) = length s"
  by (simp add: rs_def)

lemma as_bytes_simps [simp]:
  "as_bytes [] = []"
  "as_bytes (c # s) = utf8_char c @ as_bytes s"
  "as_bytes (s @ t) = as_bytes s @ as_bytes t"
  by (simp_all add: as_bytes_def)

lemma rlen_simps [simp]:
  "rlen [] = 0"
  "rlen (c # s) = length (utf8_char c) + rlen s"
  "rlen (s @ t) = rlen s + rlen t"
  by (simp_all add: rlen_def)

lemma utf8_char_ascii [simp]: "c < 128 \<Longrightarrow> utf8_char c = [c]"
  by (simp add: utf8_char_def)

lemma length_utf8_char_pos: "0 < length (utf8_char c)"
  by (simp add: utf8_char_def)

lemma utf8_char_not_ascii: "b \<in> set (utf8_char c) \<Longrightarrow> b < 128 \<Longrightarrow> c < 128 \<and> b = c"
  by (auto simp: utf8_char_def split: if_splits)

lemma length_le_rlen: "length s \<le> rlen s"
proof (induction s)
  case (Cons c s)
  have "Suc 0 \<le> length (utf8_char c)" by (simp add: utf8_char_def)
  with Cons.IH show ?case by simp
qed simp

lemma as_bytes_ascii: "\<forall>c \<in> set s. c < 128 \<Longrightarrow> as_bytes s = s"
  by (induction s) simp_all

lemma rlen_ascii: "\<forall>c \<in> set s. c < 128 \<Longrightarrow> rlen s = length s"
  by (simp add: rlen_def as_bytes_ascii)

text \<open>A string whose bytes are all ASCII has these bytes as its characters.\<close>

lemma ascii_bytes_imp_ascii:
  assumes "\<forall>b \<in> set (as_bytes s). b < 128"
  shows "\<forall>c \<in> set s. c < 128" and "as_bytes s = s"
proof -
  show ascii: "\<forall>c \<in> set s. c < 128"
  proof
    fix c assume "c \<in> set s"
    then have sub: "set (utf8_char c) \<subseteq> set (as_bytes s)"
      by (auto simp: as_bytes_def)
    obtain b where "b \<in> set (utf8_char c)"
      using length_utf8_char_pos [of c] by (cases "utf8_char c") auto
    with sub assms have "b \<in> set (utf8_char c)" "b < 128" by auto
    then show "c < 128" using utf8_char_not_ascii by blast
  qed
  show "as_bytes s = s" using ascii by (rule as_bytes_ascii)
qed

text \<open>
  UTF-8 is uniquely decodable: reading one character back from the front of a byte list inverts
  its encoding, so \<open>as_bytes\<close> is injective.
\<close>

fun utf8_decode1 :: "u8 list \<Rightarrow> uchar \<times> u8 list" where
  "utf8_decode1 (a # b # c # d # r) =
     (if a < 128 then (a, b # c # d # r)
      else if a < 224 then ((a - 192) * 64 + (b - 128), c # d # r)
      else if a < 240 then ((a - 224) * 4096 + (b - 128) * 64 + (c - 128), d # r)
      else ((a - 240) * 262144 + (b - 128) * 4096 + (c - 128) * 64 + (d - 128), r))"
| "utf8_decode1 _ = (0, [])"

lemma div_mod_digits:
  fixes c :: nat
  shows "c div 64 * 64 + c mod 64 = c"
    and "c div 4096 * 4096 + c div 64 mod 64 * 64 + c mod 64 = c"
    and "c div 262144 * 262144 + c div 4096 mod 64 * 4096 + c div 64 mod 64 * 64 + c mod 64 = c"
proof -
  define a where "a = c div 64"
  define b where "b = a div 64"
  have d: "c div 4096 = b" "c div 262144 = b div 64" "c div 64 = a"
    by (simp_all add: a_def b_def div_mult2_eq [symmetric])
  have "64 * a + c mod 64 = c" "64 * b + a mod 64 = a" "64 * (b div 64) + b mod 64 = b"
    by (simp_all add: a_def b_def)
  then show "c div 64 * 64 + c mod 64 = c"
    and "c div 4096 * 4096 + c div 64 mod 64 * 64 + c mod 64 = c"
    and "c div 262144 * 262144 + c div 4096 mod 64 * 4096 + c div 64 mod 64 * 64 + c mod 64 = c"
    unfolding d by linarith+
qed

lemma utf8_decode1_char:
  "utf8_decode1 (utf8_char c @ x # y # z # r) = (c, x # y # z # r)"
  using div_mod_digits [of c]
  by (auto simp: utf8_char_def less_mult_imp_div_less add_diff_inverse_nat)

lemma utf8_char_prefix_free:
  assumes "utf8_char c @ r = utf8_char d @ s"
  shows "c = d \<and> r = s"
proof -
  have "utf8_char c @ 0 # 0 # 0 # [] = utf8_char c @ [0, 0, 0]" by simp
  from assms have "utf8_char c @ r @ [0, 0, 0] = utf8_char d @ s @ [0, 0, 0]" by simp
  moreover obtain x y z r' where "r @ [0, 0, 0] = x # y # z # r'"
    by (metis append_Cons append_Nil list.exhaust)
  moreover obtain x' y' z' s' where "s @ [0, 0, 0] = x' # y' # z' # s'"
    by (metis append_Cons append_Nil list.exhaust)
  ultimately have "c = d" using utf8_decode1_char [of c] utf8_decode1_char [of d]
    by (metis prod.inject)
  with assms show ?thesis by simp
qed

lemma as_bytes_inj: "as_bytes s = as_bytes t \<Longrightarrow> s = t"
proof (induction s arbitrary: t)
  case Nil
  then show ?case using length_utf8_char_pos by (cases t) auto
next
  case (Cons c s)
  then show ?case using length_utf8_char_pos [of c]
    by (cases t) (auto dest: utf8_char_prefix_free)
qed

section \<open>Trimming and prefixes\<close>

lemma trim_subset: "set (trim s) \<subseteq> set s"
  by (auto simp: trim_def dest!: set_dropWhileD)

lemma trim_infix: "\<exists>a b. s = a @ trim s @ b"
proof -
  let ?d = "dropWhile is_whitespace s"
  have "s = takeWhile is_whitespace s @ ?d" by simp
  moreover have "rev ?d = takeWhile is_whitespace (rev ?d) @ dropWhile is_whitespace (rev ?d)"
    by simp
  then have "?d = trim s @ rev (takeWhile is_whitespace (rev ?d))"
    unfolding trim_def by (metis rev_append rev_rev_ident)
  ultimately show ?thesis by metis
qed

lemma rlen_trim_le: "rlen (trim s) \<le> rlen s"
proof -
  obtain a b where "s = a @ trim s @ b" using trim_infix by blast
  then have "rlen s = rlen a + rlen (trim s) + rlen b" by (metis rlen_simps(3) add.assoc)
  then show ?thesis by simp
qed

lemma trim_no_whitespace: "\<forall>c \<in> set s. \<not> is_whitespace c \<Longrightarrow> trim s = s"
proof -
  assume h: "\<forall>c \<in> set s. \<not> is_whitespace c"
  have "dropWhile is_whitespace xs = xs" if "\<forall>c \<in> set xs. \<not> is_whitespace c" for xs
    using that by (cases xs) auto
  then have "dropWhile is_whitespace s = s" "dropWhile is_whitespace (rev s) = rev s"
    using h by (metis, metis set_rev)
  then show ?thesis by (simp add: trim_def)
qed

lemma trim_idem [simp]: "trim (trim s) = trim s"
proof (cases "trim s = []")
  case True
  then show ?thesis unfolding True by (simp add: trim_def)
next
  case False
  let ?d = "dropWhile is_whitespace s"
  let ?e = "dropWhile is_whitespace (rev ?d)"
  have t: "trim s = rev ?e" by (simp add: trim_def)
  with False have "?e \<noteq> []" by simp
  then have last: "\<not> is_whitespace (hd ?e)" by (rule hd_dropWhile)
  obtain p where p: "rev ?d = p @ ?e" by (metis takeWhile_dropWhile_id)
  then have d: "?d = rev ?e @ rev p" by (metis rev_append rev_rev_ident)
  then have "?d \<noteq> []" using \<open>?e \<noteq> []\<close> by (metis append_is_Nil_conv rev_is_Nil_conv)
  then have "\<not> is_whitespace (hd ?d)" by (rule hd_dropWhile)
  with d \<open>?e \<noteq> []\<close> have hd: "\<not> is_whitespace (hd (rev ?e))"
    by (metis hd_append2 rev_is_Nil_conv)
  have "dropWhile is_whitespace (rev ?e) = rev ?e"
    using hd \<open>?e \<noteq> []\<close> by (cases "rev ?e") auto
  moreover have "dropWhile is_whitespace ?e = ?e"
    using last \<open>?e \<noteq> []\<close> by (cases ?e) auto
  ultimately show ?thesis unfolding t by (simp add: trim_def)
qed

lemma starts_with_iff: "starts_with p s \<longleftrightarrow> (\<exists>r. s = p @ r)"
  by (auto simp: starts_with_def) (metis append_take_drop_id)

lemma strip_prefix_eq_Some [simp]: "strip_prefix p s = Some r \<longleftrightarrow> s = p @ r"
  by (auto simp: strip_prefix_def starts_with_iff)

lemma strip_prefix_append [simp]: "strip_prefix p (p @ r) = Some r"
  by simp

section \<open>Decimal display\<close>

lemma show_nat_digits: "c \<in> set (show_nat n) \<Longrightarrow> is_ascii_digit c"
proof (induction n rule: show_nat.induct)
  case (1 n)
  then show ?case
    by (subst (asm) show_nat.simps) (auto simp: is_ascii_digit_def split: if_splits)
qed

lemma show_nat_small: "n < 10 \<Longrightarrow> show_nat n = [48 + n]"
  by (subst show_nat.simps) simp

lemma show_nat_large: "\<not> n < 10 \<Longrightarrow> show_nat n = show_nat (n div 10) @ [48 + n mod 10]"
  by (subst show_nat.simps) simp

lemma show_nat_nonempty: "show_nat n \<noteq> []"
  by (subst show_nat.simps) simp

lemma show_nat_inj: "show_nat m = show_nat n \<Longrightarrow> m = n"
proof (induction m arbitrary: n rule: show_nat.induct)
  case (1 m)
  note eq = \<open>show_nat m = show_nat n\<close>
  show ?case
  proof (cases "m < 10")
    case True
    with eq show_nat_nonempty [of "n div 10"] show ?thesis
      by (cases "n < 10") (auto simp: show_nat_small show_nat_large Cons_eq_append_conv)
  next
    case False
    with eq show_nat_nonempty [of "m div 10"] have n: "\<not> n < 10"
      by (auto simp: show_nat_small show_nat_large append_eq_Cons_conv)
    with eq False have digits: "show_nat (m div 10) = show_nat (n div 10)" "m mod 10 = n mod 10"
      by (simp_all add: show_nat_large)
    from "1.IH" [OF False digits(1)] have "m div 10 = n div 10" .
    with digits(2) show ?thesis by (metis mult_div_mod_eq)
  qed
qed

section \<open>Saturating subtraction\<close>

lemma saturating_sub_unat: "unat (saturating_sub a b) = unat a - unat b"
  by (auto simp: saturating_sub_def word_less_nat_alt unat_sub_if')

lemma saturating_sub_eq_0: "saturating_sub a b = 0 \<longleftrightarrow> a \<le> b"
  by (auto simp: saturating_sub_def)

section \<open>Bounded ASCII tokens\<close>

text \<open>
  The interface of the server's identifier checks: what they accept is not empty, bounded in bytes
  and made of visible ASCII bytes. The lemmas are what their clients rely on: such a token has its
  bytes as characters, no separator, white space or control in it, and is its own trimming.
\<close>

locale ascii_token =
  fixes accepts :: "rstring \<Rightarrow> bool"
    and max_len :: nat
  assumes accepts_nonempty: "accepts s \<Longrightarrow> s \<noteq> []"
    and accepts_len: "accepts s \<Longrightarrow> rlen s \<le> max_len"
    and accepts_visible: "accepts s \<Longrightarrow> \<forall>b \<in> set (as_bytes s). 33 \<le> b \<and> b < 127"
begin

lemma token_chars: "accepts s \<Longrightarrow> as_bytes s = s \<and> (\<forall>c \<in> set s. 33 \<le> c \<and> c < 127)"
proof -
  assume a: "accepts s"
  have "\<forall>b \<in> set (as_bytes s). b < 128" using accepts_visible [OF a] by auto
  then have "as_bytes s = s" by (rule ascii_bytes_imp_ascii(2))
  with accepts_visible [OF a] show ?thesis by simp
qed

lemma token_length: "accepts s \<Longrightarrow> rlen s = length s \<and> 1 \<le> length s \<and> length s \<le> max_len"
  using token_chars [of s] accepts_len [of s] accepts_nonempty [of s]
  by (auto simp: rlen_def Suc_le_eq)

lemma token_no_newline: "accepts s \<Longrightarrow> 10 \<notin> set s"
  using token_chars [of s] by auto

lemma token_no_whitespace: "accepts s \<Longrightarrow> c \<in> set s \<Longrightarrow> \<not> is_whitespace c \<and> \<not> is_control c"
  using token_chars [of s] by (auto simp: is_whitespace_def is_control_def)

lemma token_trim: "accepts s \<Longrightarrow> trim s = s"
  using token_no_whitespace by (intro trim_no_whitespace) blast

end

end
