(* ===== verification/Rust_Float.thy ===== *)
theory Rust_Float
  imports Prelude
begin

text \<open>
  The IEEE 754 values behind \<open>f32\<close> and \<open>f64\<close> as the alert model uses them: finiteness, the
  comparison \<open>\<le>\<close>, the widening \<open>f64::from\<close> and the rounding cast \<open>as f32\<close>. A float is its
  sign, its biased exponent and its fraction, at the widths of the format.
\<close>

section \<open>Formats\<close>

datatype f32 = F32 (f32_sign: bool) (f32_exp: "8 word") (f32_frac: "23 word")

datatype f64 = F64 (f64_sign: bool) (f64_exp: "11 word") (f64_frac: "52 word")

definition f32_is_finite :: "f32 \<Rightarrow> bool" where
  "f32_is_finite x \<longleftrightarrow> f32_exp x \<noteq> 255"

definition f32_is_nan :: "f32 \<Rightarrow> bool" where
  "f32_is_nan x \<longleftrightarrow> f32_exp x = 255 \<and> f32_frac x \<noteq> 0"

definition f64_is_nan :: "f64 \<Rightarrow> bool" where
  "f64_is_nan x \<longleftrightarrow> f64_exp x = 2047 \<and> f64_frac x \<noteq> 0"

text \<open>
  Away from NaN the order of the values is the order of exponent and fraction read as one number,
  negated for a negative sign; the two zeros are equal.
\<close>

definition f32_key :: "f32 \<Rightarrow> int" where
  "f32_key x =
     (let m = int (unat (f32_exp x) * 2 ^ 23 + unat (f32_frac x)) in if f32_sign x then - m else m)"

definition f64_key :: "f64 \<Rightarrow> int" where
  "f64_key x =
     (let m = int (unat (f64_exp x) * 2 ^ 52 + unat (f64_frac x)) in if f64_sign x then - m else m)"

definition f32_le :: "f32 \<Rightarrow> f32 \<Rightarrow> bool" where
  "f32_le x y \<longleftrightarrow> \<not> f32_is_nan x \<and> \<not> f32_is_nan y \<and> f32_key x \<le> f32_key y"

definition f64_le :: "f64 \<Rightarrow> f64 \<Rightarrow> bool" where
  "f64_le x y \<longleftrightarrow> \<not> f64_is_nan x \<and> \<not> f64_is_nan y \<and> f64_key x \<le> f64_key y"

definition f32_zero :: f32 where "f32_zero = F32 False 0 0"
definition f32_one :: f32 where "f32_one = F32 False 127 0"
definition f64_zero :: f64 where "f64_zero = F64 False 0 0"
definition f64_one :: f64 where "f64_one = F64 False 1023 0"

section \<open>Conversions\<close>

fun floor_log2 :: "nat \<Rightarrow> nat" where
  "floor_log2 n = (if n \<le> 1 then 0 else Suc (floor_log2 (n div 2)))"

declare floor_log2.simps [simp del]

text \<open>\<open>f64::from(f32)\<close>: exact; a subnormal \<open>f32\<close> becomes a normal \<open>f64\<close>.\<close>

fun f64_from :: "f32 \<Rightarrow> f64" where
  "f64_from (F32 s e f) =
     (if e = 255 then F64 s 2047 (of_nat (unat f * 2 ^ 29))
      else if e = 0 then
        (if f = 0 then F64 s 0 0
         else let k = floor_log2 (unat f)
              in F64 s (of_nat (k + 874)) (of_nat ((unat f - 2 ^ k) * 2 ^ (52 - k))))
      else F64 s (of_nat (unat e + 896)) (of_nat (unat f * 2 ^ 29)))"

text \<open>Division by a power of two, rounded to the nearest integer, ties to even.\<close>

definition round_half_even :: "nat \<Rightarrow> nat \<Rightarrow> nat" where
  "round_half_even m s =
     (let q = m div 2 ^ s; r = m mod 2 ^ s
      in if 2 ^ s < 2 * r \<or> (2 * r = 2 ^ s \<and> odd q) then q + 1 else q)"

text \<open>
  \<open>as f32\<close>: the magnitude of the result is computed as one number (exponent and fraction), so
  that a carry out of the fraction raises the exponent; too large a magnitude is an infinity.
\<close>

definition f32_magnitude :: "nat \<Rightarrow> nat \<Rightarrow> nat" where
  "f32_magnitude x m =
     (if 897 \<le> x then (x - 897) * 2 ^ 23 + round_half_even m 29
      else round_half_even m (29 + (897 - x)))"

definition f32_of_magnitude :: "bool \<Rightarrow> nat \<Rightarrow> f32" where
  "f32_of_magnitude s mag =
     (if 255 * 2 ^ 23 \<le> mag then F32 s 255 0
      else F32 s (of_nat (mag div 2 ^ 23)) (of_nat (mag mod 2 ^ 23)))"

fun as_f32 :: "f64 \<Rightarrow> f32" where
  "as_f32 (F64 s e f) =
     (if e = 2047 then
        (if f = 0 then F32 s 255 0 else F32 s 255 (of_nat (2 ^ 22 + unat f div 2 ^ 29 mod 2 ^ 22)))
      else f32_of_magnitude s
             (f32_magnitude (max 1 (unat e)) (if e = 0 then unat f else 2 ^ 52 + unat f)))"

section \<open>The round trip through \<open>f64\<close>\<close>

lemma floor_log2_bounds: "0 < n \<Longrightarrow> 2 ^ floor_log2 n \<le> n \<and> n < 2 ^ Suc (floor_log2 n)"
proof (induction n rule: floor_log2.induct)
  case (1 n)
  show ?case
  proof (cases "n \<le> 1")
    case True
    with "1.prems" show ?thesis by (simp add: floor_log2.simps [of n])
  next
    case False
    then have "0 < n div 2" by simp
    with "1.IH" [OF False] have "2 ^ floor_log2 (n div 2) \<le> n div 2"
      "n div 2 < 2 ^ Suc (floor_log2 (n div 2))" by auto
    with False show ?thesis by (simp add: floor_log2.simps [of n]) linarith
  qed
qed

lemma floor_log2_less: "0 < n \<Longrightarrow> n < 2 ^ k \<Longrightarrow> floor_log2 n < k"
  using floor_log2_bounds [of n] by (auto intro: power_less_imp_less_exp [of 2] le_less_trans)

lemma round_half_even_exact [simp]: "round_half_even (m * 2 ^ s) s = m"
  by (simp add: round_half_even_def)

lemma unat_less_power:
  fixes w :: "'a::len word"
  shows "unat w < 2 ^ LENGTH('a)"
  by (rule unsigned_less)

lemma unat_of_nat_less:
  "n < 2 ^ LENGTH('a) \<Longrightarrow> unat (of_nat n :: 'a::len word) = n"
  by (simp add: unat_of_nat take_bit_nat_eq_self)

lemma f32_fields_less: "unat (e :: 8 word) < 256" "unat (f :: 23 word) < 2 ^ 23"
  using unat_less_power [of e] unat_less_power [of f] by simp_all

lemma f32_of_magnitude_fields:
  "e \<noteq> 255 \<Longrightarrow> f32_of_magnitude s (unat e * 2 ^ 23 + unat f) = F32 s e f"
proof -
  assume "e \<noteq> 255"
  then have "unat e \<le> 254" using f32_fields_less(1) [of e] by (auto simp: word_unat_eq_iff)
  moreover have "unat f < 2 ^ 23" by (rule f32_fields_less)
  ultimately show ?thesis by (simp add: f32_of_magnitude_def)
qed

lemma as_f32_normal:
  assumes "e \<noteq> 255" "e \<noteq> 0"
  shows "as_f32 (f64_from (F32 s e f)) = F32 s e f"
proof -
  have e: "0 < unat e" "unat e < 255"
    using assms f32_fields_less(1) [of e] by (auto simp: word_unat_eq_iff)
  have f: "unat f < 2 ^ 23" by (rule f32_fields_less)
  define x :: "11 word" where "x = of_nat (unat e + 896)"
  define m :: "52 word" where "m = of_nat (unat f * 2 ^ 29)"
  have x: "unat x = unat e + 896" unfolding x_def
    using e by (intro unat_of_nat_less) simp
  have m: "unat m = unat f * 2 ^ 29" unfolding m_def
    using f by (intro unat_of_nat_less) simp
  have "x \<noteq> 2047" "x \<noteq> 0" using x e by (auto simp: word_unat_eq_iff)
  moreover have "max 1 (unat x) = unat e + 896" using x by simp
  moreover have "2 ^ 52 + unat m = (2 ^ 23 + unat f) * 2 ^ 29" using m by simp
  moreover have "f32_magnitude (unat e + 896) ((2 ^ 23 + unat f) * 2 ^ 29) = unat e * 2 ^ 23 + unat f"
    using e unfolding f32_magnitude_def round_half_even_exact by (cases "unat e") simp_all
  ultimately have "as_f32 (F64 s x m) = F32 s e f"
    using f32_of_magnitude_fields [OF assms(1)] by (simp only: as_f32.simps if_False)
  then show ?thesis using assms by (simp add: x_def m_def)
qed

lemma as_f32_subnormal:
  assumes "f \<noteq> 0"
  shows "as_f32 (f64_from (F32 s 0 f)) = F32 s 0 f"
proof -
  have f: "0 < unat f" "unat f < 2 ^ 23"
    using assms f32_fields_less(2) [of f] by (auto simp: word_unat_eq_iff)
  define k where "k = floor_log2 (unat f)"
  have k: "k < 23" "2 ^ k \<le> unat f" "unat f < 2 * 2 ^ k"
    using floor_log2_less [OF f] floor_log2_bounds [OF f(1)] by (simp_all add: k_def)
  define x :: "11 word" where "x = of_nat (k + 874)"
  define m :: "52 word" where "m = of_nat ((unat f - 2 ^ k) * 2 ^ (52 - k))"
  have x: "unat x = k + 874" unfolding x_def using k by (intro unat_of_nat_less) simp
  have pow: "2 ^ k * 2 ^ (52 - k) = (2 ^ 52 :: nat)"
    using k by (simp add: power_add [symmetric])
  have "(unat f - 2 ^ k) * 2 ^ (52 - k) < 2 ^ k * 2 ^ (52 - k)"
    using k by (intro mult_strict_right_mono) simp_all
  then have m: "unat m = (unat f - 2 ^ k) * 2 ^ (52 - k)"
    unfolding m_def pow by (intro unat_of_nat_less) simp
  have "x \<noteq> 2047" "x \<noteq> 0" using x k by (auto simp: word_unat_eq_iff)
  moreover have "max 1 (unat x) = k + 874" using x by simp
  moreover have "2 ^ 52 + unat m = unat f * 2 ^ (52 - k)"
    using k(2) unfolding m pow [symmetric] by (simp add: distrib_right [symmetric])
  moreover have "f32_magnitude (k + 874) (unat f * 2 ^ (52 - k)) = unat (0 :: 8 word) * 2 ^ 23 + unat f"
  proof -
    have "29 + (897 - (k + 874)) = 52 - k" using k by simp
    then show ?thesis using k(1) by (simp add: f32_magnitude_def)
  qed
  ultimately have "as_f32 (F64 s x m) = F32 s 0 f"
    using f32_of_magnitude_fields [of 0 s f] by (simp only: as_f32.simps if_False) simp
  then show ?thesis using assms by (simp add: x_def m_def k_def Let_def)
qed

text \<open>A finite \<open>f32\<close> survives \<open>f64::from\<close> followed by \<open>as f32\<close>.\<close>

lemma as_f32_f64_from: "f32_is_finite x \<Longrightarrow> as_f32 (f64_from x) = x"
proof (cases x)
  case (F32 s e f)
  assume "f32_is_finite x"
  with F32 have e: "e \<noteq> 255" by (simp add: f32_is_finite_def)
  consider "e \<noteq> 0" | "e = 0" "f \<noteq> 0" | "e = 0" "f = 0" by blast
  then show ?thesis
  proof cases
    case 1
    with e F32 show ?thesis by (metis as_f32_normal)
  next
    case 2
    with F32 show ?thesis using as_f32_subnormal by metis
  next
    case 3
    with F32 show ?thesis
      by (simp add: f32_magnitude_def round_half_even_def f32_of_magnitude_def)
  qed
qed

text \<open>Widening keeps a value of the unit interval in the unit interval.\<close>

lemma f64_le_unitI:
  assumes "unat e < 1023 \<or> (unat e = 1023 \<and> f = 0)"
  shows "f64_le f64_zero (F64 False e f) \<and> f64_le (F64 False e f) f64_one"
proof -
  have "e \<noteq> 2047" using assms by (auto simp: word_unat_eq_iff)
  moreover have "unat e * 2 ^ 52 + unat f \<le> 1023 * 2 ^ 52"
    using assms unat_less_power [of f] by auto
  then have "int (unat e * 2 ^ 52 + unat f) \<le> int (1023 * 2 ^ 52)"
    by (simp only: of_nat_le_iff)
  ultimately show ?thesis
    by (simp add: f64_le_def f64_is_nan_def f64_key_def f64_zero_def f64_one_def)
qed

lemma f64_from_unit_pos:
  assumes "unat e < 127 \<or> (unat e = 127 \<and> f = 0)"
  shows "f64_le f64_zero (f64_from (F32 False e f)) \<and> f64_le (f64_from (F32 False e f)) f64_one"
proof -
  have e: "e \<noteq> 255" using assms by (auto simp: word_unat_eq_iff)
  have x: "unat (of_nat (unat e + 896) :: 11 word) = unat e + 896"
    using assms by (intro unat_of_nat_less) auto
  have "floor_log2 (unat f) < 23" if "f \<noteq> 0"
    using that f32_fields_less(2) [of f] by (intro floor_log2_less) (auto simp: word_unat_eq_iff)
  then have k: "unat (of_nat (floor_log2 (unat f) + 874) :: 11 word) < 1023" if "f \<noteq> 0"
    using that by (subst unat_of_nat_less) auto
  consider "e \<noteq> 0" | "e = 0" "f \<noteq> 0" | "e = 0" "f = 0" by blast
  then show ?thesis
  proof cases
    case 1
    with e have "f64_from (F32 False e f) = F64 False (of_nat (unat e + 896)) (of_nat (unat f * 2 ^ 29))"
      by simp
    moreover have "unat (of_nat (unat e + 896) :: 11 word) < 1023
        \<or> (unat (of_nat (unat e + 896) :: 11 word) = 1023 \<and> (of_nat (unat f * 2 ^ 29) :: 52 word) = 0)"
      unfolding x using assms by auto
    ultimately show ?thesis using f64_le_unitI by metis
  next
    case 2
    then have "f64_from (F32 False e f) = F64 False (of_nat (floor_log2 (unat f) + 874))
        (of_nat ((unat f - 2 ^ floor_log2 (unat f)) * 2 ^ (52 - floor_log2 (unat f))))"
      by (simp add: Let_def)
    with k [OF 2(2)] show ?thesis using f64_le_unitI by metis
  next
    case 3
    then show ?thesis using f64_le_unitI [of 0 0] by simp
  qed
qed

lemma f64_from_unit:
  assumes "f32_le f32_zero x" "f32_le x f32_one"
  shows "f64_le f64_zero (f64_from x) \<and> f64_le (f64_from x) f64_one"
proof (cases x)
  case (F32 s e f)
  have key: "0 \<le> f32_key x" "f32_key x \<le> 127 * 2 ^ 23"
    using assms by (simp_all add: f32_le_def f32_zero_def f32_one_def f32_key_def)
  show ?thesis
  proof (cases s)
    case True
    with key(1) F32 have "int (unat e * 2 ^ 23 + unat f) \<le> int 0"
      by (simp only: f32_key_def Let_def f32.sel if_True)
    then have "unat e * 2 ^ 23 + unat f \<le> 0" by (simp only: of_nat_le_iff)
    then have "unat e = 0" "unat f = 0" by simp_all
    then have "e = 0" "f = 0" by (simp_all add: word_unat_eq_iff)
    with F32 show ?thesis
      by (simp add: f64_le_def f64_is_nan_def f64_key_def f64_zero_def f64_one_def)
  next
    case False
    with key(2) F32 have "int (unat e * 2 ^ 23 + unat f) \<le> int (127 * 2 ^ 23)"
      by (simp add: f32_key_def)
    then have "unat e * 2 ^ 23 + unat f \<le> 127 * 2 ^ 23" by (simp only: of_nat_le_iff)
    then have "unat e < 127 \<or> (unat e = 127 \<and> unat f = 0)" by simp linarith
    then have "unat e < 127 \<or> (unat e = 127 \<and> f = 0)" by (simp add: word_unat_eq_iff)
    with F32 False show ?thesis using f64_from_unit_pos [of e f] by simp
  qed
qed

end
