(* ===== verification/Externals.thy ===== *)
theory Externals
  imports Rust_Std Rust_Float
begin

text \<open>
  Types and functions of third-party crates the server's data model mentions. The types are what
  the crates document of them; the functions are parameters of the model, fields of a record that
  the components extend with the functions they add.
\<close>

section \<open>Identifiers, time and JSON values\<close>

text \<open>\<open>uuid::Uuid\<close> is a 128-bit value, \<open>Uuid::nil()\<close> is zero.\<close>

type_synonym uuid = "128 word"

abbreviation uuid_nil :: uuid where
  "uuid_nil \<equiv> 0"

text \<open>\<open>chrono::DateTime<Utc>\<close>: nanoseconds relative to the Unix epoch.\<close>

type_synonym datetime = int

text \<open>\<open>serde_json::Value\<close>; a number is kept as the text \<open>Number::to_string\<close> gives.\<close>

datatype json =
    JNull
  | JBool bool
  | JNumber rstring
  | JString rstring
  | JArray "json list"
  | JObject "(rstring \<times> json) list"

text \<open>\<open>Value::as_str\<close> and the key lookup of \<open>serde_json::Map\<close>.\<close>

definition json_as_str :: "json \<Rightarrow> rstring option" where
  "json_as_str j = (case j of JString s \<Rightarrow> Some s | _ \<Rightarrow> None)"

lemma json_as_str_eq_Some [simp]: "json_as_str j = Some s \<longleftrightarrow> j = JString s"
  by (cases j) (auto simp: json_as_str_def)

section \<open>The \<open>uuid\<close> crate\<close>

record uuid_lib =
  uuid_parse_str :: "rstring \<Rightarrow> uuid option"
  uuid_to_string :: "uuid \<Rightarrow> rstring"

text \<open>
  What the code relies on: the text of an identifier parses back to it, and neither the text of an
  identifier nor a text that parses as one holds a line break.
\<close>

definition uuid_laws :: "'x uuid_lib_scheme \<Rightarrow> bool" where
  "uuid_laws u \<longleftrightarrow>
     (\<forall>i. uuid_parse_str u (uuid_to_string u i) = Some i) \<and>
     (\<forall>i. 10 \<notin> set (uuid_to_string u i)) \<and>
     (\<forall>s i. uuid_parse_str u s = Some i \<longrightarrow> 10 \<notin> set s)"

lemma uuid_lawsD:
  assumes "uuid_laws u"
  shows "uuid_parse_str u (uuid_to_string u i) = Some i"
    and "10 \<notin> set (uuid_to_string u i)"
    and "uuid_parse_str u s = Some i \<Longrightarrow> 10 \<notin> set s"
  using assms by (auto simp: uuid_laws_def)

lemma uuid_to_string_inj: "uuid_laws u \<Longrightarrow> uuid_to_string u i = uuid_to_string u j \<Longrightarrow> i = j"
  by (metis option.inject uuid_lawsD(1))

section \<open>A concrete instance\<close>

text \<open>
  The hyphenated lower-case form, and its parser, satisfy the laws: the hypotheses of the theorems
  can hold. The instance is used by witnesses only.
\<close>

definition hex_digit :: "nat \<Rightarrow> uchar" where
  "hex_digit n = (if n < 10 then 48 + n else 87 + n)"

definition hex_value :: "uchar \<Rightarrow> nat" where
  "hex_value c = (if c < 58 then c - 48 else c - 87)"

fun hex_digits :: "nat \<Rightarrow> nat \<Rightarrow> rstring" where
  "hex_digits 0 n = []"
| "hex_digits (Suc k) n = hex_digits k (n div 16) @ [hex_digit (n mod 16)]"

fun hex_number :: "nat \<Rightarrow> rstring \<Rightarrow> nat" where
  "hex_number acc [] = acc"
| "hex_number acc (c # cs) = hex_number (acc * 16 + hex_value c) cs"

definition hyphenated :: "rstring \<Rightarrow> rstring" where
  "hyphenated h =
     take 8 h @ 45 # take 4 (drop 8 h) @ 45 # take 4 (drop 12 h) @ 45 # take 4 (drop 16 h)
       @ 45 # drop 20 h"

definition uuid_to_string_ref :: "uuid \<Rightarrow> rstring" where
  "uuid_to_string_ref i = hyphenated (hex_digits 32 (unat i))"

definition uuid_parse_str_ref :: "rstring \<Rightarrow> uuid option" where
  "uuid_parse_str_ref s =
     (let i = of_nat (hex_number 0 (filter (\<lambda>c. c \<noteq> 45) s))
      in if uuid_to_string_ref i = s then Some i else None)"

lemma hex_digits_chars: "c \<in> set (hex_digits k n) \<Longrightarrow> 48 \<le> c"
  by (induction k arbitrary: n) (auto simp: hex_digit_def)

lemma hex_number_append: "hex_number acc (s @ t) = hex_number (hex_number acc s) t"
  by (induction s arbitrary: acc) simp_all

lemma hex_number_digits: "hex_number 0 (hex_digits k n) = n mod 16 ^ k"
proof (induction k arbitrary: n)
  case (Suc k)
  have "hex_value (hex_digit (n mod 16)) = n mod 16"
    by (simp add: hex_value_def hex_digit_def)
  then show ?case
    by (simp add: Suc hex_number_append mod_mult2_eq mult.commute)
qed simp

lemma filter_hyphenated: "\<forall>c \<in> set h. 48 \<le> c \<Longrightarrow> filter (\<lambda>c. c \<noteq> 45) (hyphenated h) = h"
proof -
  assume h: "\<forall>c \<in> set h. 48 \<le> c"
  have part: "filter (\<lambda>c. c \<noteq> 45) x = x" if "set x \<subseteq> set h" for x
    using h that by (fastforce simp: filter_id_conv)
  have sub: "set (take a (drop b h)) \<subseteq> set h" for a b
    by (meson order_trans set_drop_subset set_take_subset)
  have "take 4 (drop 16 h) @ drop 20 h = drop 16 h" "take 4 (drop 12 h) @ drop 16 h = drop 12 h"
    "take 4 (drop 8 h) @ drop 12 h = drop 8 h" "take 8 h @ drop 8 h = h"
    using append_take_drop_id [of 4 "drop 16 h"] append_take_drop_id [of 4 "drop 12 h"]
      append_take_drop_id [of 4 "drop 8 h"] by simp_all
  then show ?thesis
    using part [OF sub [of 8 0]] part [OF sub [of 4 8]] part [OF sub [of 4 12]]
      part [OF sub [of 4 16]] part [OF set_drop_subset [of 20]]
    by (simp add: hyphenated_def)
qed

lemma hyphenated_chars: "c \<in> set (hyphenated h) \<Longrightarrow> c = 45 \<or> c \<in> set h"
  by (auto simp: hyphenated_def dest: in_set_takeD in_set_dropD)

lemma uuid_parse_str_ref_inverse: "uuid_parse_str_ref (uuid_to_string_ref i) = Some i"
proof -
  have "filter (\<lambda>c. c \<noteq> 45) (uuid_to_string_ref i) = hex_digits 32 (unat i)"
    unfolding uuid_to_string_ref_def using hex_digits_chars by (intro filter_hyphenated) blast
  moreover have "unat i < 16 ^ 32" using unat_less_power [of i] by simp
  ultimately have "of_nat (hex_number 0 (filter (\<lambda>c. c \<noteq> 45) (uuid_to_string_ref i))) = i"
    by (simp add: hex_number_digits)
  then show ?thesis by (simp add: uuid_parse_str_ref_def Let_def)
qed

lemma uuid_to_string_ref_no_newline: "10 \<notin> set (uuid_to_string_ref i)"
  using hex_digits_chars hyphenated_chars unfolding uuid_to_string_ref_def by fastforce

lemma uuid_laws_ref:
  assumes "uuid_parse_str u = uuid_parse_str_ref" "uuid_to_string u = uuid_to_string_ref"
  shows "uuid_laws u"
proof -
  have "10 \<notin> set s" if "uuid_parse_str_ref s = Some i" for s i
    using that uuid_to_string_ref_no_newline [of i]
    by (auto simp: uuid_parse_str_ref_def Let_def split: if_splits)
  with assms uuid_parse_str_ref_inverse uuid_to_string_ref_no_newline
  show ?thesis by (simp add: uuid_laws_def)
qed

end
