(* ===== verification/Alert_Model.thy ===== *)
theory Alert_Model
  imports Externals
begin

text \<open>
  The alert rules of \<open>src/src/model.rs\<close>: the stored rule, the input of a creation request, its
  validation and the normalisation into a rule. The lemmas show that validation and normalisation
  establish the well-formedness of stored rules and that normalising again changes nothing.
\<close>

section \<open>Data\<close>

definition MAX_ALERT_NAME_BYTES :: nat where "MAX_ALERT_NAME_BYTES = 160"
definition MAX_QUERY_BYTES :: nat where "MAX_QUERY_BYTES = 8 * 1024"
definition MAX_MODEL_BYTES :: nat where "MAX_MODEL_BYTES = 128"
definition MAX_LIST_ITEMS :: nat where "MAX_LIST_ITEMS = 32"
definition MAX_LIST_ITEM_BYTES :: nat where "MAX_LIST_ITEM_BYTES = 256"

lemmas model_limits [rust_simps] =
  MAX_ALERT_NAME_BYTES_def MAX_QUERY_BYTES_def MAX_MODEL_BYTES_def MAX_LIST_ITEMS_def
  MAX_LIST_ITEM_BYTES_def

record alert_rule =
  ar_id :: uuid
  ar_created_at :: datetime
  ar_updated_at :: datetime
  ar_name :: rstring
  ar_query_text :: rstring
  ar_embedding_model :: rstring
  ar_similarity_threshold :: f32
  ar_source_filters :: "rstring list"
  ar_delivery_channels :: "rstring list"
  ar_enabled :: bool

record create_alert_rule =
  cr_name :: rstring
  cr_query_text :: rstring
  cr_embedding_model :: rstring
  cr_similarity_threshold :: f32
  cr_source_filters :: "rstring list"
  cr_delivery_channels :: "rstring list"
  cr_enabled :: bool

record health =
  service :: rstring
  health_status :: rstring
  h_database_configured :: bool
  h_shared_auth_configured :: bool
  h_mtls_configured :: bool
  h_jetstream_configured :: bool

section \<open>Validation and normalisation\<close>

definition validate_text :: "rstring \<Rightarrow> nat \<Rightarrow> (unit, string) result" where
  "validate_text value limit =
     (if trim value = [] \<or> limit < rlen value \<or> (\<exists>c \<in> set value. is_control c)
      then Err ''text field is empty, oversized, or contains controls''
      else Ok ())"

fun validate_items :: "rstring list \<Rightarrow> (unit, string) result" where
  "validate_items [] = Ok ()"
| "validate_items (v # vs) =
     and_then (validate_text v MAX_LIST_ITEM_BYTES) (\<lambda>_. validate_items vs)"

definition validate_list :: "rstring list \<Rightarrow> (unit, string) result" where
  "validate_list values =
     (if MAX_LIST_ITEMS < length values then Err ''list field contains too many entries''
      else validate_items values)"

definition validate :: "create_alert_rule \<Rightarrow> (unit, string) result" where
  "validate r =
     and_then (validate_text (cr_name r) MAX_ALERT_NAME_BYTES) (\<lambda>_.
     and_then (validate_text (cr_query_text r) MAX_QUERY_BYTES) (\<lambda>_.
     and_then (validate_text (cr_embedding_model r) MAX_MODEL_BYTES) (\<lambda>_.
     if \<not> f32_is_finite (cr_similarity_threshold r)
        \<or> \<not> (f32_le f32_zero (cr_similarity_threshold r) \<and> f32_le (cr_similarity_threshold r) f32_one)
     then Err ''similarity_threshold must be between zero and one''
     else
     and_then (validate_list (cr_source_filters r)) (\<lambda>_.
     and_then (validate_list (cr_delivery_channels r)) (\<lambda>_. Ok ())))))"

definition normalize_list :: "rstring list \<Rightarrow> rstring list" where
  "normalize_list values = map trim values"

definition into_rule :: "create_alert_rule \<Rightarrow> uuid \<Rightarrow> datetime \<Rightarrow> alert_rule" where
  "into_rule r i now =
     \<lparr>ar_id = i, ar_created_at = now, ar_updated_at = now,
      ar_name = trim (cr_name r), ar_query_text = trim (cr_query_text r),
      ar_embedding_model = trim (cr_embedding_model r),
      ar_similarity_threshold = cr_similarity_threshold r,
      ar_source_filters = normalize_list (cr_source_filters r),
      ar_delivery_channels = normalize_list (cr_delivery_channels r),
      ar_enabled = cr_enabled r\<rparr>"

section \<open>Well-formed rules\<close>

text \<open>
  A stored text is trimmed, not empty, bounded in bytes and free of control characters; a stored
  list is bounded and made of such texts; the threshold is a finite number between zero and one.
\<close>

definition wf_text :: "nat \<Rightarrow> rstring \<Rightarrow> bool" where
  "wf_text limit s \<longleftrightarrow> s \<noteq> [] \<and> trim s = s \<and> rlen s \<le> limit \<and> (\<forall>c \<in> set s. \<not> is_control c)"

definition wf_list :: "rstring list \<Rightarrow> bool" where
  "wf_list xs \<longleftrightarrow> length xs \<le> MAX_LIST_ITEMS \<and> (\<forall>x \<in> set xs. wf_text MAX_LIST_ITEM_BYTES x)"

definition wf_rule :: "alert_rule \<Rightarrow> bool" where
  "wf_rule a \<longleftrightarrow>
     wf_text MAX_ALERT_NAME_BYTES (ar_name a) \<and> wf_text MAX_QUERY_BYTES (ar_query_text a) \<and>
     wf_text MAX_MODEL_BYTES (ar_embedding_model a) \<and>
     f32_is_finite (ar_similarity_threshold a) \<and> f32_le f32_zero (ar_similarity_threshold a) \<and>
     f32_le (ar_similarity_threshold a) f32_one \<and>
     wf_list (ar_source_filters a) \<and> wf_list (ar_delivery_channels a)"

text \<open>The input that would create a rule again.\<close>

definition input_of :: "alert_rule \<Rightarrow> create_alert_rule" where
  "input_of a =
     \<lparr>cr_name = ar_name a, cr_query_text = ar_query_text a,
      cr_embedding_model = ar_embedding_model a,
      cr_similarity_threshold = ar_similarity_threshold a,
      cr_source_filters = ar_source_filters a, cr_delivery_channels = ar_delivery_channels a,
      cr_enabled = ar_enabled a\<rparr>"

lemma validate_text_Ok_iff:
  "validate_text s m = Inr u \<longleftrightarrow> trim s \<noteq> [] \<and> rlen s \<le> m \<and> (\<forall>c \<in> set s. \<not> is_control c)"
  by (auto simp: validate_text_def)

lemma validate_items_Ok_iff:
  "validate_items vs = Inr u \<longleftrightarrow> (\<forall>v \<in> set vs. validate_text v MAX_LIST_ITEM_BYTES = Inr ())"
  by (induction vs) auto

lemma validate_list_Ok_iff:
  "validate_list vs = Inr u \<longleftrightarrow>
     length vs \<le> MAX_LIST_ITEMS \<and> (\<forall>v \<in> set vs. validate_text v MAX_LIST_ITEM_BYTES = Inr ())"
  by (auto simp: validate_list_def validate_items_Ok_iff)

lemma validate_Ok_iff:
  "validate r = Inr u \<longleftrightarrow>
     validate_text (cr_name r) MAX_ALERT_NAME_BYTES = Inr () \<and>
     validate_text (cr_query_text r) MAX_QUERY_BYTES = Inr () \<and>
     validate_text (cr_embedding_model r) MAX_MODEL_BYTES = Inr () \<and>
     f32_is_finite (cr_similarity_threshold r) \<and>
     f32_le f32_zero (cr_similarity_threshold r) \<and> f32_le (cr_similarity_threshold r) f32_one \<and>
     validate_list (cr_source_filters r) = Inr () \<and> validate_list (cr_delivery_channels r) = Inr ()"
  by (auto simp: validate_def)

lemma wf_text_trim: "validate_text s m = Inr () \<Longrightarrow> wf_text m (trim s)"
  using trim_subset [of s] rlen_trim_le [of s]
  by (auto simp: validate_text_Ok_iff wf_text_def)

lemma wf_list_normalize: "validate_list vs = Inr () \<Longrightarrow> wf_list (normalize_list vs)"
  by (auto simp: validate_list_Ok_iff wf_list_def normalize_list_def wf_text_trim)

lemma wf_rule_into_rule: "validate r = Inr () \<Longrightarrow> wf_rule (into_rule r i now)"
  by (simp add: validate_Ok_iff wf_rule_def into_rule_def wf_text_trim wf_list_normalize)

lemma wf_text_validates: "wf_text m s \<Longrightarrow> validate_text s m = Inr ()"
  by (simp add: wf_text_def validate_text_Ok_iff)

lemma wf_list_validates: "wf_list xs \<Longrightarrow> validate_list xs = Inr ()"
  by (simp add: wf_list_def validate_list_Ok_iff wf_text_validates)

lemma wf_list_normal: "wf_list xs \<Longrightarrow> normalize_list xs = xs"
  by (simp add: wf_list_def normalize_list_def wf_text_def map_idI)

lemma into_rule_input_of:
  assumes "wf_rule a" "ar_updated_at a = ar_created_at a"
  shows "validate (input_of a) = Inr ()" and "into_rule (input_of a) (ar_id a) (ar_created_at a) = a"
  using assms
  by (simp_all add: wf_rule_def validate_Ok_iff input_of_def wf_text_validates wf_list_validates
      into_rule_def wf_list_normal wf_text_def)

section \<open>Properties\<close>

text \<open>A request the tests of \<open>model.rs\<close> accept, with white space around the name.\<close>

definition sample_input :: create_alert_rule where
  "sample_input =
     \<lparr>cr_name = rs '' New source '', cr_query_text = rs ''rust releases'',
      cr_embedding_model = rs ''small'', cr_similarity_threshold = F32 False 126 0,
      cr_source_filters = [rs ''docs''], cr_delivery_channels = [rs ''email''], cr_enabled = True\<rparr>"

lemma sample_input_valid: "validate sample_input = Inr ()"
proof -
  have texts: "validate_text (cr_name sample_input) MAX_ALERT_NAME_BYTES = Inr ()"
    "validate_text (cr_query_text sample_input) MAX_QUERY_BYTES = Inr ()"
    "validate_text (cr_embedding_model sample_input) MAX_MODEL_BYTES = Inr ()"
    by (simp_all add: sample_input_def validate_text_def trim_def is_whitespace_def is_control_def
        rust_simps)
  have lists: "validate_list (cr_source_filters sample_input) = Inr ()"
    "validate_list (cr_delivery_channels sample_input) = Inr ()"
    by (simp_all add: sample_input_def validate_list_def validate_text_def trim_def
        is_whitespace_def is_control_def rust_simps)
  have "f32_is_finite (F32 False 126 0)" "f32_le f32_zero (F32 False 126 0)"
    "f32_le (F32 False 126 0) f32_one"
    by (simp_all add: f32_is_finite_def f32_le_def f32_is_nan_def f32_key_def f32_zero_def f32_one_def)
  with texts lists show ?thesis by (simp add: validate_Ok_iff) (simp add: sample_input_def)
qed

text \<open>
  C34. Validation and normalisation establish the invariant of stored rules: a rule made from an
  accepted request has trimmed, non-empty, bounded and control-free texts, bounded lists of such
  texts, and a finite threshold between zero and one.
\<close>

theorem accepted_input_gives_wf_rule:
  assumes "validate r = Ok ()"
  shows "wf_rule (into_rule r i now)"
  using assms by (rule wf_rule_into_rule)

theorem accepted_input_gives_wf_rule_witness: "wf_rule (into_rule sample_input 7 42)"
  by (rule accepted_input_gives_wf_rule [OF sample_input_valid])

text \<open>
  Normalisation is stable: the rule made from an accepted request, submitted again as a
  request, is accepted and gives the same rule.
\<close>

theorem normalisation_is_stable:
  assumes "validate r = Ok ()"
  shows "validate (input_of (into_rule r i now)) = Ok ()
    \<and> into_rule (input_of (into_rule r i now)) i now = into_rule r i now"
proof -
  let ?a = "into_rule r i now"
  have "wf_rule ?a" using assms by (rule wf_rule_into_rule)
  moreover have "ar_updated_at ?a = ar_created_at ?a" "ar_id ?a = i" "ar_created_at ?a = now"
    by (simp_all add: into_rule_def)
  ultimately show ?thesis using into_rule_input_of [of ?a] by simp
qed

theorem normalisation_is_stable_witness:
  "validate (input_of (into_rule sample_input 7 42)) = Ok ()
    \<and> into_rule (input_of (into_rule sample_input 7 42)) 7 42 = into_rule sample_input 7 42"
  by (rule normalisation_is_stable [OF sample_input_valid])

end
