(* ===== verification/Auth.thy ===== *)
theory Auth
  imports Externals
begin

text \<open>
  The authentication boundary of \<open>src/src/auth.rs\<close>: bearer extraction from request headers, the
  introspection of a token at the identity authority, the authorization of the introspected claims
  against the configured policy, and the loading of that policy. The identity authority's client,
  the header decoding and the scope test of the claims are parameters.
\<close>

section \<open>Data\<close>

definition READ_SCOPE :: rstring where "READ_SCOPE = rs ''embedded-alerts:alerts:read''"
definition WRITE_SCOPE :: rstring where "WRITE_SCOPE = rs ''embedded-alerts:alerts:write''"
definition MAX_CREDENTIAL_BYTES :: nat where "MAX_CREDENTIAL_BYTES = 16 * 1024"

record auth_policy =
  pol_issuer :: rstring
  pol_audience :: rstring
  pol_authorized_client :: rstring
  pol_provider_tenant :: rstring
  pol_product_tenant :: rstring

record verified_actor =
  va_subject :: uuid
  va_product_tenant :: rstring

datatype auth_error = Auth_Unauthorized | Auth_Degraded | Auth_Configuration

fun auth_error_message :: "auth_error \<Rightarrow> string" where
  "auth_error_message Auth_Unauthorized = ''unauthorized''"
| "auth_error_message Auth_Degraded = ''identity authority unavailable''"
| "auth_error_message Auth_Configuration = ''identity configuration invalid''"

text \<open>The claims \<open>shared_auth_client::Introspection\<close> holds, as far as the server reads them.\<close>

record introspection =
  in_active :: bool
  in_sub :: "rstring option"
  in_sid :: "rstring option"
  in_iss :: "rstring option"
  in_aud :: "rstring option"
  in_azp :: "rstring option"
  in_scope :: "rstring option"
  in_provider_tenant :: "rstring option"
  in_exp :: "u64 option"
  in_nbf :: "u64 option"
  in_rest :: "rstring \<rightharpoonup> json"

datatype client_error = Client_Unauthorized | Client_InvalidInput rstring | Client_Other

text \<open>\<open>SharedAuthClient\<close> with what its builder methods set.\<close>

record shared_auth_client =
  sac_base :: rstring
  sac_service_credential :: "rstring option"
  sac_max_response_bytes :: "nat option"

record auth_boundary =
  ab_client :: shared_auth_client
  ab_policy :: auth_policy

text \<open>A \<open>HeaderMap\<close> is the list of its headers in order, names in lower case.\<close>

type_synonym header_map = "(rstring \<times> u8 list) list"

text \<open>
  The identity authority answers a call by what it knows at that moment, so a token can be revoked and
  the authority can fail or recover between two calls.
\<close>

record auth_lib = uuid_lib +
  header_to_str :: "u8 list \<Rightarrow> rstring option"
  has_scope :: "introspection \<Rightarrow> rstring \<Rightarrow> bool"
  client_try_new :: "rstring \<Rightarrow> shared_auth_client option"
  introspect_with_requirements ::
    "system_time \<Rightarrow> shared_auth_client \<Rightarrow> rstring \<Rightarrow> rstring \<Rightarrow> rstring list \<Rightarrow> (introspection, client_error) result"

section \<open>Operations\<close>

definition strict_credential :: "rstring \<Rightarrow> bool" where
  "strict_credential value \<longleftrightarrow>
     16 \<le> rlen value \<and> rlen value \<le> MAX_CREDENTIAL_BYTES \<and> trim value = value \<and>
     \<not> (\<exists>c \<in> set value. is_whitespace c) \<and> \<not> (\<exists>c \<in> set value. is_control c)"

definition bounded_identifier :: "rstring \<Rightarrow> bool" where
  "bounded_identifier value \<longleftrightarrow>
     value \<noteq> [] \<and> rlen value \<le> 128 \<and>
     (\<forall>b \<in> set (as_bytes value). is_ascii_alphanumeric b \<or> b \<in> {46, 95, 58, 47, 45})"

definition required_env :: "(rstring \<Rightarrow> rstring option) \<Rightarrow> string \<Rightarrow> (rstring, auth_error) result" where
  "required_env var name =
     ok_or Auth_Configuration (option_filter (\<lambda>v. v \<noteq> []) (map_option trim (var (rs name))))"

definition unix_seconds :: "system_time \<Rightarrow> (u64, auth_error) result" where
  "unix_seconds now =
     (case duration_since_epoch now of
        None \<Rightarrow> Err Auth_Degraded
      | Some ns \<Rightarrow> Ok (of_nat (ns div 1000000000)))"

definition claim_string :: "introspection \<Rightarrow> string \<Rightarrow> rstring option" where
  "claim_string claims key =
     option_filter bounded_identifier (Option.bind (in_rest claims (rs key)) json_as_str)"

definition bearer_from_headers :: "'x auth_lib_scheme \<Rightarrow> header_map \<Rightarrow> (rstring, auth_error) result" where
  "bearer_from_headers lib headers =
     (case map snd (filter (\<lambda>h. fst h = rs ''authorization'') headers) of
        [] \<Rightarrow> Err Auth_Unauthorized
      | value # rest \<Rightarrow>
          if rest \<noteq> [] then Err Auth_Unauthorized
          else and_then (ok_or Auth_Unauthorized (header_to_str lib value)) (\<lambda>value.
               ok_or Auth_Unauthorized
                 (option_filter strict_credential (strip_prefix (rs ''Bearer '') value))))"

definition authorize_introspection ::
  "'x auth_lib_scheme \<Rightarrow> introspection \<Rightarrow> auth_policy \<Rightarrow> rstring \<Rightarrow> u64
     \<Rightarrow> (verified_actor, auth_error) result" where
  "authorize_introspection lib claims policy required_scope now =
     (let tenant_id = claim_string claims ''tenant_id'';
          application_id = claim_string claims ''application_id'';
          actor_kind = claim_string claims ''actor_kind'';
          subject = Option.bind (in_sub claims) (uuid_parse_str lib);
          session_present = (case in_sid claims of None \<Rightarrow> False | Some s \<Rightarrow> bounded_identifier s)
      in
      if \<not> in_active claims
         \<or> in_iss claims \<noteq> Some (pol_issuer policy)
         \<or> in_aud claims \<noteq> Some (pol_audience policy)
         \<or> in_azp claims \<noteq> Some (pol_authorized_client policy)
         \<or> in_provider_tenant claims \<noteq> Some (pol_provider_tenant policy)
         \<or> tenant_id \<noteq> Some (pol_product_tenant policy)
         \<or> application_id \<noteq> Some (pol_authorized_client policy)
         \<or> actor_kind \<noteq> Some (rs ''user'')
         \<or> \<not> has_scope lib claims required_scope
         \<or> (case in_exp claims of None \<Rightarrow> True | Some expiry \<Rightarrow> expiry \<le> now)
         \<or> (case in_nbf claims of None \<Rightarrow> True | Some not_before \<Rightarrow> not_before > now)
         \<or> subject = None
         \<or> \<not> session_present
      then Err Auth_Unauthorized
      else Ok \<lparr>va_subject = the subject, va_product_tenant = pol_product_tenant policy\<rparr>)"

fun auth_of_client_error :: "client_error \<Rightarrow> auth_error" where
  "auth_of_client_error Client_Unauthorized = Auth_Unauthorized"
| "auth_of_client_error (Client_InvalidInput _) = Auth_Unauthorized"
| "auth_of_client_error Client_Other = Auth_Degraded"

definition verify_token ::
  "'x auth_lib_scheme \<Rightarrow> auth_boundary \<Rightarrow> system_time \<Rightarrow> rstring \<Rightarrow> rstring
     \<Rightarrow> (verified_actor, auth_error) result" where
  "verify_token lib ab clock token required_scope =
     (if \<not> strict_credential token \<or> \<not> bounded_identifier required_scope
      then Err Auth_Unauthorized
      else
        and_then
          (map_err auth_of_client_error
             (introspect_with_requirements lib clock (ab_client ab) token
                (pol_audience (ab_policy ab)) [required_scope]))
          (\<lambda>claims. and_then (unix_seconds clock) (\<lambda>now.
             authorize_introspection lib claims (ab_policy ab) required_scope now)))"

definition verify_authorization ::
  "'x auth_lib_scheme \<Rightarrow> auth_boundary \<Rightarrow> system_time \<Rightarrow> header_map \<Rightarrow> rstring
     \<Rightarrow> (verified_actor, auth_error) result" where
  "verify_authorization lib ab clock headers required_scope =
     and_then (bearer_from_headers lib headers) (\<lambda>token.
       verify_token lib ab clock token required_scope)"

definition auth_from_env ::
  "'x auth_lib_scheme \<Rightarrow> (rstring \<Rightarrow> rstring option) \<Rightarrow> (auth_boundary, auth_error) result" where
  "auth_from_env lib var =
     and_then (required_env var ''SHARED_AUTH_BASE_URL'') (\<lambda>base.
     and_then (required_env var ''SHARED_AUTH_SERVICE_CREDENTIAL'') (\<lambda>service_credential.
     if \<not> strict_credential service_credential then Err Auth_Configuration
     else
     and_then (required_env var ''SHARED_AUTH_ISSUER'') (\<lambda>issuer.
     and_then (required_env var ''EAL_AUTH_AUDIENCE'') (\<lambda>audience.
     and_then (required_env var ''EAL_AUTHORIZED_CLIENT'') (\<lambda>authorized_client.
     and_then (required_env var ''EAL_PROVIDER_TENANT'') (\<lambda>provider_tenant.
     and_then (required_env var ''EAL_PRODUCT_TENANT'') (\<lambda>product_tenant.
     let policy = \<lparr>pol_issuer = issuer, pol_audience = audience,
                   pol_authorized_client = authorized_client,
                   pol_provider_tenant = provider_tenant, pol_product_tenant = product_tenant\<rparr> in
     if \<not> bounded_identifier audience \<or> \<not> bounded_identifier authorized_client
        \<or> \<not> bounded_identifier provider_tenant \<or> \<not> bounded_identifier product_tenant
     then Err Auth_Configuration
     else
     and_then (ok_or Auth_Configuration (client_try_new lib base)) (\<lambda>client.
     Ok \<lparr>ab_client = client\<lparr>sac_service_credential := Some service_credential,
                             sac_max_response_bytes := Some (64 * 1024)\<rparr>,
         ab_policy = policy\<rparr>))))))))"

section \<open>Facts about the checks\<close>

interpretation ident: ascii_token bounded_identifier 128
  by unfold_locales (auto simp: bounded_identifier_def is_ascii_alphanumeric_def)

lemma bounded_identifier_scopes: "bounded_identifier READ_SCOPE" "bounded_identifier WRITE_SCOPE"
  by (simp_all add: bounded_identifier_def READ_SCOPE_def WRITE_SCOPE_def is_ascii_alphanumeric_def)

lemma strict_credential_iff:
  "strict_credential s \<longleftrightarrow>
     16 \<le> rlen s \<and> rlen s \<le> 16384 \<and> (\<forall>c \<in> set s. \<not> is_whitespace c \<and> \<not> is_control c)"
  by (auto simp: strict_credential_def MAX_CREDENTIAL_BYTES_def intro: trim_no_whitespace)

lemma claim_string_eq_Some:
  "claim_string c k = Some s \<longleftrightarrow> in_rest c (rs k) = Some (JString s) \<and> bounded_identifier s"
  by (auto simp: claim_string_def Option.bind_eq_Some_conv)

lemma authorize_introspection_Ok_iff:
  "authorize_introspection lib c p scope now = Inr a \<longleftrightarrow>
     in_active c \<and> in_iss c = Some (pol_issuer p) \<and> in_aud c = Some (pol_audience p) \<and>
     in_azp c = Some (pol_authorized_client p) \<and>
     in_provider_tenant c = Some (pol_provider_tenant p) \<and>
     claim_string c ''tenant_id'' = Some (pol_product_tenant p) \<and>
     claim_string c ''application_id'' = Some (pol_authorized_client p) \<and>
     claim_string c ''actor_kind'' = Some (rs ''user'') \<and> has_scope lib c scope \<and>
     (\<exists>expiry not_before. in_exp c = Some expiry \<and> in_nbf c = Some not_before \<and>
        not_before \<le> now \<and> now < expiry) \<and>
     (\<exists>sid. in_sid c = Some sid \<and> bounded_identifier sid) \<and>
     Option.bind (in_sub c) (uuid_parse_str lib) = Some (va_subject a) \<and>
     va_product_tenant a = pol_product_tenant p"
  unfolding authorize_introspection_def Let_def
  by (cases a) (auto simp: not_le not_less split: option.splits if_splits)

lemma authorize_introspection_Err:
  "authorize_introspection lib c p scope now = Inl e \<Longrightarrow> e = Auth_Unauthorized"
  by (auto simp: authorize_introspection_def Let_def split: if_splits)

lemma bearer_from_headers_Ok_iff:
  "bearer_from_headers lib hs = Inr t \<longleftrightarrow>
     (\<exists>v. map snd (filter (\<lambda>h. fst h = rs ''authorization'') hs) = [v] \<and>
        header_to_str lib v = Some (rs ''Bearer '' @ t) \<and> strict_credential t)"
  unfolding bearer_from_headers_def by (auto split: list.splits simp del: rs_simps)

lemma bearer_from_headers_Err:
  "bearer_from_headers lib hs = Inl e \<Longrightarrow> e = Auth_Unauthorized"
  unfolding bearer_from_headers_def
  by (auto simp: and_then_eq_Inl simp del: rs_simps split: list.splits if_splits)

lemma verify_token_Ok_iff:
  "verify_token lib ab clock t scope = Inr a \<longleftrightarrow>
     strict_credential t \<and> bounded_identifier scope \<and>
     (\<exists>c now. introspect_with_requirements lib clock (ab_client ab) t (pol_audience (ab_policy ab)) [scope] = Inr c \<and>
        unix_seconds clock = Inr now \<and>
        authorize_introspection lib c (ab_policy ab) scope now = Inr a)"
  by (auto simp: verify_token_def)

lemma verify_token_tenant:
  "verify_token lib ab clock t scope = Inr a \<Longrightarrow> va_product_tenant a = pol_product_tenant (ab_policy ab)"
  by (auto simp: verify_token_Ok_iff authorize_introspection_Ok_iff)

lemma verify_authorization_Ok_iff:
  "verify_authorization lib ab clock hs scope = Inr a \<longleftrightarrow>
     (\<exists>t. bearer_from_headers lib hs = Inr t \<and> verify_token lib ab clock t scope = Inr a)"
  by (simp add: verify_authorization_def)

lemma auth_of_client_error_cases:
  "auth_of_client_error e = Auth_Unauthorized \<or> auth_of_client_error e = Auth_Degraded"
  by (cases e) simp_all

lemma verify_token_Err:
  "verify_token lib ab clock t scope = Inl e \<Longrightarrow> e = Auth_Unauthorized \<or> e = Auth_Degraded"
  using auth_of_client_error_cases
  by (auto simp: verify_token_def and_then_eq_Inl map_err_eq_Inl unix_seconds_def
      dest: authorize_introspection_Err split: if_splits option.splits)

lemma verify_authorization_Err:
  "verify_authorization lib ab clock hs scope = Inl e \<Longrightarrow> e = Auth_Unauthorized \<or> e = Auth_Degraded"
  by (auto simp: verify_authorization_def and_then_eq_Inl
      dest: bearer_from_headers_Err verify_token_Err)

lemma required_env_Ok:
  "required_env var n = Inr v \<Longrightarrow> v \<noteq> [] \<and> trim v = v \<and> (\<exists>raw. var (rs n) = Some raw \<and> v = trim raw)"
  by (auto simp: required_env_def)

section \<open>Properties\<close>

text \<open>Claims, policy and library of the contract test \<open>tests/four_mode_contract.rs\<close>.\<close>

definition sample_policy :: auth_policy where
  "sample_policy =
     \<lparr>pol_issuer = rs ''https://auth.oresoftware.dev/customer'',
      pol_audience = rs ''embedded-alerts-api'', pol_authorized_client = rs ''embedded-alerts-web'',
      pol_provider_tenant = rs ''embedded-alerts-provider'', pol_product_tenant = rs ''embedded-alerts''\<rparr>"

definition sample_claims :: introspection where
  "sample_claims =
     \<lparr>in_active = True, in_sub = Some (uuid_to_string_ref 1), in_sid = Some (rs ''session-2''),
      in_iss = Some (rs ''https://auth.oresoftware.dev/customer''),
      in_aud = Some (rs ''embedded-alerts-api''), in_azp = Some (rs ''embedded-alerts-web''),
      in_scope = Some READ_SCOPE, in_provider_tenant = Some (rs ''embedded-alerts-provider''),
      in_exp = Some 4000000000, in_nbf = Some 1,
      in_rest = [rs ''tenant_id'' \<mapsto> JString (rs ''embedded-alerts''),
                 rs ''application_id'' \<mapsto> JString (rs ''embedded-alerts-web''),
                 rs ''actor_kind'' \<mapsto> JString (rs ''user'')]\<rparr>"

definition sample_auth_lib :: auth_lib where
  "sample_auth_lib =
     \<lparr>uuid_parse_str = uuid_parse_str_ref, uuid_to_string = uuid_to_string_ref,
      header_to_str = Some, has_scope = (\<lambda>c s. in_scope c = Some s),
      client_try_new = (\<lambda>b. Some \<lparr>sac_base = b, sac_service_credential = None,
                                   sac_max_response_bytes = None\<rparr>),
      introspect_with_requirements = (\<lambda>_ _ _ _ _. Inr sample_claims)\<rparr>"

definition sample_boundary :: auth_boundary where
  "sample_boundary =
     \<lparr>ab_client = \<lparr>sac_base = rs ''https://auth'', sac_service_credential = Some (rs ''svc''),
                   sac_max_response_bytes = Some 65536\<rparr>,
      ab_policy = sample_policy\<rparr>"

definition sample_headers :: header_map where
  "sample_headers = [(rs ''accept'', rs ''*/*''), (rs ''authorization'', rs ''Bearer valid-token-value'')]"

definition sample_actor :: verified_actor where
  "sample_actor = \<lparr>va_subject = 1, va_product_tenant = rs ''embedded-alerts''\<rparr>"

text \<open>Two seconds past two thousand million, in nanoseconds.\<close>

definition sample_clock :: system_time where
  "sample_clock = 2000000002000000000"

text \<open>Every library that agrees with the sample on the functions used here behaves alike.\<close>

definition auth_sample :: "'x auth_lib_scheme \<Rightarrow> bool" where
  "auth_sample lib \<longleftrightarrow>
     uuid_parse_str lib = uuid_parse_str_ref \<and> uuid_to_string lib = uuid_to_string_ref \<and>
     header_to_str lib = Some \<and> has_scope lib = (\<lambda>c s. in_scope c = Some s) \<and>
     introspect_with_requirements lib = (\<lambda>_ _ _ _ _. Inr sample_claims)"

lemma auth_sample_lib: "auth_sample sample_auth_lib"
  by (simp add: auth_sample_def sample_auth_lib_def)

lemma auth_sample_laws: "auth_sample lib \<Longrightarrow> uuid_laws lib"
  by (rule uuid_laws_ref) (simp_all add: auth_sample_def)

lemma sample_authorized:
  "auth_sample lib \<Longrightarrow>
     authorize_introspection lib sample_claims sample_policy READ_SCOPE 2000000002 = Inr sample_actor"
  unfolding authorize_introspection_Ok_iff claim_string_eq_Some
  by (simp add: sample_claims_def sample_policy_def auth_sample_def sample_actor_def
      uuid_parse_str_ref_inverse bounded_identifier_def is_ascii_alphanumeric_def)

lemma sample_bearer:
  "auth_sample lib \<Longrightarrow> bearer_from_headers lib sample_headers = Inr (rs ''valid-token-value'')"
  unfolding bearer_from_headers_Ok_iff strict_credential_iff
  by (simp add: auth_sample_def sample_headers_def is_whitespace_def is_control_def)

lemma sample_token_verified:
  assumes "auth_sample lib"
  shows "verify_token lib sample_boundary sample_clock (rs ''valid-token-value'') READ_SCOPE = Inr sample_actor"
proof -
  have "strict_credential (rs ''valid-token-value'')"
    using sample_bearer [OF assms] bearer_from_headers_Ok_iff by blast
  moreover have "unix_seconds sample_clock = Inr 2000000002"
    by (simp add: unix_seconds_def duration_since_epoch_def sample_clock_def nat_div_distrib)
  moreover have "introspect_with_requirements lib m c t a sc = Inr sample_claims" for m c t a sc
    using assms by (simp add: auth_sample_def)
  ultimately show ?thesis
    unfolding verify_token_Ok_iff
    using sample_authorized [OF assms] bounded_identifier_scopes
    by (auto simp: sample_boundary_def)
qed

lemma sample_verified:
  "auth_sample lib \<Longrightarrow>
     verify_authorization lib sample_boundary sample_clock sample_headers READ_SCOPE = Inr sample_actor"
  unfolding verify_authorization_Ok_iff using sample_bearer sample_token_verified by blast

text \<open>
  C2. What an accepted request proves: exactly one \<open>Authorization\<close> header, of the form
  \<open>Bearer t\<close> with a strict credential \<open>t\<close>; the authority introspected \<open>t\<close> for the configured
  audience and the route's scope; the claims are active, carry the policy's issuer, audience,
  client and provider tenant, name the policy's product tenant, a user and a session, and the
  clock is inside their validity window; the actor is the claims' subject in the policy's tenant.
\<close>

theorem accepted_request_is_authenticated:
  assumes "verify_authorization lib ab clock headers scope = Ok actor"
  shows "\<exists>value t c now expiry not_before.
     map snd (filter (\<lambda>h. fst h = rs ''authorization'') headers) = [value] \<and>
     header_to_str lib value = Some (rs ''Bearer '' @ t) \<and>
     16 \<le> rlen t \<and> rlen t \<le> 16384 \<and> (\<forall>x \<in> set t. \<not> is_whitespace x \<and> \<not> is_control x) \<and>
     introspect_with_requirements lib clock (ab_client ab) t (pol_audience (ab_policy ab)) [scope] = Ok c \<and>
     unix_seconds clock = Ok now \<and> in_active c \<and> has_scope lib c scope \<and>
     in_iss c = Some (pol_issuer (ab_policy ab)) \<and> in_aud c = Some (pol_audience (ab_policy ab)) \<and>
     in_azp c = Some (pol_authorized_client (ab_policy ab)) \<and>
     in_provider_tenant c = Some (pol_provider_tenant (ab_policy ab)) \<and>
     in_rest c (rs ''tenant_id'') = Some (JString (pol_product_tenant (ab_policy ab))) \<and>
     in_rest c (rs ''application_id'') = Some (JString (pol_authorized_client (ab_policy ab))) \<and>
     in_rest c (rs ''actor_kind'') = Some (JString (rs ''user'')) \<and> in_sid c \<noteq> None \<and>
     in_nbf c = Some not_before \<and> in_exp c = Some expiry \<and> not_before \<le> now \<and> now < expiry \<and>
     Option.bind (in_sub c) (uuid_parse_str lib) = Some (va_subject actor) \<and>
     va_product_tenant actor = pol_product_tenant (ab_policy ab)"
proof -
  from assms obtain t where t: "bearer_from_headers lib headers = Inr t"
    and v: "verify_token lib ab clock t scope = Inr actor"
    by (auto simp: verify_authorization_Ok_iff)
  from v obtain c now where c:
    "introspect_with_requirements lib clock (ab_client ab) t (pol_audience (ab_policy ab)) [scope] = Inr c"
    "unix_seconds clock = Inr now"
    "authorize_introspection lib c (ab_policy ab) scope now = Inr actor"
    by (auto simp: verify_token_Ok_iff)
  from t obtain v where v: "map snd (filter (\<lambda>h. fst h = rs ''authorization'') headers) = [v]"
    "header_to_str lib v = Some (rs ''Bearer '' @ t)" "strict_credential t"
    by (auto simp: bearer_from_headers_Ok_iff simp del: rs_simps)
  from c(3) obtain expiry not_before where
    "in_nbf c = Some not_before" "in_exp c = Some expiry" "not_before \<le> now" "now < expiry"
    by (auto simp: authorize_introspection_Ok_iff)
  with v c show ?thesis
    unfolding authorize_introspection_Ok_iff claim_string_eq_Some strict_credential_iff
    by (intro exI [of _ v] exI [of _ t] exI [of _ c] exI [of _ now] exI [of _ expiry]
        exI [of _ not_before]) (simp del: rs_simps, blast)
qed

theorem accepted_request_is_authenticated_witness:
  "\<exists>c. introspect_with_requirements sample_auth_lib sample_clock (ab_client sample_boundary)
         (rs ''valid-token-value'') (pol_audience (ab_policy sample_boundary)) [READ_SCOPE] = Ok c
     \<and> in_active c \<and> va_product_tenant sample_actor = pol_product_tenant (ab_policy sample_boundary)"
  using accepted_request_is_authenticated [OF sample_verified [OF auth_sample_lib]]
    sample_bearer [OF auth_sample_lib]
  by (auto simp: sample_auth_lib_def sample_claims_def)

text \<open>
  Claims are bound to one policy: claims accepted under a policy are refused, for every scope
  and at every time, under any other policy. A token of another issuer, audience, client, provider
  tenant or product tenant never authorizes.
\<close>

theorem claims_fix_the_policy:
  assumes "authorize_introspection lib c p scope now = Ok a" and "q \<noteq> p"
  shows "authorize_introspection lib c q scope' now' = Err Auth_Unauthorized"
proof (cases "authorize_introspection lib c q scope' now'")
  case (Inl e)
  then show ?thesis by (simp add: authorize_introspection_Err)
next
  case (Inr b)
  with assms show ?thesis
    unfolding authorize_introspection_Ok_iff by (cases p; cases q) auto
qed

theorem claims_fix_the_policy_witness:
  "authorize_introspection sample_auth_lib sample_claims
     (sample_policy\<lparr>pol_product_tenant := rs ''other''\<rparr>) READ_SCOPE 2000000002 = Err Auth_Unauthorized"
proof -
  have "sample_policy\<lparr>pol_product_tenant := rs ''other''\<rparr> \<noteq> sample_policy"
    by (simp add: sample_policy_def)
  then show ?thesis by (rule claims_fix_the_policy [OF sample_authorized [OF auth_sample_lib]])
qed

text \<open>
  The validity window is exact: claims accepted at one time are accepted at another time, as
  the same actor, if and only if that time is not before their \<open>nbf\<close> and before their \<open>exp\<close>.
\<close>

theorem authorization_window:
  assumes "authorize_introspection lib c p scope now = Ok a"
    and "in_nbf c = Some not_before" and "in_exp c = Some expiry"
  shows "authorize_introspection lib c p scope now' =
    (if not_before \<le> now' \<and> now' < expiry then Ok a else Err Auth_Unauthorized)"
proof (cases "not_before \<le> now' \<and> now' < expiry")
  case True
  with assms show ?thesis by (simp add: authorize_introspection_Ok_iff)
next
  case False
  with assms(2,3) have "authorize_introspection lib c p scope now' \<noteq> Inr b" for b
    by (auto simp: authorize_introspection_Ok_iff)
  with False show ?thesis
    by (cases "authorize_introspection lib c p scope now'") (auto dest: authorize_introspection_Err)
qed

theorem authorization_window_witness:
  "authorize_introspection sample_auth_lib sample_claims sample_policy READ_SCOPE 4000000000
     = Err Auth_Unauthorized"
  using authorization_window [OF sample_authorized [OF auth_sample_lib], of 1 4000000000 4000000000]
  by (simp add: sample_claims_def)

text \<open>
  Loading the boundary from the configuration: it succeeds only with a complete
  configuration, and then every policy field is trimmed and not empty, the audience, client and
  tenants are bounded identifiers, and the client carries a strict service credential and a
  response limit of 64 KiB.
\<close>

theorem auth_configuration_is_bounded:
  assumes "auth_from_env lib var = Ok ab"
  shows "(\<exists>credential. sac_service_credential (ab_client ab) = Some credential
            \<and> strict_credential credential)
    \<and> sac_max_response_bytes (ab_client ab) = Some 65536
    \<and> pol_issuer (ab_policy ab) \<noteq> [] \<and> trim (pol_issuer (ab_policy ab)) = pol_issuer (ab_policy ab)
    \<and> bounded_identifier (pol_audience (ab_policy ab))
    \<and> bounded_identifier (pol_authorized_client (ab_policy ab))
    \<and> bounded_identifier (pol_provider_tenant (ab_policy ab))
    \<and> bounded_identifier (pol_product_tenant (ab_policy ab))
    \<and> var (rs ''EAL_PRODUCT_TENANT'') \<noteq> None"
  using assms unfolding auth_from_env_def
  by (auto simp: Let_def simp del: rs_simps dest!: required_env_Ok split: if_splits)

definition sample_env :: "rstring \<Rightarrow> rstring option" where
  "sample_env = map_of
     [(rs ''SHARED_AUTH_BASE_URL'', rs ''http://127.0.0.1:8120''),
      (rs ''SHARED_AUTH_SERVICE_CREDENTIAL'', rs ''replace-with-runtime-secret''),
      (rs ''SHARED_AUTH_ISSUER'', rs '' https://auth.oresoftware.dev/customer''),
      (rs ''EAL_AUTH_AUDIENCE'', rs ''embedded-alerts-api''),
      (rs ''EAL_AUTHORIZED_CLIENT'', rs ''embedded-alerts-web''),
      (rs ''EAL_PROVIDER_TENANT'', rs ''embedded-alerts-provider''),
      (rs ''EAL_PRODUCT_TENANT'', rs ''embedded-alerts'')]"

lemma sample_env_loads: "is_ok (auth_from_env sample_auth_lib sample_env)"
  by (simp add: auth_from_env_def required_env_def sample_env_def trim_def is_whitespace_def
      strict_credential_iff is_control_def bounded_identifier_def is_ascii_alphanumeric_def
      sample_auth_lib_def Let_def)

theorem auth_configuration_is_bounded_witness:
  "\<exists>ab. auth_from_env sample_auth_lib sample_env = Ok ab
     \<and> bounded_identifier (pol_product_tenant (ab_policy ab))"
  using auth_configuration_is_bounded [of sample_auth_lib sample_env] sample_env_loads
  by (cases "auth_from_env sample_auth_lib sample_env") auto

end
