(* ===== verification/Database.thy ===== *)
theory Database
  imports Externals "HOL-Library.Product_Lexorder" "HOL-Library.Multiset"
begin

text \<open>
  The PostgreSQL tables of \<open>migrations/0001_four_mode_transport.sql\<close> and the statements the
  server runs on them (the SQL constants of \<open>src/src/store.rs\<close> and \<open>src/src/transport.rs\<close>).
  A table is the list of its rows in insertion order; a statement returns \<open>None\<close> when a
  constraint raises an error, and otherwise the number of affected rows and the new tables.
  The lemmas show that every statement keeps the tables' constraints.
\<close>

section \<open>Tables\<close>

record alert_row =
  al_id :: uuid
  al_product_tenant :: rstring
  al_owner_subject :: uuid
  al_created_at :: datetime
  al_updated_at :: datetime
  al_name :: rstring
  al_query_text :: rstring
  al_embedding_model :: rstring
  al_similarity_threshold :: f64
  al_source_filters :: json
  al_delivery_channels :: json
  al_enabled :: bool

record inbox_row =
  ib_event_id :: uuid
  ib_correlation_id :: uuid
  ib_dedupe_key :: rstring
  ib_product_tenant :: rstring
  ib_actor_subject :: uuid
  ib_received_at :: datetime

record outbox_row =
  ob_event_id :: uuid
  ob_correlation_id :: uuid
  ob_dedupe_key :: rstring
  ob_subject :: rstring
  ob_payload :: json
  ob_created_at :: datetime
  ob_published_at :: "datetime option"

record status_row =
  st_correlation_id :: uuid
  st_product_tenant :: rstring
  st_actor_subject :: uuid
  st_status :: rstring
  st_updated_at :: datetime

record database =
  db_alert_rules :: "alert_row list"
  db_inbox :: "inbox_row list"
  db_outbox :: "outbox_row list"
  db_status :: "status_row list"

section \<open>Constraints\<close>

text \<open>\<open>length(text)\<close> counts characters.\<close>

definition length_between :: "nat \<Rightarrow> nat \<Rightarrow> rstring \<Rightarrow> bool" where
  "length_between lo hi s \<longleftrightarrow> lo \<le> length s \<and> length s \<le> hi"

definition is_json_array :: "json \<Rightarrow> bool" where
  "is_json_array j \<longleftrightarrow> (case j of JArray _ \<Rightarrow> True | _ \<Rightarrow> False)"

definition alert_check :: "alert_row \<Rightarrow> bool" where
  "alert_check r \<longleftrightarrow>
     length_between 1 64 (al_product_tenant r) \<and> length_between 1 160 (al_name r) \<and>
     length_between 1 8192 (al_query_text r) \<and> length_between 1 128 (al_embedding_model r) \<and>
     f64_le f64_zero (al_similarity_threshold r) \<and> f64_le (al_similarity_threshold r) f64_one \<and>
     is_json_array (al_source_filters r) \<and> is_json_array (al_delivery_channels r)"

definition inbox_check :: "inbox_row \<Rightarrow> bool" where
  "inbox_check r \<longleftrightarrow> length_between 1 128 (ib_dedupe_key r) \<and> length_between 1 64 (ib_product_tenant r)"

definition outbox_check :: "outbox_row \<Rightarrow> bool" where
  "outbox_check r \<longleftrightarrow> length_between 1 134 (ob_dedupe_key r) \<and> length_between 1 256 (ob_subject r)"

definition status_check :: "status_row \<Rightarrow> bool" where
  "status_check r \<longleftrightarrow>
     length_between 1 64 (st_product_tenant r) \<and> st_status r \<in> {rs ''completed'', rs ''rejected''}"

section \<open>Statements\<close>

definition insert_alert :: "alert_row \<Rightarrow> database \<Rightarrow> (nat \<times> database) option" where
  "insert_alert r db =
     (if alert_check r \<and> al_id r \<notin> al_id ` set (db_alert_rules db)
      then Some (1, db\<lparr>db_alert_rules := db_alert_rules db @ [r]\<rparr>) else None)"

definition direct_alerts :: "rstring \<Rightarrow> uuid \<Rightarrow> database \<Rightarrow> alert_row list" where
  "direct_alerts tenant owner db =
     take 100 (sort_key (\<lambda>r. (- al_updated_at r, al_id r))
       (filter (\<lambda>r. al_product_tenant r = tenant \<and> al_owner_subject r = owner) (db_alert_rules db)))"

definition inbox_conflict :: "inbox_row \<Rightarrow> database \<Rightarrow> bool" where
  "inbox_conflict r db \<longleftrightarrow>
     ib_event_id r \<in> ib_event_id ` set (db_inbox db)
     \<or> ib_correlation_id r \<in> ib_correlation_id ` set (db_inbox db)
     \<or> ib_dedupe_key r \<in> ib_dedupe_key ` set (db_inbox db)"

definition insert_inbox :: "inbox_row \<Rightarrow> database \<Rightarrow> (nat \<times> database) option" where
  "insert_inbox r db =
     (if \<not> inbox_check r then None
      else if inbox_conflict r db then Some (0, db)
      else Some (1, db\<lparr>db_inbox := db_inbox db @ [r]\<rparr>))"

definition insert_outbox :: "outbox_row \<Rightarrow> database \<Rightarrow> (nat \<times> database) option" where
  "insert_outbox r db =
     (if \<not> outbox_check r then None
      else if ob_dedupe_key r \<in> ob_dedupe_key ` set (db_outbox db) then Some (0, db)
      else if ob_event_id r \<in> ob_event_id ` set (db_outbox db) then None
      else Some (1, db\<lparr>db_outbox := db_outbox db @ [r]\<rparr>))"

definition upsert_status :: "status_row \<Rightarrow> database \<Rightarrow> (nat \<times> database) option" where
  "upsert_status r db =
     (if \<not> status_check r then None
      else if st_correlation_id r \<in> st_correlation_id ` set (db_status db)
      then Some (1, db\<lparr>db_status :=
             map (\<lambda>q. if st_correlation_id q = st_correlation_id r
                      then q\<lparr>st_status := st_status r, st_updated_at := st_updated_at r\<rparr> else q)
               (db_status db)\<rparr>)
      else Some (1, db\<lparr>db_status := db_status db @ [r]\<rparr>))"

definition select_outbox :: "database \<Rightarrow> outbox_row list" where
  "select_outbox db =
     take 50 (sort_key (\<lambda>r. (ob_created_at r, ob_event_id r))
       (filter (\<lambda>r. ob_published_at r = None) (db_outbox db)))"

definition mark_outbox :: "uuid \<Rightarrow> datetime \<Rightarrow> database \<Rightarrow> database" where
  "mark_outbox i now db =
     db\<lparr>db_outbox :=
       map (\<lambda>r. if ob_event_id r = i \<and> ob_published_at r = None
                then r\<lparr>ob_published_at := Some now\<rparr> else r) (db_outbox db)\<rparr>"

lemmas statement_defs [sql_simps] = insert_alert_def insert_inbox_def insert_outbox_def inbox_conflict_def

section \<open>Result rows\<close>

text \<open>
  A \<open>QueryResult\<close> row maps column names to typed values; \<open>try_get\<close> fails on a missing column or
  on a value of another type.
\<close>

datatype sql_value =
    SUuid uuid | SText rstring | STimestamp datetime | SFloat8 f64 | SJson json | SBool bool

type_synonym query_row = "string \<rightharpoonup> sql_value"

definition get_uuid :: "query_row \<Rightarrow> string \<Rightarrow> uuid option" where
  "get_uuid row col = (case row col of Some (SUuid x) \<Rightarrow> Some x | _ \<Rightarrow> None)"

definition get_text :: "query_row \<Rightarrow> string \<Rightarrow> rstring option" where
  "get_text row col = (case row col of Some (SText x) \<Rightarrow> Some x | _ \<Rightarrow> None)"

definition get_timestamp :: "query_row \<Rightarrow> string \<Rightarrow> datetime option" where
  "get_timestamp row col = (case row col of Some (STimestamp x) \<Rightarrow> Some x | _ \<Rightarrow> None)"

definition get_float8 :: "query_row \<Rightarrow> string \<Rightarrow> f64 option" where
  "get_float8 row col = (case row col of Some (SFloat8 x) \<Rightarrow> Some x | _ \<Rightarrow> None)"

definition get_json :: "query_row \<Rightarrow> string \<Rightarrow> json option" where
  "get_json row col = (case row col of Some (SJson x) \<Rightarrow> Some x | _ \<Rightarrow> None)"

definition get_bool :: "query_row \<Rightarrow> string \<Rightarrow> bool option" where
  "get_bool row col = (case row col of Some (SBool x) \<Rightarrow> Some x | _ \<Rightarrow> None)"

lemmas try_get_defs =
  get_uuid_def get_text_def get_timestamp_def get_float8_def get_json_def get_bool_def

definition alert_columns :: "alert_row \<Rightarrow> query_row" where
  "alert_columns r =
     [''id'' \<mapsto> SUuid (al_id r), ''created_at'' \<mapsto> STimestamp (al_created_at r),
      ''updated_at'' \<mapsto> STimestamp (al_updated_at r), ''name'' \<mapsto> SText (al_name r),
      ''query_text'' \<mapsto> SText (al_query_text r), ''embedding_model'' \<mapsto> SText (al_embedding_model r),
      ''similarity_threshold'' \<mapsto> SFloat8 (al_similarity_threshold r),
      ''source_filters'' \<mapsto> SJson (al_source_filters r),
      ''delivery_channels'' \<mapsto> SJson (al_delivery_channels r), ''enabled'' \<mapsto> SBool (al_enabled r)]"

definition outbox_columns :: "outbox_row \<Rightarrow> query_row" where
  "outbox_columns r =
     [''event_id'' \<mapsto> SUuid (ob_event_id r), ''correlation_id'' \<mapsto> SUuid (ob_correlation_id r),
      ''dedupe_key'' \<mapsto> SText (ob_dedupe_key r), ''subject'' \<mapsto> SText (ob_subject r),
      ''payload'' \<mapsto> SJson (ob_payload r)]"

section \<open>The constraints hold in every reachable database\<close>

definition db_wf :: "database \<Rightarrow> bool" where
  "db_wf db \<longleftrightarrow>
     distinct (map al_id (db_alert_rules db)) \<and> (\<forall>r \<in> set (db_alert_rules db). alert_check r) \<and>
     distinct (map ib_event_id (db_inbox db)) \<and> distinct (map ib_correlation_id (db_inbox db)) \<and>
     distinct (map ib_dedupe_key (db_inbox db)) \<and> (\<forall>r \<in> set (db_inbox db). inbox_check r) \<and>
     distinct (map ob_event_id (db_outbox db)) \<and> distinct (map ob_dedupe_key (db_outbox db)) \<and>
     (\<forall>r \<in> set (db_outbox db). outbox_check r) \<and>
     distinct (map st_correlation_id (db_status db)) \<and> (\<forall>r \<in> set (db_status db). status_check r)"

definition empty_database :: database where
  "empty_database = \<lparr>db_alert_rules = [], db_inbox = [], db_outbox = [], db_status = []\<rparr>"

lemma db_wf_empty: "db_wf empty_database"
  by (simp add: db_wf_def empty_database_def)

lemma insert_alert_wf: "db_wf db \<Longrightarrow> insert_alert r db = Some (n, db') \<Longrightarrow> db_wf db'"
  by (auto simp: sql_simps db_wf_def split: if_splits)

lemma insert_inbox_wf: "db_wf db \<Longrightarrow> insert_inbox r db = Some (n, db') \<Longrightarrow> db_wf db'"
  by (auto simp: sql_simps db_wf_def split: if_splits)

lemma insert_outbox_wf: "db_wf db \<Longrightarrow> insert_outbox r db = Some (n, db') \<Longrightarrow> db_wf db'"
  by (auto simp: sql_simps db_wf_def split: if_splits)

lemma upsert_status_wf: "db_wf db \<Longrightarrow> upsert_status r db = Some (n, db') \<Longrightarrow> db_wf db'"
proof -
  assume wf: "db_wf db" and u: "upsert_status r db = Some (n, db')"
  show ?thesis
  proof (cases "st_correlation_id r \<in> st_correlation_id ` set (db_status db)")
    case True
    let ?f = "\<lambda>q. if st_correlation_id q = st_correlation_id r
                then q\<lparr>st_status := st_status r, st_updated_at := st_updated_at r\<rparr> else q"
    from True u have db': "db' = db\<lparr>db_status := map ?f (db_status db)\<rparr>" and "status_check r"
      by (auto simp: upsert_status_def split: if_splits)
    have "map st_correlation_id (map ?f (db_status db)) = map st_correlation_id (db_status db)"
      by simp
    moreover have "\<forall>q \<in> set (map ?f (db_status db)). status_check q"
      using wf \<open>status_check r\<close> by (auto simp: db_wf_def status_check_def)
    ultimately show ?thesis using wf unfolding db' db_wf_def by (simp del: map_map)
  next
    case False
    with wf u show ?thesis by (auto simp: upsert_status_def db_wf_def split: if_splits)
  qed
qed

lemma mark_outbox_wf: "db_wf db \<Longrightarrow> db_wf (mark_outbox i now db)"
proof -
  assume wf: "db_wf db"
  let ?f = "\<lambda>r. if ob_event_id r = i \<and> ob_published_at r = None
              then r\<lparr>ob_published_at := Some now\<rparr> else r"
  have "map ob_event_id (map ?f (db_outbox db)) = map ob_event_id (db_outbox db)"
    "map ob_dedupe_key (map ?f (db_outbox db)) = map ob_dedupe_key (db_outbox db)"
    by simp_all
  moreover have "\<forall>q \<in> set (map ?f (db_outbox db)). outbox_check q"
    using wf by (auto simp: db_wf_def outbox_check_def)
  ultimately show ?thesis using wf unfolding db_wf_def mark_outbox_def by (simp del: map_map)
qed

lemmas db_wf_statements = insert_alert_wf insert_inbox_wf insert_outbox_wf upsert_status_wf mark_outbox_wf

section \<open>Selections\<close>

lemma direct_alerts_subset:
  "r \<in> set (direct_alerts tenant owner db) \<Longrightarrow>
     r \<in> set (db_alert_rules db) \<and> al_product_tenant r = tenant \<and> al_owner_subject r = owner"
  by (auto simp: direct_alerts_def dest: in_set_takeD)

lemma direct_alerts_length: "length (direct_alerts tenant owner db) \<le> 100"
  by (simp add: direct_alerts_def)

lemma direct_alerts_complete:
  assumes "length (filter (\<lambda>r. al_product_tenant r = tenant \<and> al_owner_subject r = owner) (db_alert_rules db)) \<le> 100"
  shows "set (direct_alerts tenant owner db) =
    {r \<in> set (db_alert_rules db). al_product_tenant r = tenant \<and> al_owner_subject r = owner}"
  using assms by (simp add: direct_alerts_def)

lemma distinct_map_sort_key: "distinct (map f (sort_key g xs)) \<longleftrightarrow> distinct (map f xs)"
proof -
  have "mset (map f (sort_key g xs)) = mset (map f xs)" by (simp add: multiset.map_comp)
  then show ?thesis by (metis mset_eq_imp_distinct_iff)
qed

lemma direct_alerts_distinct:
  "distinct (map al_id (db_alert_rules db)) \<Longrightarrow> distinct (map al_id (direct_alerts tenant owner db))"
  by (simp add: direct_alerts_def take_map [symmetric] distinct_map_sort_key distinct_map_filter_fst distinct_take)

lemma select_outbox_pending: "r \<in> set (select_outbox db) \<Longrightarrow> r \<in> set (db_outbox db) \<and> ob_published_at r = None"
  by (auto simp: select_outbox_def dest: in_set_takeD)

lemma select_outbox_Nil: "select_outbox db = [] \<longleftrightarrow> (\<forall>r \<in> set (db_outbox db). ob_published_at r \<noteq> None)"
proof -
  have "sort_key f xs = [] \<longleftrightarrow> xs = []" for f :: "outbox_row \<Rightarrow> datetime \<times> uuid" and xs
    by (metis length_0_conv length_sort)
  then show ?thesis by (simp add: select_outbox_def filter_empty_conv)
qed

end
