(* ===== verification/Store.thy ===== *)
theory Store
  imports Alert_Model Auth Database
begin

text \<open>
  The alert store of \<open>src/src/store.rs\<close>: the PostgreSQL backend, the in-memory fallback and the
  dispatch between them. The interface \<open>scoped_store\<close> states what both backends promise their
  clients: alerts belong to one tenant and subject, creating one changes nobody else's view, and
  a failed creation either changes nothing or, when only its answer was lost, took effect.
\<close>

section \<open>Data\<close>

datatype store_error = Store_Unavailable | Store_InvalidRecord

type_synonym alert_key = "rstring \<times> uuid \<times> uuid"

record alert_store =
  as_database :: "database option"
  as_fallback :: "(alert_key \<times> alert_rule) list"

text \<open>
  Library functions: \<open>serde_json::to_string\<close> of a list of strings, the cast of its text to
  \<open>jsonb\<close>, \<open>serde_json::from_value\<close> to such a list, and the timestamp that is stored for a bound
  \<open>DateTime\<close>.
\<close>

record store_lib = auth_lib +
  json_of_strings :: "rstring list \<Rightarrow> rstring option"
  jsonb_in :: "rstring \<Rightarrow> json option"
  strings_from_value :: "json \<Rightarrow> rstring list option"
  timestamptz_in :: "datetime \<Rightarrow> datetime"

text \<open>A list of strings without the character NUL survives the way through a \<open>jsonb\<close> column.\<close>

definition store_laws :: "'x store_lib_scheme \<Rightarrow> bool" where
  "store_laws lib \<longleftrightarrow>
     (\<forall>xs. (\<forall>x \<in> set xs. 0 \<notin> set x) \<longrightarrow>
        (\<exists>t j. json_of_strings lib xs = Some t \<and> jsonb_in lib t = Some j
           \<and> is_json_array j \<and> strings_from_value lib j = Some xs))"

text \<open>
  What one call takes from its environment: whether the database answers, whether the answer to an
  insertion that was applied is lost, the iteration order of the hash map, a fresh identifier
  (\<open>Uuid::new_v4\<close>) and the current time (\<open>Utc::now\<close>).
\<close>

record store_env =
  se_db_up :: bool
  se_answer_lost :: bool
  se_order :: "(alert_key \<times> alert_rule) list \<Rightarrow> (alert_key \<times> alert_rule) list"
  se_new_id :: uuid
  se_now :: datetime

definition env_ok :: "store_env \<Rightarrow> bool" where
  "env_ok env \<longleftrightarrow> (\<forall>m. set (se_order env m) = set m \<and> (distinct m \<longrightarrow> distinct (se_order env m)))"

section \<open>Operations\<close>

definition new_store :: "database option \<Rightarrow> alert_store" where
  "new_store db = \<lparr>as_database = db, as_fallback = []\<rparr>"

definition database_configured :: "alert_store \<Rightarrow> bool" where
  "database_configured st \<longleftrightarrow> as_database st \<noteq> None"

definition decode_alert :: "'x store_lib_scheme \<Rightarrow> query_row \<Rightarrow> (alert_rule, store_error) result" where
  "decode_alert lib row =
     and_then (ok_or Store_InvalidRecord (get_uuid row ''id'')) (\<lambda>i.
     and_then (ok_or Store_InvalidRecord (get_json row ''source_filters'')) (\<lambda>source_filters.
     and_then (ok_or Store_InvalidRecord (get_json row ''delivery_channels'')) (\<lambda>delivery_channels.
     and_then (ok_or Store_InvalidRecord (get_timestamp row ''created_at'')) (\<lambda>created_at.
     and_then (ok_or Store_InvalidRecord (get_timestamp row ''updated_at'')) (\<lambda>updated_at.
     and_then (ok_or Store_InvalidRecord (get_text row ''name'')) (\<lambda>name.
     and_then (ok_or Store_InvalidRecord (get_text row ''query_text'')) (\<lambda>query_text.
     and_then (ok_or Store_InvalidRecord (get_text row ''embedding_model'')) (\<lambda>embedding_model.
     and_then (ok_or Store_InvalidRecord (get_float8 row ''similarity_threshold'')) (\<lambda>threshold.
     and_then (ok_or Store_InvalidRecord (strings_from_value lib source_filters)) (\<lambda>filters.
     and_then (ok_or Store_InvalidRecord (strings_from_value lib delivery_channels)) (\<lambda>channels.
     and_then (ok_or Store_InvalidRecord (get_bool row ''enabled'')) (\<lambda>enabled.
     Ok \<lparr>ar_id = i, ar_created_at = created_at, ar_updated_at = updated_at, ar_name = name,
         ar_query_text = query_text, ar_embedding_model = embedding_model,
         ar_similarity_threshold = as_f32 threshold, ar_source_filters = filters,
         ar_delivery_channels = channels, ar_enabled = enabled\<rparr>))))))))))))"

definition read_alerts ::
  "'x store_lib_scheme \<Rightarrow> bool \<Rightarrow> database \<Rightarrow> verified_actor \<Rightarrow> (alert_rule list, store_error) result" where
  "read_alerts lib up db actor =
     (if \<not> up then Err Store_Unavailable
      else collect_results (map (\<lambda>r. decode_alert lib (alert_columns r))
             (direct_alerts (va_product_tenant actor) (va_subject actor) db)))"

definition fallback_list :: "store_env \<Rightarrow> (alert_key \<times> alert_rule) list \<Rightarrow> verified_actor \<Rightarrow> alert_rule list" where
  "fallback_list env m actor =
     map snd (filter (\<lambda>((tenant, owner, _), _). tenant = va_product_tenant actor \<and> owner = va_subject actor)
       (se_order env m))"

definition store_list ::
  "'x store_lib_scheme \<Rightarrow> store_env \<Rightarrow> alert_store \<Rightarrow> verified_actor \<Rightarrow> (alert_rule list, store_error) result" where
  "store_list lib env st actor =
     (case as_database st of
        Some db \<Rightarrow> read_alerts lib (se_db_up env) db actor
      | None \<Rightarrow> Ok (fallback_list env (as_fallback st) actor))"

definition store_get ::
  "'x store_lib_scheme \<Rightarrow> store_env \<Rightarrow> alert_store \<Rightarrow> verified_actor \<Rightarrow> uuid
     \<Rightarrow> (alert_rule option, store_error) result" where
  "store_get lib env st actor i =
     (if database_configured st
      then and_then (store_list lib env st actor) (\<lambda>alerts. Ok (find (\<lambda>a. ar_id a = i) alerts))
      else Ok (map_of (as_fallback st) (va_product_tenant actor, va_subject actor, i)))"

text \<open>The values bound to \<open>INSERT_ALERT_SQL\<close>.\<close>

definition alert_values :: "'x store_lib_scheme \<Rightarrow> verified_actor \<Rightarrow> alert_rule \<Rightarrow> json \<Rightarrow> json \<Rightarrow> alert_row" where
  "alert_values lib actor a source_filters delivery_channels =
     \<lparr>al_id = ar_id a, al_product_tenant = va_product_tenant actor, al_owner_subject = va_subject actor,
      al_created_at = timestamptz_in lib (ar_created_at a),
      al_updated_at = timestamptz_in lib (ar_updated_at a),
      al_name = ar_name a, al_query_text = ar_query_text a, al_embedding_model = ar_embedding_model a,
      al_similarity_threshold = f64_from (ar_similarity_threshold a),
      al_source_filters = source_filters, al_delivery_channels = delivery_channels,
      al_enabled = ar_enabled a\<rparr>"

definition insert_alert_rule ::
  "'x store_lib_scheme \<Rightarrow> bool \<Rightarrow> database \<Rightarrow> verified_actor \<Rightarrow> alert_rule \<Rightarrow> (database, store_error) result" where
  "insert_alert_rule lib up db actor a =
     and_then (ok_or Store_InvalidRecord (json_of_strings lib (ar_source_filters a))) (\<lambda>source_filters.
     and_then (ok_or Store_InvalidRecord (json_of_strings lib (ar_delivery_channels a))) (\<lambda>delivery_channels.
     if \<not> up then Err Store_Unavailable
     else
       ok_or Store_Unavailable
         (Option.bind (jsonb_in lib source_filters) (\<lambda>fs.
          Option.bind (jsonb_in lib delivery_channels) (\<lambda>cs.
          map_option snd (insert_alert (alert_values lib actor a fs cs) db))))))"

definition hash_insert :: "'k \<Rightarrow> 'v \<Rightarrow> ('k \<times> 'v) list \<Rightarrow> ('k \<times> 'v) list" where
  "hash_insert k v m = (k, v) # filter (\<lambda>e. fst e \<noteq> k) m"

definition store_create ::
  "'x store_lib_scheme \<Rightarrow> store_env \<Rightarrow> alert_store \<Rightarrow> verified_actor \<Rightarrow> create_alert_rule
     \<Rightarrow> (alert_rule, store_error) result \<times> alert_store" where
  "store_create lib env st actor input =
     (case validate input of
        Inl _ \<Rightarrow> (Err Store_InvalidRecord, st)
      | Inr _ \<Rightarrow>
          let alert = into_rule input (se_new_id env) (se_now env) in
          case as_database st of
            Some db \<Rightarrow>
              (case insert_alert_rule lib (se_db_up env) db actor alert of
                 Inl e \<Rightarrow> (Err e, st)
               | Inr db' \<Rightarrow>
                   (if se_answer_lost env then Err Store_Unavailable else Ok alert,
                    st\<lparr>as_database := Some db'\<rparr>))
          | None \<Rightarrow>
              (Ok alert, st\<lparr>as_fallback :=
                 hash_insert (va_product_tenant actor, va_subject actor, ar_id alert) alert (as_fallback st)\<rparr>))"

section \<open>The interface of a scoped store\<close>

text \<open>
  A store seen by its clients: \<open>owned\<close> is the set of alerts an actor has in it. The client lemmas
  are about histories of creation requests, each with its own environment.
\<close>

fun run_creates ::
  "('e \<Rightarrow> 's \<Rightarrow> verified_actor \<Rightarrow> create_alert_rule \<Rightarrow> (alert_rule, store_error) result \<times> 's)
     \<Rightarrow> 's \<Rightarrow> ('e \<times> verified_actor \<times> create_alert_rule) list \<Rightarrow> 's" where
  "run_creates create s [] = s"
| "run_creates create s ((env, actor, input) # reqs) = run_creates create (snd (create env s actor input)) reqs"

locale scoped_store =
  fixes invar :: "'s \<Rightarrow> bool"
    and okay :: "'e \<Rightarrow> bool"
    and owned :: "'s \<Rightarrow> verified_actor \<Rightarrow> alert_rule set"
    and stored :: "'s \<Rightarrow> alert_rule \<Rightarrow> alert_rule"
    and list_op :: "'e \<Rightarrow> 's \<Rightarrow> verified_actor \<Rightarrow> (alert_rule list, store_error) result"
    and get_op :: "'e \<Rightarrow> 's \<Rightarrow> verified_actor \<Rightarrow> uuid \<Rightarrow> (alert_rule option, store_error) result"
    and create_op ::
      "'e \<Rightarrow> 's \<Rightarrow> verified_actor \<Rightarrow> create_alert_rule \<Rightarrow> (alert_rule, store_error) result \<times> 's"
  assumes owned_wf: "invar s \<Longrightarrow> a \<in> owned s actor \<Longrightarrow> wf_rule a"
    and owned_id: "invar s \<Longrightarrow> a \<in> owned s actor \<Longrightarrow> b \<in> owned s actor \<Longrightarrow> ar_id a = ar_id b \<Longrightarrow> a = b"
    and list_sound: "invar s \<Longrightarrow> okay e \<Longrightarrow> list_op e s actor = Ok xs \<Longrightarrow> set xs \<subseteq> owned s actor"
    and get_sound: "invar s \<Longrightarrow> okay e \<Longrightarrow> get_op e s actor i = Ok (Some a) \<Longrightarrow> a \<in> owned s actor \<and> ar_id a = i"
    and stored_id: "ar_id (stored s a) = ar_id a"
    and stored_content: "input_of (stored s a) = input_of a"
    and create_invar: "invar s \<Longrightarrow> invar (snd (create_op e s actor input))"
    and create_Ok: "invar s \<Longrightarrow> create_op e s actor input = (Ok a, s') \<Longrightarrow>
      validate input = Ok () \<and> (\<exists>i now. a = into_rule input i now) \<and>
      owned s' actor = insert (stored s a) {b \<in> owned s actor. ar_id b \<noteq> ar_id a}"
    and create_frame: "invar s \<Longrightarrow> other \<noteq> actor \<Longrightarrow>
      owned (snd (create_op e s actor input)) other = owned s other"
    and create_Err: "invar s \<Longrightarrow> create_op e s actor input = (Err x, s') \<Longrightarrow> s' = s \<or>
      validate input = Ok () \<and> (\<exists>a i now. a = into_rule input i now \<and>
        owned s' actor = insert (stored s a) {b \<in> owned s actor. ar_id b \<noteq> ar_id a})"
begin

lemma list_wf: "invar s \<Longrightarrow> okay e \<Longrightarrow> list_op e s actor = Ok xs \<Longrightarrow> a \<in> set xs \<Longrightarrow> wf_rule a"
  using list_sound owned_wf by blast

text \<open>A request, whatever its result, changed nothing or created the alert it describes.\<close>

lemma create_effect:
  assumes "invar s" "create_op e s actor input = (r, s')"
  obtains (unchanged) "s' = s"
  | (created) a i now where "validate input = Ok ()" "a = into_rule input i now"
      "owned s' actor = insert (stored s a) {b \<in> owned s actor. ar_id b \<noteq> ar_id a}"
proof (cases r)
  case (Inl x)
  with create_Err [OF assms(1), of e actor input x s'] assms(2) show ?thesis using unchanged created by blast
next
  case (Inr a)
  with create_Ok [OF assms(1), of e actor input a s'] assms(2) show ?thesis using created by blast
qed

lemma run_invar: "invar s \<Longrightarrow> invar (run_creates create_op s reqs)"
  by (induction reqs arbitrary: s) (auto simp: create_invar)

text \<open>Requests of other actors leave an actor's alerts alone.\<close>

lemma run_frame:
  "invar s \<Longrightarrow> \<forall>(e, act, input) \<in> set reqs. act \<noteq> actor \<Longrightarrow>
     owned (run_creates create_op s reqs) actor = owned s actor"
proof (induction reqs arbitrary: s)
  case (Cons q reqs)
  obtain e act input where q: "q = (e, act, input)" by (cases q)
  let ?s = "snd (create_op e s act input)"
  have "owned (run_creates create_op ?s reqs) actor = owned ?s actor"
    using Cons q by (auto intro: create_invar)
  also have "\<dots> = owned s actor" using Cons.prems q create_frame [of s actor act e input] by auto
  finally show ?case by (simp add: q)
qed simp

text \<open>Every owned alert goes back to an accepted request of its owner.\<close>

lemma run_origin:
  "invar s \<Longrightarrow> b \<in> owned (run_creates create_op s reqs) actor \<Longrightarrow> b \<notin> owned s actor \<Longrightarrow>
     \<exists>e input i now. (e, actor, input) \<in> set reqs \<and> validate input = Ok () \<and>
       input_of b = input_of (into_rule input i now)"
proof (induction reqs arbitrary: s)
  case (Cons q reqs)
  obtain e act input where q: "q = (e, act, input)" by (cases q)
  obtain r s' where c: "create_op e s act input = (r, s')" by fastforce
  have inv': "invar s'" using create_invar [OF Cons.prems(1), of e act input] c by simp
  show ?case
  proof (cases "b \<in> owned s' actor")
    case False
    with Cons.IH [OF inv'] Cons.prems(2) q c show ?thesis by auto
  next
    case True
    have act: "act = actor" using create_frame [of s actor act e input] Cons.prems(1,3) True c by auto
    from Cons.prems(1) c show ?thesis
    proof (cases rule: create_effect)
      case unchanged
      with True Cons.prems(3) show ?thesis by simp
    next
      case (created x i now)
      with act True Cons.prems(3) have "b = stored s x" by auto
      with q act created(1,2) stored_content [of s x] show ?thesis by auto
    qed
  qed
qed simp

text \<open>Once created, an alert stays owned until its identifier is created again.\<close>

lemma run_keeps:
  "invar s \<Longrightarrow> a \<in> owned s actor \<Longrightarrow> \<exists>b \<in> owned (run_creates create_op s reqs) actor. ar_id b = ar_id a"
proof (induction reqs arbitrary: s a)
  case (Cons q reqs)
  obtain e act input where q: "q = (e, act, input)" by (cases q)
  obtain r s' where c: "create_op e s act input = (r, s')" by fastforce
  have "\<exists>b \<in> owned s' actor. ar_id b = ar_id a"
  proof (cases "act = actor")
    case False
    with create_frame [of s actor act e input] c Cons.prems show ?thesis by auto
  next
    case True
    from Cons.prems(1) c show ?thesis
    proof (cases rule: create_effect)
      case unchanged
      with Cons.prems(2) show ?thesis by auto
    next
      case (created x i now)
      with True Cons.prems(2) stored_id [of s x] show ?thesis by (cases "ar_id a = ar_id x") auto
    qed
  qed
  then obtain b where b: "b \<in> owned s' actor" "ar_id b = ar_id a" by blast
  have "invar s'" using create_invar [OF Cons.prems(1), of e act input] c by simp
  from Cons.IH [OF this b(1)] c q b(2) show ?case by simp
qed auto

end

section \<open>The PostgreSQL backend\<close>

definition stored_rule :: "'x store_lib_scheme \<Rightarrow> alert_rule \<Rightarrow> alert_rule" where
  "stored_rule lib a =
     a\<lparr>ar_created_at := timestamptz_in lib (ar_created_at a),
       ar_updated_at := timestamptz_in lib (ar_updated_at a)\<rparr>"

definition row_of_actor :: "verified_actor \<Rightarrow> alert_row \<Rightarrow> bool" where
  "row_of_actor actor r \<longleftrightarrow> al_product_tenant r = va_product_tenant actor \<and> al_owner_subject r = va_subject actor"

definition db_owned :: "'x store_lib_scheme \<Rightarrow> database \<Rightarrow> verified_actor \<Rightarrow> alert_rule set" where
  "db_owned lib db actor =
     {a. \<exists>r \<in> set (db_alert_rules db). row_of_actor actor r \<and> decode_alert lib (alert_columns r) = Inr a}"

definition db_invar :: "'x store_lib_scheme \<Rightarrow> database \<Rightarrow> bool" where
  "db_invar lib db \<longleftrightarrow>
     db_wf db \<and> (\<forall>r \<in> set (db_alert_rules db). \<exists>a. decode_alert lib (alert_columns r) = Inr a \<and> wf_rule a)"

lemma decode_columns:
  "decode_alert lib (alert_columns r) = Inr a \<longleftrightarrow>
     (\<exists>fs cs. strings_from_value lib (al_source_filters r) = Some fs \<and>
        strings_from_value lib (al_delivery_channels r) = Some cs \<and>
        a = \<lparr>ar_id = al_id r, ar_created_at = al_created_at r, ar_updated_at = al_updated_at r,
             ar_name = al_name r, ar_query_text = al_query_text r,
             ar_embedding_model = al_embedding_model r,
             ar_similarity_threshold = as_f32 (al_similarity_threshold r),
             ar_source_filters = fs, ar_delivery_channels = cs, ar_enabled = al_enabled r\<rparr>)"
  by (auto simp: decode_alert_def alert_columns_def try_get_defs)

lemma decode_columns_id: "decode_alert lib (alert_columns r) = Inr a \<Longrightarrow> ar_id a = al_id r"
  by (auto simp: decode_columns)

lemma wf_list_no_nul: "wf_list xs \<Longrightarrow> x \<in> set xs \<Longrightarrow> 0 \<notin> set x"
  by (auto simp: wf_list_def wf_text_def is_control_def)

lemma store_lawsE:
  assumes "store_laws lib" "wf_list xs" "json_of_strings lib xs = Some t" "jsonb_in lib t = Some j"
  shows "is_json_array j" and "strings_from_value lib j = Some xs"
proof -
  from assms(1,2) obtain t' j' where "json_of_strings lib xs = Some t'" "jsonb_in lib t' = Some j'"
    "is_json_array j'" "strings_from_value lib j' = Some xs"
    using wf_list_no_nul unfolding store_laws_def by blast
  with assms(3,4) show "is_json_array j" "strings_from_value lib j = Some xs" by simp_all
qed

lemma wf_rule_stored: "wf_rule a \<Longrightarrow> wf_rule (stored_rule lib a)"
  by (simp add: wf_rule_def stored_rule_def)

text \<open>What the insertion wrote decodes to the rule, with the timestamps the database keeps.\<close>

lemma decode_alert_values:
  assumes "store_laws lib" "wf_rule a"
    and "json_of_strings lib (ar_source_filters a) = Some ft" "jsonb_in lib ft = Some fs"
    and "json_of_strings lib (ar_delivery_channels a) = Some ct" "jsonb_in lib ct = Some cs"
  shows "decode_alert lib (alert_columns (alert_values lib actor a fs cs)) = Inr (stored_rule lib a)"
proof -
  have lists: "wf_list (ar_source_filters a)" "wf_list (ar_delivery_channels a)"
    and finite: "f32_is_finite (ar_similarity_threshold a)"
    using assms(2) by (simp_all add: wf_rule_def)
  have "strings_from_value lib fs = Some (ar_source_filters a)"
    "strings_from_value lib cs = Some (ar_delivery_channels a)"
    using store_lawsE(2) [OF assms(1)] lists assms(3-6) by blast+
  with finite show ?thesis
    by (simp add: decode_columns alert_values_def stored_rule_def as_f32_f64_from)
qed

lemma insert_alert_rule_Ok:
  assumes "insert_alert_rule lib up db actor a = Inr db'"
  shows "\<exists>ft fs ct cs. up \<and> json_of_strings lib (ar_source_filters a) = Some ft \<and> jsonb_in lib ft = Some fs \<and>
    json_of_strings lib (ar_delivery_channels a) = Some ct \<and> jsonb_in lib ct = Some cs \<and>
    insert_alert (alert_values lib actor a fs cs) db = Some (1, db')"
  using assms
  by (auto simp: insert_alert_rule_def Option.bind_eq_Some_conv insert_alert_def split: if_splits)

lemma db_owned_insert:
  assumes inv: "store_laws lib" "db_invar lib db" and wf: "wf_rule a"
    and ins: "insert_alert_rule lib up db actor a = Inr db'"
  shows "db_invar lib db'"
    and "db_owned lib db' actor = insert (stored_rule lib a) (db_owned lib db actor)"
    and "other \<noteq> actor \<Longrightarrow> db_owned lib db' other = db_owned lib db other"
    and "b \<in> db_owned lib db actor \<Longrightarrow> ar_id b \<noteq> ar_id a"
proof -
  from insert_alert_rule_Ok [OF ins] obtain ft fs ct cs where j:
    "json_of_strings lib (ar_source_filters a) = Some ft" "jsonb_in lib ft = Some fs"
    "json_of_strings lib (ar_delivery_channels a) = Some ct" "jsonb_in lib ct = Some cs"
    and i: "insert_alert (alert_values lib actor a fs cs) db = Some (1, db')" by blast
  let ?r = "alert_values lib actor a fs cs"
  have dec: "decode_alert lib (alert_columns ?r) = Inr (stored_rule lib a)"
    using inv(1) wf j by (rule decode_alert_values)
  have db': "db' = db\<lparr>db_alert_rules := db_alert_rules db @ [?r]\<rparr>"
    and fresh: "al_id ?r \<notin> al_id ` set (db_alert_rules db)"
    using i by (auto simp: insert_alert_def split: if_splits)
  show "db_invar lib db'"
    using inv(2) insert_alert_wf [OF _ i] dec wf_rule_stored [OF wf] by (auto simp: db_invar_def db')
  have own: "row_of_actor act ?r \<longleftrightarrow> act = actor" for act
    by (cases act; cases actor) (auto simp: row_of_actor_def alert_values_def)
  show "db_owned lib db' actor = insert (stored_rule lib a) (db_owned lib db actor)"
    using own dec by (auto simp: db_owned_def db')
  show "other \<noteq> actor \<Longrightarrow> db_owned lib db' other = db_owned lib db other"
    using own by (auto simp: db_owned_def db')
  show "b \<in> db_owned lib db actor \<Longrightarrow> ar_id b \<noteq> ar_id a"
    using fresh by (auto simp: db_owned_def alert_values_def dest!: decode_columns_id)
qed

lemma read_alerts_Ok:
  "read_alerts lib up db actor = Inr xs \<longleftrightarrow>
     up \<and> map (\<lambda>r. decode_alert lib (alert_columns r)) (direct_alerts (va_product_tenant actor) (va_subject actor) db)
       = map Inr xs"
  by (auto simp: read_alerts_def collect_results_Inr_iff)

lemma read_alerts_owned:
  assumes "read_alerts lib up db actor = Inr xs"
  shows "set xs \<subseteq> db_owned lib db actor"
proof
  fix a assume "a \<in> set xs"
  then have "Inr a \<in> set (map Inr xs)" by simp
  then obtain r where "r \<in> set (direct_alerts (va_product_tenant actor) (va_subject actor) db)"
    "decode_alert lib (alert_columns r) = Inr a"
    using assms unfolding read_alerts_Ok by (metis (no_types, lifting) in_set_conv_nth length_map nth_map nth_mem)
  then show "a \<in> db_owned lib db actor"
    using direct_alerts_subset by (fastforce simp: db_owned_def row_of_actor_def)
qed

text \<open>With the database up and its rows decodable, reading succeeds.\<close>

lemma read_alerts_succeeds:
  assumes "db_invar lib db"
  shows "\<exists>xs. read_alerts lib True db actor = Inr xs \<and>
    map ar_id xs = map al_id (direct_alerts (va_product_tenant actor) (va_subject actor) db)"
proof -
  let ?rows = "direct_alerts (va_product_tenant actor) (va_subject actor) db"
  let ?dec = "\<lambda>r. decode_alert lib (alert_columns r)"
  have "\<forall>r \<in> set ?rows. \<exists>a. ?dec r = Inr a"
    using assms direct_alerts_subset unfolding db_invar_def by blast
  then have "map ?dec ?rows = map Inr (map (\<lambda>r. projr (?dec r)) ?rows)" by force
  moreover have "\<forall>r \<in> set ?rows. ar_id (projr (?dec r)) = al_id r"
    using \<open>\<forall>r \<in> set ?rows. \<exists>a. ?dec r = Inr a\<close> decode_columns_id by fastforce
  ultimately show ?thesis
    by (intro exI [of _ "map (\<lambda>r. projr (?dec r)) ?rows"]) (auto simp: read_alerts_Ok)
qed

lemma find_by_key: "distinct (map f xs) \<Longrightarrow> a \<in> set xs \<Longrightarrow> find (\<lambda>b. f b = f a) xs = Some a"
  by (induction xs) auto

lemma find_by_key_None: "find (\<lambda>b. f b = k) xs = None \<longleftrightarrow> k \<notin> f ` set xs"
  by (induction xs) auto

section \<open>The fallback\<close>

definition fb_owned :: "(alert_key \<times> alert_rule) list \<Rightarrow> verified_actor \<Rightarrow> alert_rule set" where
  "fb_owned m actor = {a. \<exists>i. ((va_product_tenant actor, va_subject actor, i), a) \<in> set m}"

definition fb_invar :: "(alert_key \<times> alert_rule) list \<Rightarrow> bool" where
  "fb_invar m \<longleftrightarrow> distinct (map fst m) \<and> (\<forall>((_, _, i), a) \<in> set m. i = ar_id a \<and> wf_rule a)"

lemma fb_invar_insert:
  "fb_invar m \<Longrightarrow> wf_rule a \<Longrightarrow> fb_invar (hash_insert (t, o', ar_id a) a m)"
  by (auto simp: fb_invar_def hash_insert_def distinct_map_filter_fst)

lemma fb_owned_insert:
  assumes "fb_invar m"
  shows "fb_owned (hash_insert (va_product_tenant actor, va_subject actor, ar_id a) a m) actor
      = insert a {b \<in> fb_owned m actor. ar_id b \<noteq> ar_id a}"
    and "other \<noteq> actor \<Longrightarrow>
      fb_owned (hash_insert (va_product_tenant actor, va_subject actor, ar_id a) a m) other = fb_owned m other"
proof -
  show "fb_owned (hash_insert (va_product_tenant actor, va_subject actor, ar_id a) a m) actor
      = insert a {b \<in> fb_owned m actor. ar_id b \<noteq> ar_id a}"
    using assms by (auto simp: fb_owned_def hash_insert_def fb_invar_def)
  assume "other \<noteq> actor"
  then have "va_product_tenant other \<noteq> va_product_tenant actor \<or> va_subject other \<noteq> va_subject actor"
    by (cases other; cases actor) auto
  then show "fb_owned (hash_insert (va_product_tenant actor, va_subject actor, ar_id a) a m) other = fb_owned m other"
    by (auto simp: fb_owned_def hash_insert_def)
qed

lemma fallback_list_owned: "env_ok env \<Longrightarrow> set (fallback_list env m actor) = fb_owned m actor"
  by (force simp: fallback_list_def env_ok_def fb_owned_def)

section \<open>The store is a scoped store\<close>

definition store_invar :: "'x store_lib_scheme \<Rightarrow> alert_store \<Rightarrow> bool" where
  "store_invar lib st \<longleftrightarrow>
     store_laws lib \<and> (case as_database st of Some db \<Rightarrow> db_invar lib db | None \<Rightarrow> fb_invar (as_fallback st))"

definition store_owned :: "'x store_lib_scheme \<Rightarrow> alert_store \<Rightarrow> verified_actor \<Rightarrow> alert_rule set" where
  "store_owned lib st actor =
     (case as_database st of Some db \<Rightarrow> db_owned lib db actor | None \<Rightarrow> fb_owned (as_fallback st) actor)"

definition store_stored :: "'x store_lib_scheme \<Rightarrow> alert_store \<Rightarrow> alert_rule \<Rightarrow> alert_rule" where
  "store_stored lib st a = (case as_database st of Some _ \<Rightarrow> stored_rule lib a | None \<Rightarrow> a)"

lemmas store_view_defs = store_invar_def store_owned_def store_stored_def

lemma store_invar_new:
  "store_laws lib \<Longrightarrow> store_invar lib (new_store None)"
  "store_laws lib \<Longrightarrow> store_invar lib (new_store (Some empty_database))"
  by (simp_all add: store_invar_def new_store_def fb_invar_def db_invar_def db_wf_empty)
     (simp add: empty_database_def)

definition store_effect ::
  "'x store_lib_scheme \<Rightarrow> store_env \<Rightarrow> alert_store \<Rightarrow> verified_actor \<Rightarrow> alert_rule \<Rightarrow> alert_store \<Rightarrow> bool" where
  "store_effect lib env st actor a st' \<longleftrightarrow>
     (case as_database st of
        None \<Rightarrow> st' = st\<lparr>as_fallback :=
          hash_insert (va_product_tenant actor, va_subject actor, ar_id a) a (as_fallback st)\<rparr>
      | Some db \<Rightarrow> \<exists>db'. insert_alert_rule lib (se_db_up env) db actor a = Inr db' \<and> st' = st\<lparr>as_database := Some db'\<rparr>)"

text \<open>
  A creation fails and changes nothing, or it takes effect, and then it is answered with the alert
  or, if the database's answer was lost, with an error.
\<close>

lemma store_create_cases:
  assumes "store_create lib env st actor input = (r, st')"
  obtains (failed) x where "r = Inl x" "st' = st"
  | (stored) a where "validate input = Inr ()" "a = into_rule input (se_new_id env) (se_now env)"
      "store_effect lib env st actor a st'"
      "r = Inr a \<or> r = Inl Store_Unavailable \<and> se_answer_lost env \<and> as_database st \<noteq> None"
proof (cases "validate input")
  case (Inl e)
  with assms show ?thesis by (intro failed) (auto simp: store_create_def)
next
  case (Inr u)
  let ?a = "into_rule input (se_new_id env) (se_now env)"
  show ?thesis
  proof (cases "as_database st")
    case None
    with Inr assms show ?thesis by (intro stored [of ?a]) (auto simp: store_create_def store_effect_def Let_def)
  next
    case (Some db)
    show ?thesis
    proof (cases "insert_alert_rule lib (se_db_up env) db actor ?a")
      case (Inl e)
      with Inr Some assms show ?thesis by (intro failed) (auto simp: store_create_def Let_def)
    next
      case ins: (Inr db')
      with Inr Some assms show ?thesis
        by (intro stored [of ?a]) (auto simp: store_create_def store_effect_def Let_def split: if_splits)
    qed
  qed
qed

lemma store_create_Ok:
  assumes "store_create lib env st actor input = (Inr a, st')"
  shows "validate input = Inr ()" and "a = into_rule input (se_new_id env) (se_now env)"
    and "store_effect lib env st actor a st'"
proof -
  have "validate input = Inr () \<and> a = into_rule input (se_new_id env) (se_now env) \<and> store_effect lib env st actor a st'"
    using assms by (cases rule: store_create_cases) auto
  then show "validate input = Inr ()" "a = into_rule input (se_new_id env) (se_now env)"
    "store_effect lib env st actor a st'" by blast+
qed

lemma store_effect_view:
  assumes inv: "store_invar lib st" and wf: "wf_rule a" and eff: "store_effect lib env st actor a st'"
  shows "store_invar lib st'"
    and "store_owned lib st' actor = insert (store_stored lib st a) {b \<in> store_owned lib st actor. ar_id b \<noteq> ar_id a}"
    and "other \<noteq> actor \<Longrightarrow> store_owned lib st' other = store_owned lib st other"
proof -
  have "store_invar lib st' \<and>
    store_owned lib st' actor = insert (store_stored lib st a) {b \<in> store_owned lib st actor. ar_id b \<noteq> ar_id a} \<and>
    (other \<noteq> actor \<longrightarrow> store_owned lib st' other = store_owned lib st other)"
  proof (cases "as_database st")
    case None
    with eff have st': "st' = st\<lparr>as_fallback :=
        hash_insert (va_product_tenant actor, va_subject actor, ar_id a) a (as_fallback st)\<rparr>"
      by (simp add: store_effect_def)
    from inv None have "fb_invar (as_fallback st)" "store_laws lib" by (simp_all add: store_invar_def)
    with None st' wf show ?thesis
      by (simp add: store_view_defs fb_invar_insert fb_owned_insert)
  next
    case (Some db)
    with eff obtain db' where ins: "insert_alert_rule lib (se_db_up env) db actor a = Inr db'"
      and st': "st' = st\<lparr>as_database := Some db'\<rparr>"
      by (auto simp: store_effect_def)
    from inv Some have "store_laws lib" "db_invar lib db" by (simp_all add: store_invar_def)
    note db = db_owned_insert [OF this wf ins]
    have "{b \<in> db_owned lib db actor. ar_id b \<noteq> ar_id a} = db_owned lib db actor" using db(4) by auto
    with Some st' db(1-3) \<open>store_laws lib\<close> show ?thesis by (simp add: store_view_defs)
  qed
  then show "store_invar lib st'"
    and "store_owned lib st' actor = insert (store_stored lib st a) {b \<in> store_owned lib st actor. ar_id b \<noteq> ar_id a}"
    and "other \<noteq> actor \<Longrightarrow> store_owned lib st' other = store_owned lib st other"
    by auto
qed

lemma store_list_owned:
  assumes "env_ok env" "store_list lib env st actor = Inr xs"
  shows "set xs \<subseteq> store_owned lib st actor"
  using assms read_alerts_owned fallback_list_owned
  by (auto simp: store_list_def store_owned_def split: option.splits) blast

lemma store_get_owned:
  assumes "store_invar lib st" "env_ok env" "store_get lib env st actor i = Inr (Some a)"
  shows "a \<in> store_owned lib st actor \<and> ar_id a = i"
proof (cases "as_database st")
  case None
  with assms have "((va_product_tenant actor, va_subject actor, i), a) \<in> set (as_fallback st)"
    "fb_invar (as_fallback st)"
    by (auto simp: store_get_def database_configured_def store_invar_def dest: map_of_SomeD)
  with None show ?thesis by (auto simp: store_owned_def fb_owned_def fb_invar_def)
next
  case (Some db)
  with assms(3) obtain xs where "store_list lib env st actor = Inr xs" "find (\<lambda>a. ar_id a = i) xs = Some a"
    by (auto simp: store_get_def database_configured_def)
  then show ?thesis using store_list_owned [OF assms(2)] find_Some_in_set by fastforce
qed

lemma store_owned_facts:
  assumes "store_invar lib st" "a \<in> store_owned lib st actor"
  shows "wf_rule a" and "b \<in> store_owned lib st actor \<Longrightarrow> ar_id a = ar_id b \<Longrightarrow> a = b"
proof -
  show "wf_rule a"
    using assms by (fastforce simp: store_view_defs fb_invar_def fb_owned_def db_invar_def db_owned_def
        split: option.splits)
  assume b: "b \<in> store_owned lib st actor" "ar_id a = ar_id b"
  show "a = b"
  proof (cases "as_database st")
    case None
    let ?k = "(va_product_tenant actor, va_subject actor, ar_id a)"
    have inv: "distinct (map fst (as_fallback st))"
      "\<And>t o' i c. ((t, o', i), c) \<in> set (as_fallback st) \<Longrightarrow> i = ar_id c"
      using assms(1) None by (auto simp: store_invar_def fb_invar_def)
    have "(?k, a) \<in> set (as_fallback st)" "(?k, b) \<in> set (as_fallback st)"
      using assms(2) b None inv(2) by (auto simp: store_owned_def fb_owned_def)
    with inv(1) show ?thesis by (rule eq_key_imp_eq_value)
  next
    case (Some db)
    with assms b obtain r q where rq: "r \<in> set (db_alert_rules db)" "q \<in> set (db_alert_rules db)"
      "decode_alert lib (alert_columns r) = Inr a" "decode_alert lib (alert_columns q) = Inr b"
      by (auto simp: store_owned_def db_owned_def)
    have "distinct (map al_id (db_alert_rules db))"
      using assms Some by (simp add: store_invar_def db_invar_def db_wf_def)
    moreover have "al_id r = al_id q" using rq b(2) decode_columns_id by metis
    ultimately have "r = q" using rq(1,2) by (simp add: distinct_map inj_on_def)
    with rq show ?thesis by simp
  qed
qed

lemma store_create_view:
  assumes "store_invar lib st" and "store_create lib env st actor input = (Inr a, st')"
  shows "store_invar lib st'"
    and "store_owned lib st' actor = insert (store_stored lib st a) {b \<in> store_owned lib st actor. ar_id b \<noteq> ar_id a}"
  using store_effect_view(1,2) [OF assms(1) _ store_create_Ok(3) [OF assms(2)]]
    wf_rule_into_rule [OF store_create_Ok(1) [OF assms(2)]] store_create_Ok(2) [OF assms(2)] by auto

lemma store_create_frame:
  assumes "store_invar lib st"
  shows "store_invar lib (snd (store_create lib env st actor input))"
    and "other \<noteq> actor \<Longrightarrow>
      store_owned lib (snd (store_create lib env st actor input)) other = store_owned lib st other"
proof -
  obtain r st' where c: "store_create lib env st actor input = (r, st')" by fastforce
  have "store_invar lib st' \<and> (other \<noteq> actor \<longrightarrow> store_owned lib st' other = store_owned lib st other)"
    using c
  proof (cases rule: store_create_cases)
    case (failed x)
    with assms show ?thesis by simp
  next
    case (stored a)
    then have "wf_rule a" using wf_rule_into_rule by blast
    from store_effect_view(1,3) [OF assms this stored(3)] show ?thesis by blast
  qed
  then show "store_invar lib (snd (store_create lib env st actor input))"
    "other \<noteq> actor \<Longrightarrow> store_owned lib (snd (store_create lib env st actor input)) other = store_owned lib st other"
    by (simp_all add: c)
qed

lemma store_create_Err:
  assumes "store_invar lib st" and "store_create lib env st actor input = (Inl x, st')"
  shows "st' = st \<or> validate input = Inr () \<and> (\<exists>a i now. a = into_rule input i now \<and>
    store_owned lib st' actor = insert (store_stored lib st a) {b \<in> store_owned lib st actor. ar_id b \<noteq> ar_id a})"
  using assms(2)
proof (cases rule: store_create_cases)
  case (stored a)
  then have "wf_rule a" using wf_rule_into_rule by blast
  from store_effect_view(2) [OF assms(1) this stored(3)] stored(1,2) show ?thesis by blast
qed simp

lemma store_stored_id: "ar_id (store_stored lib st a) = ar_id a"
  by (simp add: store_stored_def stored_rule_def split: option.split)

lemma store_stored_content: "input_of (store_stored lib st a) = input_of a"
  by (simp add: store_stored_def stored_rule_def input_of_def split: option.split)

lemma store_create_Ok_rule:
  "store_create lib env st actor input = (Inr a, st') \<Longrightarrow>
     validate input = Inr () \<and> (\<exists>i now. a = into_rule input i now)"
  using store_create_Ok(1,2) by blast

interpretation alerts: scoped_store "store_invar lib" env_ok "store_owned lib" "store_stored lib"
    "store_list lib" "store_get lib" "store_create lib" for lib :: "'x store_lib_scheme"
proof (unfold_locales, goal_cases)
  case (10 s e actor input x s')
  then show ?case by (rule store_create_Err)
qed (simp_all add: store_owned_facts store_list_owned store_get_owned store_stored_id
      store_stored_content store_create_frame store_create_view(2) store_create_Ok_rule)

section \<open>What a working database adds\<close>

lemma alert_values_check:
  assumes "wf_rule a" "length_between 1 64 (va_product_tenant actor)" "is_json_array fs" "is_json_array cs"
  shows "alert_check (alert_values lib actor a fs cs)"
proof -
  have len: "length_between 1 n s" if "wf_text n s" for n s
    using that length_le_rlen [of s] by (cases s) (auto simp: wf_text_def length_between_def)
  have "wf_text 160 (ar_name a)" "wf_text 8192 (ar_query_text a)" "wf_text 128 (ar_embedding_model a)"
    using assms(1) by (simp_all add: wf_rule_def rust_simps)
  then have "length_between 1 160 (ar_name a)" "length_between 1 8192 (ar_query_text a)"
    "length_between 1 128 (ar_embedding_model a)"
    by (blast intro: len)+
  moreover have "f64_le f64_zero (f64_from (ar_similarity_threshold a))
      \<and> f64_le (f64_from (ar_similarity_threshold a)) f64_one"
    using assms(1) by (intro f64_from_unit) (simp_all add: wf_rule_def)
  ultimately show ?thesis using assms(2-4) by (simp add: alert_check_def alert_values_def)
qed

lemma insert_alert_rule_succeeds:
  assumes laws: "store_laws lib" and wf: "wf_rule a" and t: "length_between 1 64 (va_product_tenant actor)"
    and fresh: "ar_id a \<notin> al_id ` set (db_alert_rules db)"
  shows "\<exists>db'. insert_alert_rule lib True db actor a = Inr db'"
proof -
  have "wf_list (ar_source_filters a)" "wf_list (ar_delivery_channels a)"
    using wf by (simp_all add: wf_rule_def)
  then obtain ft fs ct cs where
    f: "json_of_strings lib (ar_source_filters a) = Some ft" "jsonb_in lib ft = Some fs" "is_json_array fs"
    and c: "json_of_strings lib (ar_delivery_channels a) = Some ct" "jsonb_in lib ct = Some cs" "is_json_array cs"
    using laws wf_list_no_nul unfolding store_laws_def by meson
  have "alert_check (alert_values lib actor a fs cs)"
    using wf t f(3) c(3) by (rule alert_values_check)
  moreover have "al_id (alert_values lib actor a fs cs) = ar_id a" by (simp add: alert_values_def)
  ultimately show ?thesis using f c fresh by (simp add: insert_alert_rule_def insert_alert_def)
qed

lemma read_alerts_ids:
  assumes "db_invar lib db" "read_alerts lib up db actor = Inr xs"
  shows "map ar_id xs = map al_id (direct_alerts (va_product_tenant actor) (va_subject actor) db)"
  using read_alerts_succeeds [OF assms(1), of actor] assms(2)
  by (cases up) (auto simp: read_alerts_def)

lemma read_alerts_complete:
  assumes "db_invar lib db" "length (filter (row_of_actor actor) (db_alert_rules db)) \<le> 100"
    and "read_alerts lib up db actor = Inr xs"
  shows "set xs = db_owned lib db actor"
proof
  show "set xs \<subseteq> db_owned lib db actor" using assms(3) by (rule read_alerts_owned)
  show "db_owned lib db actor \<subseteq> set xs"
  proof
    fix a assume "a \<in> db_owned lib db actor"
    then obtain r where r: "r \<in> set (db_alert_rules db)" "row_of_actor actor r"
      "decode_alert lib (alert_columns r) = Inr a" by (auto simp: db_owned_def)
    let ?rows = "direct_alerts (va_product_tenant actor) (va_subject actor) db"
    have "r \<in> set ?rows"
      using r assms(2) by (subst direct_alerts_complete) (simp_all add: row_of_actor_def [abs_def])
    then have "Inr a \<in> set (map (\<lambda>r. decode_alert lib (alert_columns r)) ?rows)"
      using r(3) by (metis image_eqI list.set_map)
    moreover have "map (\<lambda>r. decode_alert lib (alert_columns r)) ?rows = map Inr xs"
      using assms(3) by (simp add: read_alerts_Ok)
    ultimately show "a \<in> set xs" by auto
  qed
qed

lemma store_get_from_list:
  assumes "db_invar lib db" "as_database st = Some db" "store_list lib env st actor = Inr xs"
  shows "a \<in> set xs \<Longrightarrow> store_get lib env st actor (ar_id a) = Inr (Some a)"
    and "i \<notin> ar_id ` set xs \<Longrightarrow> store_get lib env st actor i = Inr None"
proof -
  have "read_alerts lib (se_db_up env) db actor = Inr xs" using assms by (simp add: store_list_def)
  then have "map ar_id xs = map al_id (direct_alerts (va_product_tenant actor) (va_subject actor) db)"
    by (rule read_alerts_ids [OF assms(1)])
  then have "distinct (map ar_id xs)"
    using assms(1) direct_alerts_distinct by (simp add: db_invar_def db_wf_def)
  then show "a \<in> set xs \<Longrightarrow> store_get lib env st actor (ar_id a) = Inr (Some a)"
    using assms(2,3) by (simp add: store_get_def database_configured_def find_by_key)
  show "i \<notin> ar_id ` set xs \<Longrightarrow> store_get lib env st actor i = Inr None"
    using assms(2,3) by (simp add: store_get_def database_configured_def find_by_key_None)
qed

definition owner_count :: "alert_store \<Rightarrow> verified_actor \<Rightarrow> nat" where
  "owner_count st actor =
     (case as_database st of
        Some db \<Rightarrow> length (filter (row_of_actor actor) (db_alert_rules db)) | None \<Rightarrow> 0)"

lemma store_list_complete:
  assumes inv: "store_invar lib st" and env: "env_ok env" "se_db_up env" and few: "owner_count st actor \<le> 100"
  shows "\<exists>xs. store_list lib env st actor = Inr xs \<and> set xs = store_owned lib st actor"
proof (cases "as_database st")
  case None
  with env(1) show ?thesis by (simp add: store_list_def store_owned_def fallback_list_owned)
next
  case (Some db)
  with inv have "db_invar lib db" by (simp add: store_invar_def)
  then obtain xs where "read_alerts lib True db actor = Inr xs" using read_alerts_succeeds by blast
  with Some env(2) few read_alerts_complete [OF \<open>db_invar lib db\<close>] show ?thesis
    by (auto simp: store_list_def store_owned_def owner_count_def)
qed

lemma store_get_complete:
  assumes inv: "store_invar lib st" and env: "env_ok env" "se_db_up env"
    and few: "owner_count st actor \<le> 100" and a: "a \<in> store_owned lib st actor"
  shows "store_get lib env st actor (ar_id a) = Inr (Some a)"
proof (cases "as_database st")
  case None
  then have "fb_invar (as_fallback st)" "a \<in> fb_owned (as_fallback st) actor"
    using inv a by (simp_all add: store_view_defs)
  with None show ?thesis
    by (auto simp: store_get_def database_configured_def fb_invar_def fb_owned_def)
next
  case (Some db)
  obtain xs where "store_list lib env st actor = Inr xs" "set xs = store_owned lib st actor"
    using store_list_complete [OF inv env few] by blast
  with Some inv a show ?thesis by (auto intro: store_get_from_list(1) simp: store_invar_def)
qed

lemma owner_count_create:
  "store_create lib env st actor input = (r, st') \<Longrightarrow> owner_count st' actor \<le> Suc (owner_count st actor)"
  by (auto simp: store_create_def Let_def owner_count_def insert_alert_rule_def insert_alert_def
      Option.bind_eq_Some_conv split: sum.splits option.splits if_splits)

lemma store_read_back:
  assumes "store_invar lib st" and "store_create lib env st actor input = (Ok a, st')"
    and "owner_count st actor < 100" and "env_ok env'" and "se_db_up env'"
  shows "\<exists>xs. store_list lib env' st' actor = Ok xs \<and> store_stored lib st a \<in> set xs
    \<and> store_get lib env' st' actor (ar_id a) = Ok (Some (store_stored lib st a))"
proof -
  have inv: "store_invar lib st'" using assms(1,2) by (rule store_create_view(1))
  have own: "store_stored lib st a \<in> store_owned lib st' actor"
    using store_create_view(2) [OF assms(1,2)] by simp
  have few: "owner_count st' actor \<le> 100" using owner_count_create [OF assms(2)] assms(3) by simp
  show ?thesis
    using store_list_complete [OF inv assms(4,5) few] own
      store_get_complete [OF inv assms(4,5) few own] by (auto simp: store_stored_id)
qed

section \<open>Sample data\<close>

text \<open>A text form of string lists, its parser and microsecond timestamps, for the witnesses.\<close>

fun split_nul :: "rstring \<Rightarrow> rstring \<Rightarrow> rstring list" where
  "split_nul acc [] = []"
| "split_nul acc (c # cs) = (if c = 0 then rev acc # split_nul [] cs else split_nul (c # acc) cs)"

definition sample_store_lib :: store_lib where
  "sample_store_lib =
     \<lparr>uuid_parse_str = uuid_parse_str_ref, uuid_to_string = uuid_to_string_ref,
      header_to_str = Some, has_scope = (\<lambda>c s. in_scope c = Some s),
      client_try_new = (\<lambda>b. None), introspect_with_requirements = (\<lambda>_ _ _ _ _. Inr sample_claims),
      json_of_strings = (\<lambda>xs. Some (concat (map (\<lambda>x. x @ [0]) xs))),
      jsonb_in = (\<lambda>t. Some (JArray (map JString (split_nul [] t)))),
      strings_from_value = (\<lambda>j. case j of JArray js \<Rightarrow> those (map json_as_str js) | _ \<Rightarrow> None),
      timestamptz_in = (\<lambda>t. t div 1000 * 1000)\<rparr>"

lemma split_nul_item: "0 \<notin> set x \<Longrightarrow> split_nul acc (x @ 0 # r) = (rev acc @ x) # split_nul [] r"
  by (induction x arbitrary: acc) auto

lemma split_nul_items: "\<forall>x \<in> set xs. 0 \<notin> set x \<Longrightarrow> split_nul [] (concat (map (\<lambda>x. x @ [0]) xs)) = xs"
  by (induction xs) (auto simp: split_nul_item)

lemma those_map_str: "those (map json_as_str (map JString xs)) = Some xs"
  by (induction xs) (simp_all add: json_as_str_def)

definition store_sample :: "'x store_lib_scheme \<Rightarrow> bool" where
  "store_sample lib \<longleftrightarrow> auth_sample lib \<and>
     json_of_strings lib = json_of_strings sample_store_lib \<and> jsonb_in lib = jsonb_in sample_store_lib \<and>
     strings_from_value lib = strings_from_value sample_store_lib \<and>
     timestamptz_in lib = timestamptz_in sample_store_lib"

lemma store_sample_lib: "store_sample sample_store_lib"
  by (simp add: store_sample_def auth_sample_def sample_store_lib_def)

lemma store_sample_laws: "store_sample lib \<Longrightarrow> store_laws lib"
  by (auto simp: store_sample_def store_laws_def sample_store_lib_def split_nul_items those_map_str
      is_json_array_def simp del: map_map)

definition sample_env_up :: store_env where
  "sample_env_up = \<lparr>se_db_up = True, se_answer_lost = False, se_order = (\<lambda>m. m), se_new_id = 7, se_now = 42000\<rparr>"

lemma sample_env_up_ok: "env_ok sample_env_up" "se_db_up sample_env_up" "\<not> se_answer_lost sample_env_up"
  by (simp_all add: env_ok_def sample_env_up_def)

definition other_actor :: verified_actor where
  "other_actor = \<lparr>va_subject = 2, va_product_tenant = rs ''embedded-alerts''\<rparr>"

lemma other_actor_neq: "other_actor \<noteq> sample_actor" "sample_actor \<noteq> other_actor"
  by (simp_all add: other_actor_def sample_actor_def)

text \<open>A database in which the sample actor owns the given number of alerts.\<close>

definition sample_rows :: "'x store_lib_scheme \<Rightarrow> nat \<Rightarrow> alert_row list" where
  "sample_rows lib n =
     map (\<lambda>k. alert_values lib sample_actor (into_rule sample_input (of_nat k) 0)
            (JArray [JString (rs ''docs'')]) (JArray [JString (rs ''email'')])) [0..<n]"

definition sample_db :: "'x store_lib_scheme \<Rightarrow> nat \<Rightarrow> database" where
  "sample_db lib n = empty_database\<lparr>db_alert_rules := sample_rows lib n\<rparr>"

lemma sample_list_texts:
  assumes "store_sample lib"
  shows "json_of_strings lib [rs ''docs''] = Some (rs ''docs'' @ [0])"
    and "jsonb_in lib (rs ''docs'' @ [0]) = Some (JArray [JString (rs ''docs'')])"
    and "json_of_strings lib [rs ''email''] = Some (rs ''email'' @ [0])"
    and "jsonb_in lib (rs ''email'' @ [0]) = Some (JArray [JString (rs ''email'')])"
  using assms by (simp_all add: store_sample_def sample_store_lib_def)

lemma sample_db_invar:
  assumes lib: "store_sample lib" and n: "n \<le> 1000"
  shows "db_invar lib (sample_db lib n)"
    and "length (filter (row_of_actor sample_actor) (db_alert_rules (sample_db lib n))) = n"
proof -
  let ?r = "\<lambda>k. into_rule sample_input (of_nat k) 0"
  let ?row = "\<lambda>k. alert_values lib sample_actor (?r k)
            (JArray [JString (rs ''docs'')]) (JArray [JString (rs ''email'')])"
  have wf: "wf_rule (?r k)" for k using sample_input_valid by (rule wf_rule_into_rule)
  have lists: "ar_source_filters (?r k) = [rs ''docs'']" "ar_delivery_channels (?r k) = [rs ''email'']" for k
    by (simp_all add: into_rule_def sample_input_def normalize_list_def trim_def is_whitespace_def)
  have dec: "decode_alert lib (alert_columns (?row k)) = Inr (stored_rule lib (?r k))" for k
    using lib wf by (intro decode_alert_values [where ft = "rs ''docs'' @ [0]" and ct = "rs ''email'' @ [0]"])
      (simp_all only: lists sample_list_texts store_sample_laws)
  have check: "alert_check (?row k)" for k
    by (rule alert_values_check [OF wf]) (simp_all add: length_between_def sample_actor_def is_json_array_def)
  have "al_id (?row k) = of_nat k" for k by (simp add: alert_values_def into_rule_def)
  moreover have "unat (of_nat k :: uuid) = k" if "k < n" for k
    using that n by (intro unat_of_nat_less) simp
  then have "inj_on (of_nat :: nat \<Rightarrow> uuid) {0..<n}"
    by (intro inj_onI) (metis atLeastLessThan_iff)
  ultimately have "distinct (map al_id (sample_rows lib n))"
    by (simp add: sample_rows_def distinct_map o_def)
  with check dec wf_rule_stored [OF wf] show "db_invar lib (sample_db lib n)"
    by (auto simp: db_invar_def sample_db_def db_wf_def empty_database_def sample_rows_def)
  have "filter (row_of_actor sample_actor) (sample_rows lib n) = sample_rows lib n"
    by (simp add: sample_rows_def row_of_actor_def alert_values_def)
  then show "length (filter (row_of_actor sample_actor) (db_alert_rules (sample_db lib n))) = n"
    by (simp add: sample_db_def sample_rows_def)
qed

section \<open>Properties\<close>

text \<open>
  C1. Isolation: whatever requests other actors make, successful or not, on either backend, an
  actor's alerts stay the same. Two actors differ when their subject or their tenant differs.
\<close>

theorem store_isolation:
  assumes "store_invar lib st" and "\<forall>(env, act, input) \<in> set reqs. act \<noteq> actor"
  shows "store_owned lib (run_creates (store_create lib) st reqs) actor = store_owned lib st actor"
  using assms by (rule alerts.run_frame)

theorem store_isolation_witness:
  "store_owned sample_store_lib
     (run_creates (store_create sample_store_lib) (new_store None) [(sample_env_up, other_actor, sample_input)])
     sample_actor
   = store_owned sample_store_lib (new_store None) sample_actor"
  by (rule store_isolation [OF store_invar_new(1) [OF store_sample_laws [OF store_sample_lib]]])
     (simp add: other_actor_neq)

text \<open>
  Everything a listing returns goes back to its reader: after any history of requests on an
  empty store, each listed alert is well formed and has the normalised content of a request that
  the same actor made and that passed validation.
\<close>

theorem listed_alerts_come_from_the_actor:
  assumes "store_laws lib" and "st = new_store None \<or> st = new_store (Some empty_database)"
    and "env_ok env" and "store_list lib env (run_creates (store_create lib) st reqs) actor = Ok xs"
    and "a \<in> set xs"
  shows "wf_rule a \<and> (\<exists>e input i now. (e, actor, input) \<in> set reqs \<and> validate input = Ok ()
    \<and> input_of a = input_of (into_rule input i now))"
proof -
  let ?st = "run_creates (store_create lib) st reqs"
  have inv: "store_invar lib st" using assms(1,2) store_invar_new by auto
  have none: "a \<notin> store_owned lib st actor"
    using assms(2) by (auto simp: store_owned_def new_store_def fb_owned_def db_owned_def empty_database_def)
  have inv': "store_invar lib ?st" using inv by (rule alerts.run_invar)
  have a: "a \<in> store_owned lib ?st actor"
    using alerts.list_sound [OF inv' assms(3,4)] assms(5) by blast
  have "wf_rule a" using inv' a by (rule alerts.owned_wf)
  with alerts.run_origin [OF inv a none] show ?thesis by blast
qed

theorem listed_alerts_come_from_the_actor_witness:
  "\<exists>xs. store_list sample_store_lib sample_env_up
          (run_creates (store_create sample_store_lib) (new_store None) [(sample_env_up, sample_actor, sample_input)])
          sample_actor = Ok xs \<and> xs \<noteq> [] \<and> (\<forall>a \<in> set xs. wf_rule a)"
proof -
  let ?st = "run_creates (store_create sample_store_lib) (new_store None) [(sample_env_up, sample_actor, sample_input)]"
  obtain xs where xs: "store_list sample_store_lib sample_env_up ?st sample_actor = Inr xs" "xs \<noteq> []"
    by (simp add: store_create_def sample_input_valid store_list_def new_store_def Let_def hash_insert_def
        fallback_list_def sample_env_up_def)
  moreover have "wf_rule a" if "a \<in> set xs" for a
    using listed_alerts_come_from_the_actor [OF store_sample_laws [OF store_sample_lib] _ sample_env_up_ok(1) xs(1) that]
    by blast
  ultimately show ?thesis by blast
qed

text \<open>
  C26. An accepted request is stored: when the request validates, the database answers and its
  answer arrives, the tenant has between 1 and 64 characters and the identifier is new, creation
  succeeds. Validation implies every length, range and array constraint of the table.
\<close>

theorem accepted_request_is_stored:
  assumes "store_laws lib" and "as_database st = Some db" and "validate input = Ok ()" and "se_db_up env"
    and "1 \<le> length (va_product_tenant actor)" and "length (va_product_tenant actor) \<le> 64"
    and "se_new_id env \<notin> al_id ` set (db_alert_rules db)" and "\<not> se_answer_lost env"
  shows "\<exists>db'. store_create lib env st actor input =
    (Ok (into_rule input (se_new_id env) (se_now env)), st\<lparr>as_database := Some db'\<rparr>)"
proof -
  let ?a = "into_rule input (se_new_id env) (se_now env)"
  have "wf_rule ?a" using assms(3) by (rule wf_rule_into_rule)
  moreover have "length_between 1 64 (va_product_tenant actor)"
    using assms(5,6) by (simp add: length_between_def)
  moreover have "ar_id ?a \<notin> al_id ` set (db_alert_rules db)" using assms(7) by (simp add: into_rule_def)
  ultimately obtain db' where "insert_alert_rule lib True db actor ?a = Inr db'"
    using insert_alert_rule_succeeds [OF assms(1)] by blast
  then show ?thesis using assms(2-4,8) by (intro exI [of _ db']) (simp add: store_create_def Let_def)
qed

theorem accepted_request_is_stored_witness:
  "is_ok (fst (store_create sample_store_lib sample_env_up (new_store (Some empty_database))
     sample_actor sample_input))"
  using accepted_request_is_stored [OF store_sample_laws [OF store_sample_lib], of
      "new_store (Some empty_database)" empty_database sample_input sample_env_up sample_actor]
    sample_input_valid sample_env_up_ok
  by (auto simp: new_store_def sample_actor_def empty_database_def)

text \<open>
  C31. The hundred-row limit reaches lookups by identifier: on the database backend, an owner with
  more than a hundred alerts has one that \<open>get\<close> reports as absent although it is stored.
\<close>

theorem get_misses_an_owned_alert:
  assumes "store_invar lib st" and "as_database st = Some db" and "se_db_up env"
    and "100 < owner_count st actor"
  shows "\<exists>a \<in> store_owned lib st actor. store_get lib env st actor (ar_id a) = Ok None"
proof -
  let ?mine = "filter (row_of_actor actor) (db_alert_rules db)"
  let ?page = "direct_alerts (va_product_tenant actor) (va_subject actor) db"
  have inv: "db_invar lib db" using assms(1,2) by (simp add: store_invar_def)
  then have dist: "distinct (map al_id (db_alert_rules db))" by (simp add: db_invar_def db_wf_def)
  then have "distinct ?mine" by (simp add: distinct_map)
  then have "card (set ?mine) = length ?mine" by (rule distinct_card)
  moreover have "card (set ?page) \<le> 100"
    using card_length [of ?page] direct_alerts_length [of "va_product_tenant actor" "va_subject actor" db] by linarith
  ultimately have "\<not> set ?mine \<subseteq> set ?page"
    using assms(2,4) card_mono [of "set ?page" "set ?mine"] by (auto simp: owner_count_def)
  then obtain r where r: "r \<in> set (db_alert_rules db)" "row_of_actor actor r" "r \<notin> set ?page" by auto
  obtain a where a: "decode_alert lib (alert_columns r) = Inr a" using inv r(1) by (auto simp: db_invar_def)
  obtain xs where xs: "store_list lib env st actor = Inr xs"
    "map ar_id xs = map al_id ?page"
    using read_alerts_succeeds [OF inv, of actor] assms(2,3) by (auto simp: store_list_def)
  have "inj_on al_id (set (db_alert_rules db))" using dist by (simp add: distinct_map)
  moreover have "set ?page \<subseteq> set (db_alert_rules db)" using direct_alerts_subset by blast
  ultimately have "al_id r \<notin> al_id ` set ?page" using r(1,3) by (auto dest: inj_onD)
  then have "ar_id a \<notin> ar_id ` set xs"
    using arg_cong [OF xs(2), of set] decode_columns_id [OF a] by simp
  with store_get_from_list(2) [OF inv assms(2) xs(1)] have "store_get lib env st actor (ar_id a) = Inr None" by blast
  moreover have "a \<in> store_owned lib st actor"
    using r a assms(2) by (auto simp: store_owned_def db_owned_def)
  ultimately show ?thesis by blast
qed

theorem get_misses_an_owned_alert_witness:
  "\<exists>a \<in> store_owned sample_store_lib (new_store (Some (sample_db sample_store_lib 101))) sample_actor.
     store_get sample_store_lib sample_env_up (new_store (Some (sample_db sample_store_lib 101)))
       sample_actor (ar_id a) = Ok None"
proof (rule get_misses_an_owned_alert)
  show "store_invar sample_store_lib (new_store (Some (sample_db sample_store_lib 101)))"
    using store_sample_laws [OF store_sample_lib] sample_db_invar(1) [OF store_sample_lib, of 101]
    by (simp add: store_invar_def new_store_def)
  show "100 < owner_count (new_store (Some (sample_db sample_store_lib 101))) sample_actor"
    using sample_db_invar(2) [OF store_sample_lib, of 101] by (simp add: owner_count_def new_store_def)
qed (simp_all add: new_store_def sample_env_up_def)

end
