(* ===== verification/Envelope.thy ===== *)
theory Envelope
  imports Store
begin

text \<open>
  The wire formats and checks of \<open>src/src/transport.rs\<close>: operation envelopes, signed commands,
  their canonical signing text, signature creation and verification, the validators of tenants,
  dedupe keys, deadlines and broker addresses, and the transport's configuration lookups. The HMAC
  and hex functions and the JSON codecs are parameters.
\<close>

section \<open>Data\<close>

definition MAX_FRAME_BYTES :: nat where "MAX_FRAME_BYTES = 64 * 1024"
definition MAX_OPERATION_DEADLINE_MS :: u64 where "MAX_OPERATION_DEADLINE_MS = 15000"
definition TCP_CONNECTION_LIMIT :: nat where "TCP_CONNECTION_LIMIT = 128"
definition MAX_NATS_PAYLOAD_BYTES :: nat where "MAX_NATS_PAYLOAD_BYTES = 256 * 1024"

record operation_envelope =
  oe_version :: "8 word"
  oe_operation_id :: uuid
  oe_operation :: rstring
  oe_actor_subject :: rstring
  oe_product_tenant :: rstring
  oe_deadline_unix_ms :: u64

record authenticated_operation =
  ao_authorization :: rstring
  ao_envelope :: operation_envelope

record operation_reply =
  or_operation_id :: uuid
  or_status :: rstring
  or_result :: "json option"
  or_error :: "rstring option"

record async_command =
  ac_event_id :: uuid
  ac_correlation_id :: uuid
  ac_dedupe_key :: rstring
  ac_product_tenant :: rstring
  ac_operation :: operation_envelope
  ac_signature :: rstring

record event_envelope =
  ee_event_id :: uuid
  ee_correlation_id :: uuid
  ee_dedupe_key :: rstring
  ee_product_tenant :: rstring
  ee_subject :: rstring
  ee_reply :: operation_reply

text \<open>
  Library functions: HMAC-SHA-256 of a key and a message (\<open>None\<close> when \<open>new_from_slice\<close> refuses
  the key) and its verification, the \<open>hex\<close> codec, the \<open>serde_json\<close> codecs of the wire types, and
  the value PostgreSQL stores when a parameter of type text is assigned to a \<open>uuid\<close> column without
  a cast (\<open>None\<close> is a statement error, which is what it documents; the parameter lets the theorems
  speak of what the transport does with and without that cast), the value a JSON value takes in a
  \<open>jsonb\<close> column, and the message header value NATS makes of a text.
\<close>

record wire_lib = store_lib +
  hmac_sha256 :: "u8 list \<Rightarrow> u8 list \<Rightarrow> u8 list option"
  hmac_verify_slice :: "u8 list \<Rightarrow> u8 list \<Rightarrow> u8 list \<Rightarrow> bool option"
  hex_encode :: "u8 list \<Rightarrow> rstring"
  hex_decode :: "rstring \<Rightarrow> u8 list option"
  operation_from_slice :: "u8 list \<Rightarrow> authenticated_operation option"
  command_from_slice :: "u8 list \<Rightarrow> async_command option"
  reply_to_vec :: "operation_reply \<Rightarrow> u8 list option"
  alerts_to_json :: "alert_rule list \<Rightarrow> json"
  event_to_value :: "event_envelope \<Rightarrow> json option"
  json_to_vec :: "json \<Rightarrow> u8 list option"
  text_as_uuid :: "rstring \<Rightarrow> uuid option"
  jsonb_value :: "json \<Rightarrow> json option"
  nats_header_value :: "rstring \<Rightarrow> rstring option"

text \<open>
  Documented behaviour: verification compares with the tag of the message, and decoding inverts
  encoding on the tags.
\<close>

definition mac_laws :: "'x wire_lib_scheme \<Rightarrow> bool" where
  "mac_laws lib \<longleftrightarrow>
     (\<forall>k m s. hmac_verify_slice lib k m s = map_option (\<lambda>t. s = t) (hmac_sha256 lib k m)) \<and>
     (\<forall>k m t. hmac_sha256 lib k m = Some t \<longrightarrow> hex_decode lib (hex_encode lib t) = Some t)"

section \<open>Signed commands\<close>

definition command_signing_bytes :: "'x uuid_lib_scheme \<Rightarrow> async_command \<Rightarrow> rstring" where
  "command_signing_bytes lib command =
     join_with 10
       [uuid_to_string lib (ac_event_id command), uuid_to_string lib (ac_correlation_id command),
        ac_dedupe_key command, ac_product_tenant command,
        show_nat (unat (oe_version (ac_operation command))),
        uuid_to_string lib (oe_operation_id (ac_operation command)),
        oe_operation (ac_operation command), oe_actor_subject (ac_operation command),
        show_nat (unat (oe_deadline_unix_ms (ac_operation command)))]"

definition valid_command_key :: "u8 list \<Rightarrow> bool" where
  "valid_command_key key \<longleftrightarrow>
     32 \<le> length key \<and> length key \<le> 1024 \<and> \<not> (\<exists>b \<in> set key. is_ascii_control b)"

definition sign_command :: "'x wire_lib_scheme \<Rightarrow> async_command \<Rightarrow> u8 list \<Rightarrow> (rstring, string) result" where
  "sign_command lib command key =
     (if \<not> valid_command_key key then Err ''command key is malformed''
      else
        and_then
          (ok_or ''command key is malformed''
             (hmac_sha256 lib key (as_bytes (command_signing_bytes lib command))))
          (\<lambda>tag. Ok (hex_encode lib tag)))"

definition verify_command_signature :: "'x wire_lib_scheme \<Rightarrow> async_command \<Rightarrow> u8 list \<Rightarrow> bool" where
  "verify_command_signature lib command key =
     (case hex_decode lib (ac_signature command) of
        None \<Rightarrow> False
      | Some signature \<Rightarrow>
          (case hmac_verify_slice lib key (as_bytes (command_signing_bytes lib command)) signature of
             None \<Rightarrow> False
           | Some okay \<Rightarrow> valid_command_key key \<and> okay))"

section \<open>Validators\<close>

definition bounded_tenant :: "rstring \<Rightarrow> bool" where
  "bounded_tenant value \<longleftrightarrow>
     value \<noteq> [] \<and> rlen value \<le> 64 \<and>
     (\<forall>(index, byte) \<in> set (enumerate 0 (as_bytes value)).
        is_ascii_lowercase byte \<or> is_ascii_digit byte \<or> (0 < index \<and> byte \<in> {95, 45}))"

definition bounded_dedupe_key :: "rstring \<Rightarrow> bool" where
  "bounded_dedupe_key value \<longleftrightarrow>
     value \<noteq> [] \<and> rlen value \<le> 128 \<and>
     (\<forall>byte \<in> set (as_bytes value). is_ascii_alphanumeric byte \<or> byte \<in> {58, 95, 45})"

definition validate_operation_envelope_at ::
  "'x uuid_lib_scheme \<Rightarrow> operation_envelope \<Rightarrow> u64 \<Rightarrow> (unit, string) result" where
  "validate_operation_envelope_at lib envelope now_ms =
     (if oe_version envelope \<noteq> 1
         \<or> oe_operation envelope \<noteq> rs ''list_alerts''
         \<or> oe_operation_id envelope = uuid_nil
         \<or> \<not> bounded_tenant (oe_product_tenant envelope)
         \<or> uuid_parse_str lib (oe_actor_subject envelope) = None
         \<or> oe_deadline_unix_ms envelope < now_ms
         \<or> saturating_sub (oe_deadline_unix_ms envelope) now_ms > MAX_OPERATION_DEADLINE_MS
      then Err ''operation envelope is invalid''
      else Ok ())"

definition validate_nats_url :: "rstring \<Rightarrow> (unit, string) result" where
  "validate_nats_url value =
     (let secure = starts_with (rs ''tls://'') value \<and> rlen value > rlen (rs ''tls://'');
          loopback = starts_with (rs ''nats://127.0.0.1:'') value
            \<or> starts_with (rs ''nats://localhost:'') value \<or> starts_with (rs ''nats://[::1]:'') value
      in if (secure \<or> loopback) \<and> 64 \<notin> set value then Ok ()
         else Err ''remote NATS requires a credential-free tls:// URL'')"

section \<open>Replies, configuration and time\<close>

definition error_reply :: "uuid \<Rightarrow> string \<Rightarrow> operation_reply" where
  "error_reply operation_id error =
     \<lparr>or_operation_id = operation_id, or_status = rs ''rejected'', or_result = None,
      or_error = Some (rs error)\<rparr>"

definition optional_env :: "(rstring \<Rightarrow> rstring option) \<Rightarrow> string \<Rightarrow> rstring option" where
  "optional_env var name = option_filter (\<lambda>v. v \<noteq> []) (map_option trim (var (rs name)))"

definition required_transport_env ::
  "(rstring \<Rightarrow> rstring option) \<Rightarrow> string \<Rightarrow> (rstring, rstring) result" where
  "required_transport_env var name = ok_or (rs name @ rs '' is required'') (optional_env var name)"

definition unix_ms :: "system_time \<Rightarrow> u64 option" where
  "unix_ms now =
     map_option (\<lambda>ns. u64_try_from_or_max (ns div 1000000)) (duration_since_epoch now)"

section \<open>Facts about the checks\<close>

lemma bounded_tenant_bytes:
  assumes "bounded_tenant s" "b \<in> set (as_bytes s)"
  shows "is_ascii_lowercase b \<or> is_ascii_digit b \<or> b \<in> {95, 45}"
proof -
  from assms(2) obtain i where "(i, b) \<in> set (enumerate 0 (as_bytes s))"
    by (metis in_set_impl_in_set_zip2 enumerate_eq_zip length_upt diff_zero add_0)
  with assms(1) show ?thesis by (auto simp: bounded_tenant_def)
qed

interpretation tenant: ascii_token bounded_tenant 64
proof unfold_locales
  fix s assume a: "bounded_tenant s"
  show "\<forall>b \<in> set (as_bytes s). 33 \<le> b \<and> b < 127"
    using bounded_tenant_bytes [OF a] by (force simp: is_ascii_lowercase_def is_ascii_digit_def)
qed (simp_all add: bounded_tenant_def)

interpretation dedupe: ascii_token bounded_dedupe_key 128
  by unfold_locales (auto simp: bounded_dedupe_key_def is_ascii_alphanumeric_def)

lemma validate_operation_envelope_at_Ok_iff:
  "validate_operation_envelope_at lib e now = Inr u \<longleftrightarrow>
     oe_version e = 1 \<and> oe_operation e = rs ''list_alerts'' \<and> oe_operation_id e \<noteq> 0 \<and>
     bounded_tenant (oe_product_tenant e) \<and> (\<exists>i. uuid_parse_str lib (oe_actor_subject e) = Some i) \<and>
     unat now \<le> unat (oe_deadline_unix_ms e) \<and> unat (oe_deadline_unix_ms e) \<le> unat now + 15000"
proof -
  have "saturating_sub d now > 15000 \<longleftrightarrow> 15000 < unat d - unat now" for d
    by (simp add: word_less_nat_alt saturating_sub_unat)
  then show ?thesis
    by (auto simp: validate_operation_envelope_at_def MAX_OPERATION_DEADLINE_MS_def word_less_nat_alt
        simp del: rs_simps)
qed

text \<open>The fields the signature covers, and when they hold no line break.\<close>

definition signed_view :: "async_command \<Rightarrow> uuid \<times> uuid \<times> rstring \<times> rstring \<times> 8 word \<times> uuid \<times> rstring \<times> rstring \<times> u64" where
  "signed_view c =
     (ac_event_id c, ac_correlation_id c, ac_dedupe_key c, ac_product_tenant c,
      oe_version (ac_operation c), oe_operation_id (ac_operation c), oe_operation (ac_operation c),
      oe_actor_subject (ac_operation c), oe_deadline_unix_ms (ac_operation c))"

definition newline_free :: "async_command \<Rightarrow> bool" where
  "newline_free c \<longleftrightarrow>
     10 \<notin> set (ac_dedupe_key c) \<and> 10 \<notin> set (ac_product_tenant c) \<and>
     10 \<notin> set (oe_operation (ac_operation c)) \<and> 10 \<notin> set (oe_actor_subject (ac_operation c))"

lemma show_nat_no_newline: "10 \<notin> set (show_nat n)"
  using show_nat_digits [of 10 n] by (auto simp: is_ascii_digit_def)

lemma show_word_inj: "show_nat (unat x) = show_nat (unat y) \<Longrightarrow> x = y"
  for x y :: "'a::len word"
  by (auto simp: word_unat_eq_iff dest: show_nat_inj)

lemma command_signing_bytes_inj:
  assumes "uuid_laws lib" "newline_free c" "newline_free d"
    and eq: "command_signing_bytes lib c = command_signing_bytes lib d"
  shows "signed_view c = signed_view d"
proof -
  let ?f = "\<lambda>c. [uuid_to_string lib (ac_event_id c), uuid_to_string lib (ac_correlation_id c),
        ac_dedupe_key c, ac_product_tenant c, show_nat (unat (oe_version (ac_operation c))),
        uuid_to_string lib (oe_operation_id (ac_operation c)), oe_operation (ac_operation c),
        oe_actor_subject (ac_operation c), show_nat (unat (oe_deadline_unix_ms (ac_operation c)))]"
  have free: "\<forall>x \<in> set (butlast (?f c)). 10 \<notin> set x" if "newline_free c" for c
    using that uuid_lawsD(2) [OF assms(1)] show_nat_no_newline by (simp add: newline_free_def)
  have "?f c = ?f d"
    by (rule join_with_inj [OF _ free [OF assms(2)] free [OF assms(3)]])
       (use eq in \<open>simp_all only: command_signing_bytes_def length_Cons list.size\<close>)
  then show ?thesis
    by (auto simp: signed_view_def dest: uuid_to_string_inj [OF assms(1)] show_word_inj)
qed

lemma signing_bytes_signature [simp]:
  "command_signing_bytes lib (c\<lparr>ac_signature := s\<rparr>) = command_signing_bytes lib c"
  by (simp add: command_signing_bytes_def)

lemma verify_command_signature_iff:
  assumes "mac_laws lib"
  shows "verify_command_signature lib c key \<longleftrightarrow>
    valid_command_key key \<and>
    (\<exists>t. hmac_sha256 lib key (as_bytes (command_signing_bytes lib c)) = Some t
       \<and> hex_decode lib (ac_signature c) = Some t)"
  using assms by (auto simp: verify_command_signature_def mac_laws_def split: option.splits)

section \<open>Sample data\<close>

definition sample_uuid_lib :: uuid_lib where
  "sample_uuid_lib = \<lparr>uuid_parse_str = uuid_parse_str_ref, uuid_to_string = uuid_to_string_ref\<rparr>"

definition sample_key :: "u8 list" where
  "sample_key = rs ''test-only-command-key-at-least-32-bytes''"

definition sample_operation :: operation_envelope where
  "sample_operation =
     \<lparr>oe_version = 1, oe_operation_id = 5, oe_operation = rs ''list_alerts'',
      oe_actor_subject = uuid_to_string_ref 1, oe_product_tenant = rs ''embedded-alerts'',
      oe_deadline_unix_ms = 2000000010000\<rparr>"

definition unsigned_command :: async_command where
  "unsigned_command =
     \<lparr>ac_event_id = 3, ac_correlation_id = 5, ac_dedupe_key = rs ''list-alerts:5'',
      ac_product_tenant = rs ''embedded-alerts'', ac_operation = sample_operation, ac_signature = []\<rparr>"

text \<open>The sample MAC is the key followed by the message, the sample hex codec the identity.\<close>

definition sample_command :: async_command where
  "sample_command = unsigned_command\<lparr>ac_signature :=
     sample_key @ as_bytes (command_signing_bytes sample_uuid_lib unsigned_command)\<rparr>"

definition sample_request :: authenticated_operation where
  "sample_request = \<lparr>ao_authorization = rs ''Bearer valid-token-value'', ao_envelope = sample_operation\<rparr>"

definition sample_wire_lib :: wire_lib where
  "sample_wire_lib =
     \<lparr>uuid_parse_str = uuid_parse_str_ref, uuid_to_string = uuid_to_string_ref,
      header_to_str = Some, has_scope = (\<lambda>c s. in_scope c = Some s),
      client_try_new = (\<lambda>b. None), introspect_with_requirements = (\<lambda>_ _ _ _ _. Inr sample_claims),
      json_of_strings = json_of_strings sample_store_lib, jsonb_in = jsonb_in sample_store_lib,
      strings_from_value = strings_from_value sample_store_lib,
      timestamptz_in = timestamptz_in sample_store_lib,
      hmac_sha256 = (\<lambda>k m. Some (k @ m)), hmac_verify_slice = (\<lambda>k m s. Some (s = k @ m)),
      hex_encode = (\<lambda>b. b), hex_decode = Some,
      operation_from_slice = (\<lambda>b. if b = [1] then Some sample_request else None),
      command_from_slice = (\<lambda>b. if b = [1] then Some sample_command else None),
      reply_to_vec = (\<lambda>r. Some (or_status r)),
      alerts_to_json = (\<lambda>xs. JArray (map (\<lambda>a. JString (ar_name a)) xs)),
      event_to_value = (\<lambda>e. Some (JString (ee_dedupe_key e))),
      json_to_vec = (\<lambda>j. Some (case j of JString s \<Rightarrow> s | _ \<Rightarrow> [])),
      text_as_uuid = uuid_parse_str_ref, jsonb_value = Some, nats_header_value = Some\<rparr>"

lemma sample_wire_lib_laws:
  "store_sample sample_wire_lib" "auth_sample sample_wire_lib" "uuid_laws sample_wire_lib"
  "store_laws sample_wire_lib" "mac_laws sample_wire_lib"
proof -
  show s: "store_sample sample_wire_lib"
    by (simp add: store_sample_def auth_sample_def sample_wire_lib_def)
  show a: "auth_sample sample_wire_lib" using s by (simp add: store_sample_def)
  show "uuid_laws sample_wire_lib" using a by (rule auth_sample_laws)
  show "store_laws sample_wire_lib" using s by (rule store_sample_laws)
  show "mac_laws sample_wire_lib" by (simp add: mac_laws_def sample_wire_lib_def)
qed

lemma sample_signing_bytes:
  "command_signing_bytes sample_wire_lib c = command_signing_bytes sample_uuid_lib c"
  by (simp add: command_signing_bytes_def sample_wire_lib_def sample_uuid_lib_def)

lemma sample_tokens:
  "bounded_tenant (rs ''embedded-alerts'')" "bounded_dedupe_key (rs ''list-alerts:5'')"
  "valid_command_key sample_key"
  by (simp_all add: bounded_tenant_def bounded_dedupe_key_def valid_command_key_def sample_key_def
      is_ascii_lowercase_def is_ascii_digit_def is_ascii_alphanumeric_def is_ascii_control_def
      enumerate_Suc_eq)

lemma sample_operation_valid:
  "auth_sample lib \<Longrightarrow> validate_operation_envelope_at lib sample_operation 2000000002000 = Inr ()"
  unfolding validate_operation_envelope_at_Ok_iff
  using sample_tokens(1) by (simp add: sample_operation_def auth_sample_def uuid_parse_str_ref_inverse)

lemma sample_commands_newline_free: "newline_free unsigned_command" "newline_free sample_command"
  using uuid_to_string_ref_no_newline [of 1]
  by (simp_all add: newline_free_def unsigned_command_def sample_command_def sample_operation_def)

lemma sample_command_signed:
  "sign_command sample_wire_lib unsigned_command sample_key = Inr (ac_signature sample_command)"
  "unsigned_command\<lparr>ac_signature := ac_signature sample_command\<rparr> = sample_command"
proof -
  show "sign_command sample_wire_lib unsigned_command sample_key = Inr (ac_signature sample_command)"
    using sample_tokens(3) sample_signing_bytes [of unsigned_command]
    by (simp add: sign_command_def sample_command_def) (simp add: sample_wire_lib_def)
qed (simp add: sample_command_def)

section \<open>Properties\<close>

text \<open>
  A signature made with a key verifies with that key, whatever the command: signing then
  verifying succeeds, and the signature field itself is not part of what is signed.
\<close>

theorem signed_command_verifies:
  assumes "mac_laws lib" and "sign_command lib c key = Ok signature"
  shows "verify_command_signature lib (c\<lparr>ac_signature := signature\<rparr>) key"
  using assms
  by (auto simp: verify_command_signature_iff sign_command_def mac_laws_def split: if_splits)

theorem signed_command_verifies_witness:
  "verify_command_signature sample_wire_lib
     (unsigned_command\<lparr>ac_signature := ac_signature sample_command\<rparr>) sample_key"
  by (rule signed_command_verifies [OF sample_wire_lib_laws(5) sample_command_signed(1)])

text \<open>
  The signed text is unambiguous: two commands whose dedupe key, tenant, operation and actor
  hold no line break have the same signing bytes only if they agree in all nine signed fields.
\<close>

theorem signing_bytes_determine_the_command:
  assumes "uuid_laws lib" and "newline_free c" and "newline_free d"
    and "as_bytes (command_signing_bytes lib c) = as_bytes (command_signing_bytes lib d)"
  shows "signed_view c = signed_view d"
  using command_signing_bytes_inj [OF assms(1-3)] as_bytes_inj [OF assms(4)] by blast

theorem signing_bytes_determine_the_command_witness:
  "signed_view unsigned_command = signed_view sample_command"
  by (rule signing_bytes_determine_the_command [OF sample_wire_lib_laws(3) sample_commands_newline_free])
     (simp add: sample_command_def)

text \<open>
  C29. The deadline window, at full width: an accepted envelope's deadline is neither past nor more
  than fifteen seconds ahead, as numbers and without wrap-around at the end of the 64-bit range;
  an envelope that differs from an accepted one only in its deadline is accepted exactly inside
  that window.
\<close>

theorem deadline_window:
  assumes "validate_operation_envelope_at lib e now = Ok ()"
  shows "validate_operation_envelope_at lib (e\<lparr>oe_deadline_unix_ms := d\<rparr>) now' =
    (if unat now' \<le> unat d \<and> unat d \<le> unat now' + 15000 then Ok ()
     else Err ''operation envelope is invalid'')"
proof (cases "unat now' \<le> unat d \<and> unat d \<le> unat now' + 15000")
  case True
  with assms show ?thesis by (simp add: validate_operation_envelope_at_Ok_iff)
next
  case False
  then have "validate_operation_envelope_at lib (e\<lparr>oe_deadline_unix_ms := d\<rparr>) now' \<noteq> Inr ()"
    by (simp add: validate_operation_envelope_at_Ok_iff)
  with False show ?thesis by (auto simp: validate_operation_envelope_at_def split: if_splits)
qed

theorem deadline_window_witness:
  "validate_operation_envelope_at sample_wire_lib
     (sample_operation\<lparr>oe_deadline_unix_ms := 18446744073709551615\<rparr>) (- 15001) = Ok ()
   \<and> validate_operation_envelope_at sample_wire_lib
     (sample_operation\<lparr>oe_deadline_unix_ms := 18446744073709551615\<rparr>) (- 15002) = Err ''operation envelope is invalid''"
  using deadline_window [OF sample_operation_valid [OF sample_wire_lib_laws(2)], of 18446744073709551615 "- 15001"]
    deadline_window [OF sample_operation_valid [OF sample_wire_lib_laws(2)], of 18446744073709551615 "- 15002"]
  by simp

text \<open>
  Broker addresses: an accepted address holds no credentials separator, and it either is a
  \<open>tls://\<close> address with something after the scheme or names a loopback host with a port
  separator.
\<close>

theorem accepted_broker_is_tls_or_loopback:
  assumes "validate_nats_url url = Ok ()"
  shows "64 \<notin> set url \<and>
    ((\<exists>host. url = rs ''tls://'' @ host \<and> host \<noteq> [])
     \<or> (\<exists>h rest. h \<in> {''127.0.0.1'', ''localhost'', ''[::1]''} \<and> url = rs ''nats://'' @ rs h @ rs '':'' @ rest))"
proof -
  have at: "64 \<notin> set url" and host: "starts_with (rs ''tls://'') url \<and> rlen (rs ''tls://'') < rlen url
      \<or> starts_with (rs ''nats://127.0.0.1:'') url \<or> starts_with (rs ''nats://localhost:'') url
      \<or> starts_with (rs ''nats://[::1]:'') url"
    using assms unfolding validate_nats_url_def Let_def by (auto simp del: rs_simps split: if_splits)
  have split: "rs ''nats://127.0.0.1:'' = rs ''nats://'' @ rs ''127.0.0.1'' @ rs '':''"
    "rs ''nats://localhost:'' = rs ''nats://'' @ rs ''localhost'' @ rs '':''"
    "rs ''nats://[::1]:'' = rs ''nats://'' @ rs ''[::1]'' @ rs '':''" by simp_all
  from host show ?thesis unfolding starts_with_iff split
  proof (elim disjE conjE exE)
    fix r assume "url = rs ''tls://'' @ r" "rlen (rs ''tls://'') < rlen url"
    then show ?thesis using at by (cases r) auto
  qed (use at in \<open>simp del: rs_simps, blast\<close>)+
qed

theorem accepted_broker_is_tls_or_loopback_witness:
  "\<exists>host. rs ''tls://nats.example.test:4222'' = rs ''tls://'' @ host \<and> host \<noteq> []"
  using accepted_broker_is_tls_or_loopback [of "rs ''tls://nats.example.test:4222''"]
  by (auto simp: validate_nats_url_def starts_with_def)

end
