(* ===== verification/Jetstream.thy ===== *)
theory Jetstream
  imports Envelope
begin

text \<open>
  The durable request/reply transport of \<open>src/src/transport.rs\<close>: starting it from the
  configuration, the stream and consumer setup, the handling of a delivered message with its
  acknowledgement, and the inbox/outbox transaction of a command. What the broker, the database
  and the clock do in one step is an argument of the step.
\<close>

section \<open>Starting the transport\<close>

definition spawn_jetstream_from_env ::
  "(rstring \<Rightarrow> rstring option) \<Rightarrow> alert_store \<Rightarrow> ((rstring \<times> u8 list) option, rstring) result" where
  "spawn_jetstream_from_env var st =
     (case optional_env var ''NATS_URL'' of
        None \<Rightarrow> Ok None
      | Some url \<Rightarrow>
          and_then (map_err rs (validate_nats_url url)) (\<lambda>_.
          and_then (required_transport_env var ''EAL_NATS_COMMAND_HMAC_KEY'') (\<lambda>key.
          let command_key = as_bytes key in
          if \<not> valid_command_key command_key then Err (rs ''EAL_NATS_COMMAND_HMAC_KEY is malformed'')
          else
          and_then (ok_or (rs ''JetStream requires DATABASE_URL for durable inbox/outbox state'')
                     (as_database st)) (\<lambda>_.
          Ok (Some (url, command_key))))))"

text \<open>The streams and the consumer the transport asks the broker for.\<close>

record stream_config =
  sc_name :: string
  sc_subjects :: "string list"
  sc_file_storage :: bool
  sc_max_messages :: int
  sc_max_message_size :: int

record consumer_config =
  cc_durable_name :: string
  cc_explicit_ack :: bool
  cc_ack_wait_secs :: nat
  cc_filter_subject :: string
  cc_max_ack_pending :: int
  cc_max_deliver :: int

definition COMMAND_STREAM :: string where "COMMAND_STREAM = ''EAL_COMMANDS_V1''"
definition COMMAND_SUBJECT_WILDCARD :: string where "COMMAND_SUBJECT_WILDCARD = ''eal.command.*.v1''"
definition EVENT_STREAM :: string where "EVENT_STREAM = ''EAL_EVENTS_V1''"
definition EVENT_SUBJECT_WILDCARD :: string where "EVENT_SUBJECT_WILDCARD = ''eal.event.*.v1''"
definition COMMAND_DURABLE :: string where "COMMAND_DURABLE = ''eal-api-commands-v1''"

definition command_stream_config :: stream_config where
  "command_stream_config =
     \<lparr>sc_name = COMMAND_STREAM, sc_subjects = [COMMAND_SUBJECT_WILDCARD], sc_file_storage = True,
      sc_max_messages = 100000, sc_max_message_size = int MAX_NATS_PAYLOAD_BYTES\<rparr>"

definition event_stream_config :: stream_config where
  "event_stream_config =
     \<lparr>sc_name = EVENT_STREAM, sc_subjects = [EVENT_SUBJECT_WILDCARD], sc_file_storage = True,
      sc_max_messages = 100000, sc_max_message_size = int MAX_NATS_PAYLOAD_BYTES\<rparr>"

definition command_consumer_config :: consumer_config where
  "command_consumer_config =
     \<lparr>cc_durable_name = COMMAND_DURABLE, cc_explicit_ack = True, cc_ack_wait_secs = 30,
      cc_filter_subject = COMMAND_SUBJECT_WILDCARD, cc_max_ack_pending = 64, cc_max_deliver = 8\<rparr>"

text \<open>The broker's answers to the setup calls, each true when the call succeeds.\<close>

record setup_env =
  su_connect :: bool
  su_stream :: "stream_config \<Rightarrow> bool"
  su_consumer :: "consumer_config \<Rightarrow> bool"
  su_messages :: bool

definition setup_jetstream :: "setup_env \<Rightarrow> (unit, string) result" where
  "setup_jetstream env =
     (if \<not> su_connect env then Err ''NATS connection failed''
      else if \<not> su_stream env command_stream_config then Err ''durable command stream is unavailable''
      else if \<not> su_stream env event_stream_config then Err ''durable event stream is unavailable''
      else if \<not> su_consumer env command_consumer_config then Err ''durable command consumer is unavailable''
      else if \<not> su_messages env then Err ''JetStream command delivery is unavailable''
      else Ok ())"

section \<open>The transaction of a command\<close>

text \<open>
  What the environment contributes to one transaction: which statements the database answers,
  what becomes of the query under its timeout and of the commit (a lost commit is applied but
  reported as failed), a fresh identifier and the transaction's timestamp.
\<close>

datatype read_outcome = Read_Answers | Read_Fails | Read_Times_Out

datatype commit_outcome = Commit_Done | Commit_Lost | Commit_Fails

record txn_env =
  te_begin :: bool
  te_inbox :: bool
  te_read :: read_outcome
  te_outbox :: bool
  te_status :: bool
  te_commit :: commit_outcome
  te_new_id :: uuid
  te_now :: datetime

definition reply_subject :: "rstring \<Rightarrow> rstring" where
  "reply_subject tenant = rs ''eal.event.'' @ tenant @ rs ''.v1''"

definition reply_envelope :: "uuid \<Rightarrow> async_command \<Rightarrow> operation_reply \<Rightarrow> event_envelope" where
  "reply_envelope event_id command reply =
     \<lparr>ee_event_id = event_id, ee_correlation_id = ac_correlation_id command,
      ee_dedupe_key = rs ''reply:'' @ ac_dedupe_key command,
      ee_product_tenant = ac_product_tenant command,
      ee_subject = reply_subject (ac_product_tenant command), ee_reply = reply\<rparr>"

definition outbox_values :: "txn_env \<Rightarrow> async_command \<Rightarrow> event_envelope \<Rightarrow> json \<Rightarrow> outbox_row" where
  "outbox_values env command envelope payload =
     \<lparr>ob_event_id = te_new_id env, ob_correlation_id = ac_correlation_id command,
      ob_dedupe_key = ee_dedupe_key envelope, ob_subject = ee_subject envelope,
      ob_payload = payload, ob_created_at = te_now env, ob_published_at = None\<rparr>"

definition enqueue_reply ::
  "'x wire_lib_scheme \<Rightarrow> txn_env \<Rightarrow> database \<Rightarrow> async_command \<Rightarrow> operation_reply \<Rightarrow> (database, string) result" where
  "enqueue_reply lib env db command reply =
     (let envelope = reply_envelope (te_new_id env) command reply in
      and_then (ok_or ''serialize JetStream reply failed'' (event_to_value lib envelope)) (\<lambda>payload.
      if \<not> te_outbox env then Err ''persist JetStream outbox failed''
      else
        and_then
          (ok_or ''persist JetStream outbox failed''
             (Option.bind (jsonb_value lib payload) (\<lambda>stored.
              insert_outbox (outbox_values env command envelope stored) db)))
          (\<lambda>(_, db'). Ok db')))"

definition inbox_values :: "txn_env \<Rightarrow> async_command \<Rightarrow> uuid \<Rightarrow> inbox_row" where
  "inbox_values env command subject =
     \<lparr>ib_event_id = ac_event_id command, ib_correlation_id = ac_correlation_id command,
      ib_dedupe_key = ac_dedupe_key command, ib_product_tenant = ac_product_tenant command,
      ib_actor_subject = subject, ib_received_at = te_now env\<rparr>"

definition status_values :: "txn_env \<Rightarrow> async_command \<Rightarrow> uuid \<Rightarrow> operation_reply \<Rightarrow> status_row" where
  "status_values env command subject reply =
     \<lparr>st_correlation_id = ac_correlation_id command, st_product_tenant = ac_product_tenant command,
      st_actor_subject = subject, st_status = or_status reply, st_updated_at = te_now env\<rparr>"

definition query_reply ::
  "'x wire_lib_scheme \<Rightarrow> txn_env \<Rightarrow> database \<Rightarrow> verified_actor \<Rightarrow> uuid \<Rightarrow> operation_reply" where
  "query_reply lib env db actor correlation_id =
     (case te_read env of
        Read_Times_Out \<Rightarrow> error_reply correlation_id ''timeout''
      | outcome \<Rightarrow>
          (case read_alerts lib (outcome = Read_Answers) db actor of
             Inr alerts \<Rightarrow>
               \<lparr>or_operation_id = correlation_id, or_status = rs ''completed'',
                or_result = Some (alerts_to_json lib alerts), or_error = None\<rparr>
           | Inl _ \<Rightarrow> error_reply correlation_id ''unavailable''))"

text \<open>The statements between \<open>begin\<close> and \<open>commit\<close>, on the transaction's view of the tables.\<close>

definition command_statements ::
  "'x wire_lib_scheme \<Rightarrow> txn_env \<Rightarrow> database \<Rightarrow> async_command \<Rightarrow> (database, string) result" where
  "command_statements lib env db command =
     (let subject_text = oe_actor_subject (ac_operation command) in
      and_then
        (ok_or ''persist JetStream inbox failed''
           (if te_inbox env
            then Option.bind (text_as_uuid lib subject_text) (\<lambda>subject.
                   insert_inbox (inbox_values env command subject) db)
            else None))
        (\<lambda>(rows_affected, db1).
      if rows_affected = 1 then
        and_then (ok_or ''JetStream actor subject is invalid'' (uuid_parse_str lib subject_text)) (\<lambda>subject.
        let actor = \<lparr>va_subject = subject, va_product_tenant = ac_product_tenant command\<rparr>;
            reply = query_reply lib env db1 actor (ac_correlation_id command) in
        and_then (enqueue_reply lib env db1 command reply) (\<lambda>db2.
        and_then
          (ok_or ''persist JetStream status failed''
             (if te_status env
              then Option.bind (text_as_uuid lib subject_text) (\<lambda>subject.
                     upsert_status (status_values env command subject reply) db2)
              else None))
          (\<lambda>(_, db3). Ok db3)))
      else Ok db1))"

definition process_command ::
  "'x wire_lib_scheme \<Rightarrow> txn_env \<Rightarrow> database \<Rightarrow> async_command \<Rightarrow> (unit, string) result \<times> database" where
  "process_command lib env db command =
     (if \<not> te_begin env then (Err ''begin JetStream inbox transaction failed'', db)
      else case command_statements lib env db command of
             Inl e \<Rightarrow> (Err e, db)
           | Inr db' \<Rightarrow>
               (case te_commit env of
                  Commit_Done \<Rightarrow> (Ok (), db')
                | Commit_Lost \<Rightarrow> (Err ''commit JetStream inbox transaction failed'', db')
                | Commit_Fails \<Rightarrow> (Err ''commit JetStream inbox transaction failed'', db)))"

section \<open>Delivered messages\<close>

text \<open>A message ends acknowledged, terminated, or with the consumer stopped by an error.\<close>

datatype disposition = Acked | Terminated | Stopped string

record message_env =
  me_clock :: system_time
  me_ack :: bool
  me_txn :: txn_env

definition command_refused ::
  "'x wire_lib_scheme \<Rightarrow> rstring \<Rightarrow> u8 list \<Rightarrow> u64 \<Rightarrow> async_command \<Rightarrow> bool" where
  "command_refused lib product_tenant key now command \<longleftrightarrow>
     ac_product_tenant command \<noteq> product_tenant
     \<or> ac_product_tenant command \<noteq> oe_product_tenant (ac_operation command)
     \<or> oe_operation_id (ac_operation command) \<noteq> ac_correlation_id command
     \<or> \<not> bounded_dedupe_key (ac_dedupe_key command)
     \<or> \<not> verify_command_signature lib command key
     \<or> \<not> is_ok (validate_operation_envelope_at lib (ac_operation command) now)"

definition terminate_message :: "message_env \<Rightarrow> disposition" where
  "terminate_message env =
     (if me_ack env then Terminated else Stopped ''JetStream termination acknowledgement failed'')"

definition handle_message ::
  "'x wire_lib_scheme \<Rightarrow> rstring \<Rightarrow> u8 list \<Rightarrow> message_env \<Rightarrow> database \<Rightarrow> u8 list
     \<Rightarrow> disposition \<times> database" where
  "handle_message lib product_tenant key env db payload =
     (if MAX_NATS_PAYLOAD_BYTES < length payload then (terminate_message env, db)
      else case command_from_slice lib payload of
        None \<Rightarrow> (terminate_message env, db)
      | Some command \<Rightarrow>
          (case unix_ms (me_clock env) of
             None \<Rightarrow> (Stopped ''system clock is unavailable'', db)
           | Some now \<Rightarrow>
               if command_refused lib product_tenant key now command
               then (terminate_message env, db)
               else case process_command lib (me_txn env) db command of
                      (Inl e, db') \<Rightarrow> (Stopped e, db')
                    | (Inr _, db') \<Rightarrow>
                        (if me_ack env then Acked
                         else Stopped ''JetStream explicit acknowledgement failed'', db')))"

text \<open>
  The consumer loop over what the broker delivers: it ends with the first error, or when the
  delivery ends. It returns the dispositions of the messages, the error and the tables.
\<close>

datatype delivery = Message message_env "u8 list" | Delivery_Error

fun run_messages ::
  "'x wire_lib_scheme \<Rightarrow> rstring \<Rightarrow> u8 list \<Rightarrow> database \<Rightarrow> delivery list
     \<Rightarrow> disposition list \<times> string \<times> database" where
  "run_messages lib tenant key db [] = ([], ''JetStream command delivery ended'', db)"
| "run_messages lib tenant key db (Delivery_Error # ds) = ([], ''JetStream command delivery failed'', db)"
| "run_messages lib tenant key db (Message env payload # ds) =
     (case handle_message lib tenant key env db payload of
        (Stopped e, db') \<Rightarrow> ([Stopped e], e, db')
      | (d, db') \<Rightarrow>
          (case run_messages lib tenant key db' ds of (rest, e, db'') \<Rightarrow> (d # rest, e, db'')))"

section \<open>Facts about the transaction\<close>

text \<open>
  The tables agree: replies and status rows stand in the same order as the commands of the inbox,
  one each, with the same correlation and the reply's dedupe key derived from the command's.
\<close>

definition jet_inv :: "database \<Rightarrow> bool" where
  "jet_inv db \<longleftrightarrow> db_wf db \<and>
     map (\<lambda>r. (ob_correlation_id r, ob_dedupe_key r)) (db_outbox db)
       = map (\<lambda>r. (ib_correlation_id r, rs ''reply:'' @ ib_dedupe_key r)) (db_inbox db) \<and>
     map st_correlation_id (db_status db) = map ib_correlation_id (db_inbox db)"

lemma jet_inv_empty: "jet_inv empty_database"
  by (simp add: jet_inv_def db_wf_empty) (simp add: empty_database_def)

text \<open>What a command that was not seen before adds to the tables.\<close>

definition command_effect ::
  "'x wire_lib_scheme \<Rightarrow> txn_env \<Rightarrow> async_command \<Rightarrow> uuid \<Rightarrow> uuid \<Rightarrow> json \<Rightarrow> database \<Rightarrow> database" where
  "command_effect lib env c stored_subject subject payload db =
     (let db1 = db\<lparr>db_inbox := db_inbox db @ [inbox_values env c stored_subject]\<rparr>;
          reply = query_reply lib env db1
            \<lparr>va_subject = subject, va_product_tenant = ac_product_tenant c\<rparr> (ac_correlation_id c)
      in db\<lparr>db_inbox := db_inbox db @ [inbox_values env c stored_subject],
            db_outbox := db_outbox db @
              [outbox_values env c (reply_envelope (te_new_id env) c reply) payload],
            db_status := db_status db @ [status_values env c stored_subject reply]\<rparr>)"

text \<open>
  The inbox knows a command when one of its three identifiers is there; the insertion then reports a
  conflict, also for another command with the same identifier.
\<close>

definition command_recorded :: "async_command \<Rightarrow> database \<Rightarrow> bool" where
  "command_recorded c db \<longleftrightarrow>
     ac_event_id c \<in> ib_event_id ` set (db_inbox db)
     \<or> ac_correlation_id c \<in> ib_correlation_id ` set (db_inbox db)
     \<or> ac_dedupe_key c \<in> ib_dedupe_key ` set (db_inbox db)"

lemma inbox_conflict_values: "inbox_conflict (inbox_values env c s) db \<longleftrightarrow> command_recorded c db"
  by (simp add: inbox_conflict_def command_recorded_def inbox_values_def)

lemma jet_inv_keys:
  assumes inv: "jet_inv db"
  shows "ob_dedupe_key ` set (db_outbox db) = (\<lambda>r. rs ''reply:'' @ ib_dedupe_key r) ` set (db_inbox db)"
proof -
  have "map snd (map (\<lambda>r. (ob_correlation_id r, ob_dedupe_key r)) (db_outbox db))
      = map snd (map (\<lambda>r. (ib_correlation_id r, rs ''reply:'' @ ib_dedupe_key r)) (db_inbox db))"
    using inv unfolding jet_inv_def by (simp only:)
  then have "map ob_dedupe_key (db_outbox db) = map (\<lambda>r. rs ''reply:'' @ ib_dedupe_key r) (db_inbox db)"
    by (simp add: o_def del: rs_simps)
  then show ?thesis by (metis list.set_map)
qed

lemma jet_inv_fresh:
  assumes inv: "jet_inv db" and new: "\<not> command_recorded c db"
  shows "rs ''reply:'' @ ac_dedupe_key c \<notin> ob_dedupe_key ` set (db_outbox db)"
    and "ac_correlation_id c \<notin> st_correlation_id ` set (db_status db)"
proof -
  have "ob_dedupe_key ` set (db_outbox db) = (\<lambda>r. rs ''reply:'' @ ib_dedupe_key r) ` set (db_inbox db)"
    using inv by (rule jet_inv_keys)
  then show "rs ''reply:'' @ ac_dedupe_key c \<notin> ob_dedupe_key ` set (db_outbox db)"
    using new by (auto simp: command_recorded_def)
  have "st_correlation_id ` set (db_status db) = ib_correlation_id ` set (db_inbox db)"
    using inv by (metis jet_inv_def list.set_map)
  then show "ac_correlation_id c \<notin> st_correlation_id ` set (db_status db)"
    using new by (auto simp: command_recorded_def)
qed

text \<open>The payload of a reply as the column keeps it.\<close>

definition stored_payload :: "'x wire_lib_scheme \<Rightarrow> event_envelope \<Rightarrow> json option" where
  "stored_payload lib e = Option.bind (event_to_value lib e) (jsonb_value lib)"

text \<open>The reply that the transaction of a new command makes.\<close>

definition command_reply ::
  "'x wire_lib_scheme \<Rightarrow> txn_env \<Rightarrow> async_command \<Rightarrow> uuid \<Rightarrow> uuid \<Rightarrow> database \<Rightarrow> operation_reply" where
  "command_reply lib env c stored_subject subject db =
     query_reply lib env (db\<lparr>db_inbox := db_inbox db @ [inbox_values env c stored_subject]\<rparr>)
       \<lparr>va_subject = subject, va_product_tenant = ac_product_tenant c\<rparr> (ac_correlation_id c)"

lemma enqueue_reply_Ok:
  assumes "enqueue_reply lib env db c reply = Inr db'"
    and "rs ''reply:'' @ ac_dedupe_key c \<notin> ob_dedupe_key ` set (db_outbox db)"
  shows "\<exists>payload. stored_payload lib (reply_envelope (te_new_id env) c reply) = Some payload \<and>
    te_new_id env \<notin> ob_event_id ` set (db_outbox db) \<and>
    outbox_check (outbox_values env c (reply_envelope (te_new_id env) c reply) payload) \<and>
    db' = db\<lparr>db_outbox := db_outbox db @ [outbox_values env c (reply_envelope (te_new_id env) c reply) payload]\<rparr>"
  using assms unfolding enqueue_reply_def insert_outbox_def Let_def
  by (auto simp: stored_payload_def Option.bind_eq_Some_conv outbox_values_def reply_envelope_def simp del: rs_simps
      split: if_splits)

lemma command_statements_cases:
  assumes "command_statements lib env db c = Inr db'"
  obtains (duplicate) s n where "text_as_uuid lib (oe_actor_subject (ac_operation c)) = Some s"
      "insert_inbox (inbox_values env c s) db = Some (n, db')" "n \<noteq> 1"
  | (fresh) s u db1 reply db2 m where "text_as_uuid lib (oe_actor_subject (ac_operation c)) = Some s"
      "insert_inbox (inbox_values env c s) db = Some (1, db1)"
      "uuid_parse_str lib (oe_actor_subject (ac_operation c)) = Some u"
      "reply = query_reply lib env db1 \<lparr>va_subject = u, va_product_tenant = ac_product_tenant c\<rparr> (ac_correlation_id c)"
      "enqueue_reply lib env db1 c reply = Inr db2"
      "upsert_status (status_values env c s reply) db2 = Some (m, db')"
  using assms unfolding command_statements_def Let_def
  by (auto simp: Option.bind_eq_Some_conv split: if_splits)

lemma insert_inbox_values:
  "insert_inbox (inbox_values env c s) db = Some (n, db') \<longleftrightarrow>
     inbox_check (inbox_values env c s) \<and>
     (if command_recorded c db then n = 0 \<and> db' = db
      else n = 1 \<and> db' = db\<lparr>db_inbox := db_inbox db @ [inbox_values env c s]\<rparr>)"
  by (auto simp: insert_inbox_def inbox_conflict_values)

text \<open>A transaction's statements either find the command recorded and change nothing, or add its effect.\<close>

lemma command_statements_Ok:
  assumes inv: "jet_inv db" and ok: "command_statements lib env db c = Inr db'"
  shows "(command_recorded c db \<and> db' = db) \<or>
    (\<not> command_recorded c db \<and> (\<exists>s u payload. text_as_uuid lib (oe_actor_subject (ac_operation c)) = Some s
       \<and> uuid_parse_str lib (oe_actor_subject (ac_operation c)) = Some u
       \<and> inbox_check (inbox_values env c s)
       \<and> te_new_id env \<notin> ob_event_id ` set (db_outbox db)
       \<and> db' = command_effect lib env c s u payload db
       \<and> db_wf db'
       \<and> stored_payload lib (reply_envelope (te_new_id env) c (command_reply lib env c s u db)) = Some payload))"
  using ok
proof (cases rule: command_statements_cases)
  case (duplicate s n)
  then show ?thesis by (auto simp: insert_inbox_values split: if_splits)
next
  case (fresh s u db1 reply db2 m)
  have new: "\<not> command_recorded c db" and check: "inbox_check (inbox_values env c s)"
    and db1: "db1 = db\<lparr>db_inbox := db_inbox db @ [inbox_values env c s]\<rparr>"
    using fresh(2) by (auto simp: insert_inbox_values split: if_splits)
  let ?row = "\<lambda>payload. outbox_values env c (reply_envelope (te_new_id env) c reply) payload"
  have key: "rs ''reply:'' @ ac_dedupe_key c \<notin> ob_dedupe_key ` set (db_outbox db1)"
    using jet_inv_fresh(1) [OF inv new] by (simp add: db1)
  from enqueue_reply_Ok [OF fresh(5) key] obtain payload where
    out: "te_new_id env \<notin> ob_event_id ` set (db_outbox db)" "outbox_check (?row payload)"
      "stored_payload lib (reply_envelope (te_new_id env) c reply) = Some payload"
    and db2: "db2 = db1\<lparr>db_outbox := db_outbox db @ [?row payload]\<rparr>"
    by (auto simp: db1)
  have "ac_correlation_id c \<notin> st_correlation_id ` set (db_status db2)"
    using jet_inv_fresh(2) [OF inv new] by (simp add: db1 db2)
  with fresh(6) have db': "db' = db2\<lparr>db_status := db_status db @ [status_values env c s reply]\<rparr>"
    by (auto simp: upsert_status_def status_values_def db1 db2 split: if_splits)
  have eff: "db' = command_effect lib env c s u payload db"
    unfolding command_effect_def Let_def db' db2 db1 fresh(4) by simp
  have "db_wf db1" using insert_inbox_wf [OF _ fresh(2)] inv by (simp add: jet_inv_def)
  moreover have "insert_outbox (?row payload) db1 = Some (1, db2)"
    using out(1,2) key by (simp add: insert_outbox_def db2 db1 outbox_values_def reply_envelope_def)
  ultimately have "db_wf db'" using insert_outbox_wf upsert_status_wf fresh(6) by blast
  moreover have "reply = command_reply lib env c s u db" unfolding fresh(4) db1 command_reply_def ..
  ultimately show ?thesis using new fresh(1,3) check out(1,3) eff by blast
qed

lemma command_effect_facts:
  assumes inv: "jet_inv db" and wf: "db_wf (command_effect lib env c s u payload db)"
  shows "jet_inv (command_effect lib env c s u payload db)"
    and "command_recorded c (command_effect lib env c s u payload db)"
    and "db_alert_rules (command_effect lib env c s u payload db) = db_alert_rules db"
    and "\<not> command_recorded c db \<Longrightarrow> command_effect lib env c s u payload db \<noteq> db"
proof -
  show "jet_inv (command_effect lib env c s u payload db)"
    using assms unfolding jet_inv_def
    by (simp add: command_effect_def Let_def outbox_values_def inbox_values_def status_values_def
        reply_envelope_def del: rs_simps)
  show "command_recorded c (command_effect lib env c s u payload db)"
    by (simp add: command_recorded_def command_effect_def inbox_values_def Let_def)
  show "db_alert_rules (command_effect lib env c s u payload db) = db_alert_rules db"
    by (simp add: command_effect_def Let_def)
  then show "command_effect lib env c s u payload db \<noteq> db" if "\<not> command_recorded c db"
    using that \<open>command_recorded c (command_effect lib env c s u payload db)\<close> by auto
qed

text \<open>
  A command's transaction from outside: nothing changed, or the command was new and its whole
  effect was stored. Success means the command is recorded.
\<close>

lemma process_command_cases:
  assumes inv: "jet_inv db" and run: "process_command lib env db c = (r, db')"
  obtains (unchanged) "db' = db" "r = Inr () \<Longrightarrow> command_recorded c db"
  | (stored) s u payload where "\<not> command_recorded c db"
      "text_as_uuid lib (oe_actor_subject (ac_operation c)) = Some s"
      "uuid_parse_str lib (oe_actor_subject (ac_operation c)) = Some u"
      "inbox_check (inbox_values env c s)" "te_new_id env \<notin> ob_event_id ` set (db_outbox db)"
      "db' = command_effect lib env c s u payload db" "db_wf db'"
      "r = Inr () \<or> te_commit env = Commit_Lost"
      "stored_payload lib (reply_envelope (te_new_id env) c (command_reply lib env c s u db)) = Some payload"
proof (cases "command_statements lib env db c")
  case (Inl e)
  with run have "db' = db" "r \<noteq> Inr ()" by (auto simp: process_command_def split: if_splits)
  then show ?thesis using unchanged by blast
next
  case (Inr db'')
  show ?thesis
  proof (cases "te_begin env \<and> te_commit env \<noteq> Commit_Fails")
    case False
    with run Inr have "db' = db" "r \<noteq> Inr ()"
      by (auto simp: process_command_def split: if_splits commit_outcome.splits)
    then show ?thesis using unchanged by blast
  next
    case True
    with run Inr have db': "db' = db''" and r: "r = Inr () \<or> te_commit env = Commit_Lost"
      by (auto simp: process_command_def split: if_splits commit_outcome.splits)
    from command_statements_Ok [OF inv Inr] show ?thesis
    proof (elim disjE conjE exE)
      assume "command_recorded c db" "db'' = db"
      then show ?thesis using unchanged db' by blast
    next
      fix s u payload
      assume "\<not> command_recorded c db" "text_as_uuid lib (oe_actor_subject (ac_operation c)) = Some s"
        "uuid_parse_str lib (oe_actor_subject (ac_operation c)) = Some u"
        "inbox_check (inbox_values env c s)" "te_new_id env \<notin> ob_event_id ` set (db_outbox db)"
        "db'' = command_effect lib env c s u payload db" "db_wf db''"
        "stored_payload lib (reply_envelope (te_new_id env) c (command_reply lib env c s u db)) = Some payload"
      then show ?thesis using stored db' r by blast
    qed
  qed
qed

lemma process_command_inv:
  assumes "jet_inv db" and "process_command lib env db c = (r, db')"
  shows "jet_inv db'" and "r = Inr () \<Longrightarrow> command_recorded c db'"
    and "db_alert_rules db' = db_alert_rules db"
    and "\<exists>new. db_inbox db' = db_inbox db @ new"
    and "\<exists>new. db_outbox db' = db_outbox db @ new \<and> (\<forall>q \<in> set new. ob_published_at q = None)"
proof -
  have "jet_inv db' \<and> (r = Inr () \<longrightarrow> command_recorded c db') \<and> db_alert_rules db' = db_alert_rules db
    \<and> (\<exists>new. db_inbox db' = db_inbox db @ new)
    \<and> (\<exists>new. db_outbox db' = db_outbox db @ new \<and> (\<forall>q \<in> set new. ob_published_at q = None))"
    using assms
  proof (cases rule: process_command_cases [OF assms])
    case 1
    with assms(1) show ?thesis by simp
  next
    case (2 s u payload)
    have "\<exists>new. db_inbox db' = db_inbox db @ new"
      "\<exists>new. db_outbox db' = db_outbox db @ new \<and> (\<forall>q \<in> set new. ob_published_at q = None)"
      by (simp_all add: \<open>db' = command_effect lib env c s u payload db\<close> command_effect_def Let_def outbox_values_def)
    with command_effect_facts [OF assms(1), of lib env c s u payload] 2 show ?thesis by simp
  qed
  then show "jet_inv db'" "r = Inr () \<Longrightarrow> command_recorded c db'"
    "db_alert_rules db' = db_alert_rules db" "\<exists>new. db_inbox db' = db_inbox db @ new"
    "\<exists>new. db_outbox db' = db_outbox db @ new \<and> (\<forall>q \<in> set new. ob_published_at q = None)" by blast+
qed

lemma command_recorded_mono:
  "command_recorded c db \<Longrightarrow> db_inbox db' = db_inbox db @ new \<Longrightarrow> command_recorded c db'"
  by (auto simp: command_recorded_def)

section \<open>Facts about delivered messages\<close>

lemma accepted_command:
  assumes "\<not> command_refused lib tenant key now c"
  shows "ac_product_tenant c = tenant" "oe_product_tenant (ac_operation c) = tenant"
    "oe_operation_id (ac_operation c) = ac_correlation_id c"
    "bounded_tenant tenant" "bounded_dedupe_key (ac_dedupe_key c)"
    "verify_command_signature lib c key" "oe_operation (ac_operation c) = rs ''list_alerts''"
    "\<exists>u. uuid_parse_str lib (oe_actor_subject (ac_operation c)) = Some u"
    "unat now \<le> unat (oe_deadline_unix_ms (ac_operation c))"
    "unat (oe_deadline_unix_ms (ac_operation c)) \<le> unat now + 15000"
proof -
  have "validate_operation_envelope_at lib (ac_operation c) now = Inr ()"
    using assms by (cases "validate_operation_envelope_at lib (ac_operation c) now") (auto simp: command_refused_def)
  note env = this [unfolded validate_operation_envelope_at_Ok_iff]
  show t: "ac_product_tenant c = tenant" "oe_product_tenant (ac_operation c) = tenant"
    "oe_operation_id (ac_operation c) = ac_correlation_id c" "bounded_dedupe_key (ac_dedupe_key c)"
    "verify_command_signature lib c key"
    using assms by (auto simp: command_refused_def)
  show "oe_operation (ac_operation c) = rs ''list_alerts''"
    "\<exists>u. uuid_parse_str lib (oe_actor_subject (ac_operation c)) = Some u"
    "unat now \<le> unat (oe_deadline_unix_ms (ac_operation c))"
    "unat (oe_deadline_unix_ms (ac_operation c)) \<le> unat now + 15000" "bounded_tenant tenant"
    using env t(2) by auto
qed

lemma accepted_command_newline_free:
  assumes "uuid_laws lib" and "\<not> command_refused lib tenant key now c"
  shows "newline_free c"
  unfolding newline_free_def
  using accepted_command [OF assms(2)] tenant.token_no_newline dedupe.token_no_newline uuid_lawsD(3) [OF assms(1)]
  by auto

lemma query_reply_status: "or_status (query_reply lib env db actor i) \<in> {rs ''completed'', rs ''rejected''}"
  by (auto simp: query_reply_def error_reply_def split: read_outcome.splits sum.splits)

text \<open>What passes the checks of the consumer satisfies the constraints of the three tables.\<close>

lemma accepted_command_checks:
  assumes "\<not> command_refused lib tenant key now c"
  shows "inbox_check (inbox_values env c s)"
    and "outbox_check (outbox_values env c (reply_envelope i c reply) payload)"
    and "or_status reply \<in> {rs ''completed'', rs ''rejected''} \<Longrightarrow> status_check (status_values env c s reply)"
  using tenant.token_length [of tenant] dedupe.token_length [of "ac_dedupe_key c"] accepted_command [OF assms]
  by (simp_all add: inbox_check_def inbox_values_def outbox_check_def outbox_values_def reply_envelope_def
      status_check_def status_values_def length_between_def reply_subject_def)

lemma handle_message_cases:
  assumes run: "handle_message lib tenant key env db payload = (d, db')"
  obtains (terminated) "d = terminate_message env" "db' = db"
  | (no_clock) "d = Stopped ''system clock is unavailable''" "db' = db"
  | (processed) command now r where "length payload \<le> MAX_NATS_PAYLOAD_BYTES"
      "command_from_slice lib payload = Some command" "unix_ms (me_clock env) = Some now"
      "\<not> command_refused lib tenant key now command"
      "process_command lib (me_txn env) db command = (r, db')" "d = Acked \<Longrightarrow> r = Inr ()"
proof -
  show ?thesis
  proof (cases "MAX_NATS_PAYLOAD_BYTES < length payload \<or> command_from_slice lib payload = None")
    case True
    with run show ?thesis by (intro terminated) (auto simp: handle_message_def split: if_splits)
  next
    case False
    then obtain command where c: "command_from_slice lib payload = Some command"
      "length payload \<le> MAX_NATS_PAYLOAD_BYTES" by auto
    show ?thesis
    proof (cases "unix_ms (me_clock env)")
      case None
      with run c show ?thesis by (intro no_clock) (auto simp: handle_message_def)
    next
      case (Some now)
      obtain r db1 where p: "process_command lib (me_txn env) db command = (r, db1)" by fastforce
      show ?thesis
      proof (cases "command_refused lib tenant key now command")
        case True
        with run c Some show ?thesis by (intro terminated) (auto simp: handle_message_def)
      next
        case False
        with run c Some p show ?thesis
          by (intro processed [of command now r]) (auto simp: handle_message_def split: sum.splits)
      qed
    qed
  qed
qed

lemma terminate_message_not_acked: "terminate_message env \<noteq> Acked"
  by (simp add: terminate_message_def)

lemma handle_message_inv:
  assumes "jet_inv db" and run: "handle_message lib tenant key env db payload = (d, db')"
  shows "jet_inv db'" and "\<exists>new. db_inbox db' = db_inbox db @ new"
    and "d = Acked \<Longrightarrow> \<exists>c. command_from_slice lib payload = Some c \<and> command_recorded c db'"
    and "db_alert_rules db' = db_alert_rules db" and "\<exists>new. db_outbox db' = db_outbox db @ new \<and> (\<forall>q \<in> set new. ob_published_at q = None)"
proof -
  have "jet_inv db' \<and> (\<exists>new. db_inbox db' = db_inbox db @ new)
    \<and> (d = Acked \<longrightarrow> (\<exists>c. command_from_slice lib payload = Some c \<and> command_recorded c db'))
    \<and> db_alert_rules db' = db_alert_rules db \<and> (\<exists>new. db_outbox db' = db_outbox db @ new \<and> (\<forall>q \<in> set new. ob_published_at q = None))"
    using run
  proof (cases rule: handle_message_cases)
    case terminated
    with assms(1) terminate_message_not_acked show ?thesis by simp
  next
    case no_clock
    with assms(1) show ?thesis by simp
  next
    case (processed command now r)
    with process_command_inv [OF assms(1) processed(5)] show ?thesis by blast
  qed
  then show "jet_inv db'" "\<exists>new. db_inbox db' = db_inbox db @ new"
    "d = Acked \<Longrightarrow> \<exists>c. command_from_slice lib payload = Some c \<and> command_recorded c db'"
    "db_alert_rules db' = db_alert_rules db" "\<exists>new. db_outbox db' = db_outbox db @ new \<and> (\<forall>q \<in> set new. ob_published_at q = None)" by blast+
qed

text \<open>
  Over any sequence of deliveries, with failures anywhere, the inbox only grows and every message
  that was acknowledged carried a command that the tables record at the end.
\<close>

lemma run_messages_inv:
  assumes "jet_inv db" and "run_messages lib tenant key db ds = (dispositions, e, db')"
  shows "jet_inv db' \<and> (\<exists>new. db_inbox db' = db_inbox db @ new) \<and>
    (\<forall>i < length dispositions. dispositions ! i = Acked \<longrightarrow>
       (\<exists>env payload c. ds ! i = Message env payload \<and> command_from_slice lib payload = Some c \<and> command_recorded c db'))"
  using assms
proof (induction ds arbitrary: db dispositions)
  case (Cons d ds)
  show ?case
  proof (cases d)
    case Delivery_Error
    with Cons.prems show ?thesis by simp
  next
    case (Message env payload)
    obtain dp db1 where h: "handle_message lib tenant key env db payload = (dp, db1)" by fastforce
    note inv1 = handle_message_inv [OF Cons.prems(1) h]
    show ?thesis
    proof (cases "\<exists>x. dp = Stopped x")
      case True
      with Cons.prems(2) h inv1 Message show ?thesis by auto
    next
      case False
      obtain rest e' db2 where r: "run_messages lib tenant key db1 ds = (rest, e', db2)"
        using prod_cases3 by blast
      with Cons.prems(2) h False Message have out: "dispositions = dp # rest" "db' = db2" "e = e'"
        by (auto split: disposition.splits)
      from Cons.IH [OF inv1(1)] r out have ih: "jet_inv db'" "\<exists>new. db_inbox db' = db_inbox db1 @ new"
        "\<forall>i < length rest. rest ! i = Acked \<longrightarrow>
           (\<exists>env payload c. ds ! i = Message env payload \<and> command_from_slice lib payload = Some c \<and> command_recorded c db')"
        by auto
      have "\<exists>new. db_inbox db' = db_inbox db @ new" using ih(2) inv1(2) by auto
      moreover have "\<exists>env payload c. (d # ds) ! i = Message env payload \<and> command_from_slice lib payload = Some c
          \<and> command_recorded c db'" if "i < length dispositions" "dispositions ! i = Acked" for i
      proof (cases i)
        case 0
        with that out have "dp = Acked" by simp
        with inv1(3) ih(2) command_recorded_mono show ?thesis using 0 Message by fastforce
      next
        case (Suc j)
        with that out ih(3) show ?thesis by auto
      qed
      ultimately show ?thesis using ih(1) by blast
    qed
  qed
qed simp

text \<open>A command that shares an identifier with the inbox, on any tables.\<close>

lemma recorded_command_changes_nothing:
  assumes "command_recorded c db"
  shows "snd (process_command lib env db c) = db"
proof -
  have "db' = db" if "command_statements lib env db c = Inr db'" for db'
    using that
  proof (cases rule: command_statements_cases)
    case (fresh s u db1 reply db2 m)
    with assms show ?thesis by (simp add: insert_inbox_values)
  qed (use assms in \<open>auto simp: insert_inbox_values split: if_splits\<close>)
  then show ?thesis by (auto simp: process_command_def split: sum.split commit_outcome.split)
qed

lemma enqueue_reply_inbox: "enqueue_reply lib env db c reply = Inr db' \<Longrightarrow> db_inbox db' = db_inbox db"
  by (auto simp: enqueue_reply_def insert_outbox_def Let_def Option.bind_eq_Some_conv split: if_splits)

lemma process_command_recorded:
  assumes "process_command lib env db c = (Inr (), db')"
  shows "command_recorded c db'"
proof -
  have "command_statements lib env db c = Inr db'"
    using assms by (auto simp: process_command_def split: if_splits sum.splits commit_outcome.splits)
  then show ?thesis
  proof (cases rule: command_statements_cases)
    case (duplicate s n)
    then show ?thesis by (auto simp: insert_inbox_values split: if_splits)
  next
    case (fresh s u db1 reply db2 m)
    have "db_inbox db' = db_inbox db @ [inbox_values env c s]"
      using fresh(2,6) enqueue_reply_inbox [OF fresh(5)]
      by (auto simp: insert_inbox_values upsert_status_def split: if_splits)
    then show ?thesis by (simp add: command_recorded_def inbox_values_def)
  qed
qed

lemma process_new_command:
  assumes "jet_inv db" and "db_invar lib db" and "\<not> command_refused lib tenant key now c"
    and "\<not> command_recorded c db" and "te_begin env" and "te_inbox env" and "te_read env = Read_Answers"
    and "te_outbox env" and "te_status env" and "te_commit env = Commit_Done"
    and "te_new_id env \<notin> ob_event_id ` set (db_outbox db)"
    and "text_as_uuid lib (oe_actor_subject (ac_operation c)) = Some s"
    and "\<forall>e. stored_payload lib e \<noteq> None"
  shows "\<exists>u alerts payload.
    uuid_parse_str lib (oe_actor_subject (ac_operation c)) = Some u
    \<and> read_alerts lib True db \<lparr>va_subject = u, va_product_tenant = tenant\<rparr> = Ok alerts
    \<and> stored_payload lib (reply_envelope (te_new_id env) c
        \<lparr>or_operation_id = ac_correlation_id c, or_status = rs ''completed'',
         or_result = Some (alerts_to_json lib alerts), or_error = None\<rparr>) = Some payload
    \<and> process_command lib env db c = (Ok (), command_effect lib env c s u payload db)"
proof -
  obtain u where u: "uuid_parse_str lib (oe_actor_subject (ac_operation c)) = Some u"
    using accepted_command(8) [OF assms(3)] by blast
  let ?actor = "\<lparr>va_subject = u, va_product_tenant = tenant\<rparr>"
  obtain alerts where alerts: "read_alerts lib True db ?actor = Inr alerts"
    using read_alerts_succeeds [OF assms(2)] by blast
  let ?db1 = "db\<lparr>db_inbox := db_inbox db @ [inbox_values env c s]\<rparr>"
  let ?reply = "\<lparr>or_operation_id = ac_correlation_id c, or_status = rs ''completed'',
         or_result = Some (alerts_to_json lib alerts), or_error = None\<rparr>"
  let ?e = "reply_envelope (te_new_id env) c ?reply"
  obtain payload where payload: "stored_payload lib ?e = Some payload" using assms(13) by blast
  have "read_alerts lib True ?db1 ?actor = Inr alerts"
    using alerts by (simp add: read_alerts_def direct_alerts_def)
  then have reply: "query_reply lib env ?db1 ?actor (ac_correlation_id c) = ?reply"
    using assms(7) by (simp add: query_reply_def)
  have inbox: "insert_inbox (inbox_values env c s) db = Some (1, ?db1)"
    using accepted_command_checks(1) [OF assms(3)] assms(4) by (simp add: insert_inbox_def inbox_conflict_values)
  let ?db2 = "?db1\<lparr>db_outbox := db_outbox db @ [outbox_values env c ?e payload]\<rparr>"
  have "ob_dedupe_key (outbox_values env c ?e payload) \<notin> ob_dedupe_key ` set (db_outbox db)"
    using jet_inv_fresh(1) [OF assms(1,4)] by (simp add: outbox_values_def reply_envelope_def)
  then have "insert_outbox (outbox_values env c ?e payload) ?db1 = Some (1, ?db2)"
    using accepted_command_checks(2) [OF assms(3)] assms(11) by (simp add: insert_outbox_def) (simp add: outbox_values_def)
  then have enq: "enqueue_reply lib env ?db1 c ?reply = Inr ?db2"
    using assms(8) payload by (auto simp: enqueue_reply_def Let_def stored_payload_def Option.bind_eq_Some_conv)
  have "st_correlation_id (status_values env c s ?reply) \<notin> st_correlation_id ` set (db_status db)"
    using jet_inv_fresh(2) [OF assms(1,4)] by (simp add: status_values_def)
  then have status: "upsert_status (status_values env c s ?reply) ?db2
      = Some (1, ?db2\<lparr>db_status := db_status db @ [status_values env c s ?reply]\<rparr>)"
    using accepted_command_checks(3) [OF assms(3), of ?reply] by (simp add: upsert_status_def)
  have "command_statements lib env db c = Inr (command_effect lib env c s u payload db)"
    using assms(6,9,12) u inbox enq status reply accepted_command(1) [OF assms(3)]
    by (simp add: command_statements_def command_effect_def Let_def del: rs_simps)
  then have "process_command lib env db c = (Inr (), command_effect lib env c s u payload db)"
    using assms(5,10) by (simp add: process_command_def)
  with u alerts payload show ?thesis by blast
qed

text \<open>
  The consumer ends with the first failure of the database: whatever is delivered after it is not
  handled by this run.
\<close>

lemma database_failure_stops_the_consumer:
  assumes "length payload \<le> MAX_NATS_PAYLOAD_BYTES" and "command_from_slice lib payload = Some c"
    and "unix_ms (me_clock env) = Some now" and "\<not> command_refused lib tenant key now c"
    and "\<not> te_begin (me_txn env)"
  shows "run_messages lib tenant key db (Message env payload # ds)
    = ([Stopped ''begin JetStream inbox transaction failed''], ''begin JetStream inbox transaction failed'', db)"
  using assms by (simp add: handle_message_def process_command_def)

text \<open>
  Unforgeability of the message authentication, for one message: if it decodes to a command whose
  signature verifies, the text it signs is that of a command in the set of signed ones.
\<close>

definition no_forgery :: "'x wire_lib_scheme \<Rightarrow> u8 list \<Rightarrow> async_command set \<Rightarrow> u8 list \<Rightarrow> bool" where
  "no_forgery lib key issued payload \<longleftrightarrow>
     (\<forall>c. command_from_slice lib payload = Some c \<and> verify_command_signature lib c key \<longrightarrow>
        (\<exists>d \<in> issued. as_bytes (command_signing_bytes lib d) = as_bytes (command_signing_bytes lib c)))"

section \<open>Sample data\<close>

definition sample_txn :: txn_env where
  "sample_txn = \<lparr>te_begin = True, te_inbox = True, te_read = Read_Answers, te_outbox = True,
     te_status = True, te_commit = Commit_Done, te_new_id = 11, te_now = 42000\<rparr>"

definition sample_delivery :: message_env where
  "sample_delivery = \<lparr>me_clock = sample_clock, me_ack = True, me_txn = sample_txn\<rparr>"

lemma sample_clock_ms: "unix_ms sample_clock = Some 2000000002000"
  by (simp add: unix_ms_def duration_since_epoch_def sample_clock_def u64_try_from_or_max_def nat_div_distrib)

lemma sample_command_accepted:
  "\<not> command_refused sample_wire_lib (rs ''embedded-alerts'') sample_key 2000000002000 sample_command"
proof -
  have fields: "ac_product_tenant sample_command = rs ''embedded-alerts''" "ac_operation sample_command = sample_operation"
    "ac_correlation_id sample_command = 5" "ac_dedupe_key sample_command = rs ''list-alerts:5''"
    "oe_product_tenant sample_operation = rs ''embedded-alerts''" "oe_operation_id sample_operation = 5"
    by (simp_all add: sample_command_def unsigned_command_def sample_operation_def)
  have "verify_command_signature sample_wire_lib sample_command sample_key"
    unfolding verify_command_signature_iff [OF sample_wire_lib_laws(5)]
    using sample_tokens(3) sample_signing_bytes [of sample_command]
    by (simp add: sample_command_def) (simp add: sample_wire_lib_def)
  then show ?thesis
    unfolding command_refused_def fields
    using sample_tokens(2) sample_operation_valid [OF sample_wire_lib_laws(2)] by simp
qed

lemma sample_command_decodes:
  "command_from_slice sample_wire_lib [1] = Some sample_command"
  "text_as_uuid sample_wire_lib (oe_actor_subject (ac_operation sample_command)) = Some 1"
  "uuid_parse_str sample_wire_lib (oe_actor_subject (ac_operation sample_command)) = Some 1"
  by (simp_all add: sample_wire_lib_def sample_command_def unsigned_command_def sample_operation_def
      uuid_parse_str_ref_inverse)

lemma db_invar_empty: "db_invar lib empty_database"
  by (simp add: db_invar_def db_wf_empty) (simp add: empty_database_def)

lemma sample_command_new: "\<not> command_recorded sample_command empty_database"
  by (simp add: command_recorded_def empty_database_def)

lemma sample_stored_payload: "stored_payload sample_wire_lib e = Some (JString (ee_dedupe_key e))"
  by (simp add: stored_payload_def sample_wire_lib_def)

lemma sample_processed:
  obtains payload where "process_command sample_wire_lib sample_txn empty_database sample_command
     = (Inr (), command_effect sample_wire_lib sample_txn sample_command 1 1 payload empty_database)"
  using process_new_command [OF jet_inv_empty db_invar_empty sample_command_accepted sample_command_new,
      of sample_txn 1] sample_command_decodes(2,3) sample_stored_payload
  by (auto simp: sample_txn_def empty_database_def)

section \<open>Properties\<close>

text \<open>
  C5. The transaction of a command is atomic: afterwards the tables are unchanged or hold the
  command, the reply its query made and its status together, for a command none of whose three
  identifiers was in the inbox before. An error leaves the tables unchanged unless it is the report
  of a commit that took place, and success means that one of the identifiers is in the inbox. The
  alert table is never touched, and the three transport tables stay aligned.
\<close>

theorem command_transaction_is_atomic:
  assumes "jet_inv db" and "process_command lib env db c = (r, db')"
  shows "jet_inv db' \<and> db_alert_rules db' = db_alert_rules db
    \<and> (r = Ok () \<longrightarrow> command_recorded c db')
    \<and> (r \<noteq> Ok () \<and> te_commit env \<noteq> Commit_Lost \<longrightarrow> db' = db)
    \<and> (db' = db \<or> \<not> command_recorded c db
         \<and> (\<exists>s u payload. text_as_uuid lib (oe_actor_subject (ac_operation c)) = Some s
              \<and> uuid_parse_str lib (oe_actor_subject (ac_operation c)) = Some u
              \<and> stored_payload lib (reply_envelope (te_new_id env) c (command_reply lib env c s u db)) = Some payload
              \<and> db' = command_effect lib env c s u payload db))"
  using assms
proof (cases rule: process_command_cases [OF assms])
  case 1
  with assms process_command_inv [OF assms] show ?thesis by simp
next
  case (2 s u payload)
  with process_command_inv [OF assms] show ?thesis by auto
qed

theorem command_transaction_is_atomic_witness:
  "\<exists>db'. process_command sample_wire_lib sample_txn empty_database sample_command = (Ok (), db')
     \<and> command_recorded sample_command db' \<and> jet_inv db'"
proof -
  obtain payload where "process_command sample_wire_lib sample_txn empty_database sample_command
     = (Ok (), command_effect sample_wire_lib sample_txn sample_command 1 1 payload empty_database)"
    by (rule sample_processed)
  with command_transaction_is_atomic [OF jet_inv_empty this] show ?thesis by blast
qed

text \<open>
  C4. Redelivery is idempotent: once a command was processed successfully, processing it again,
  whatever the environment does, changes no table; and it succeeds when the database answers,
  so that the broker gets its acknowledgement. Nothing needs to hold of the tables but that the
  inbox only grew between the two deliveries.
\<close>

theorem redelivery_is_idempotent:
  assumes "process_command lib env db c = (Ok (), db1)" and "db_inbox db2 = db_inbox db1 @ later"
  shows "snd (process_command lib env' db2 c) = db2
    \<and> (te_begin env' \<and> te_inbox env' \<and> te_commit env' = Commit_Done
         \<longrightarrow> process_command lib env' db2 c = (Ok (), db2))"
proof -
  have rec: "command_recorded c db2"
    using process_command_recorded [OF assms(1)] assms(2) command_recorded_mono by blast
  obtain s n d where s: "text_as_uuid lib (oe_actor_subject (ac_operation c)) = Some s"
    and ins: "insert_inbox (inbox_values env c s) db = Some (n, d)"
    using assms(1) by (auto simp: process_command_def command_statements_def Let_def Option.bind_eq_Some_conv
        split: if_splits sum.splits)
  have "inbox_check (inbox_values env' c s)"
    using ins by (auto simp: insert_inbox_def inbox_check_def inbox_values_def split: if_splits)
  then have "insert_inbox (inbox_values env' c s) db2 = Some (0, db2)"
    using rec by (simp add: insert_inbox_def inbox_conflict_values)
  then have "process_command lib env' db2 c = (Inr (), db2)"
    if "te_begin env'" "te_inbox env'" "te_commit env' = Commit_Done"
    using that s by (simp add: process_command_def command_statements_def Let_def)
  with recorded_command_changes_nothing [OF rec] show ?thesis by blast
qed

theorem redelivery_is_idempotent_witness:
  "\<exists>db'. process_command sample_wire_lib sample_txn empty_database sample_command = (Ok (), db')
     \<and> process_command sample_wire_lib (sample_txn\<lparr>te_new_id := 12\<rparr>) db' sample_command = (Ok (), db')"
proof -
  obtain payload where run: "process_command sample_wire_lib sample_txn empty_database sample_command
     = (Ok (), command_effect sample_wire_lib sample_txn sample_command 1 1 payload empty_database)"
    by (rule sample_processed)
  from redelivery_is_idempotent [OF run, of _ "[]"
      "sample_txn\<lparr>te_new_id := 12\<rparr>"] run
  show ?thesis by (auto simp: sample_txn_def)
qed

text \<open>
  C7. Without a cast no command is ever answered: the statements assign the actor subject, bound as a
  text, to columns of type \<open>uuid\<close>, and PostgreSQL documents that such an assignment is refused. Then,
  whatever is delivered and whatever the environment does, no message is acknowledged and no table
  changes, and the first command that passes the checks stops the consumer with an error, at the
  latest at its first statement.
\<close>

theorem commands_fail_without_a_cast:
  assumes "\<forall>t. text_as_uuid lib t = None"
  shows "Acked \<notin> set (fst (run_messages lib tenant key db ds)) \<and> snd (snd (run_messages lib tenant key db ds)) = db
    \<and> (\<forall>env payload c now. length payload \<le> 262144 \<and> command_from_slice lib payload = Some c
         \<and> unix_ms (me_clock env) = Some now \<and> \<not> command_refused lib tenant key now c \<longrightarrow>
         run_messages lib tenant key db (Message env payload # ds)
           = (let e = if te_begin (me_txn env) then ''persist JetStream inbox failed''
                      else ''begin JetStream inbox transaction failed'' in ([Stopped e], e, db)))"
proof -
  have fails: "process_command lib env db c =
      (Inl (if te_begin env then ''persist JetStream inbox failed'' else ''begin JetStream inbox transaction failed''), db)"
    for env db c using assms by (simp add: process_command_def command_statements_def Let_def)
  have handled: "fst (handle_message lib tenant key env db payload) \<noteq> Acked \<and> snd (handle_message lib tenant key env db payload) = db"
    for env db payload
    using terminate_message_not_acked [of env] by (simp add: handle_message_def fails split: option.split)
  have "Acked \<notin> set (fst (run_messages lib tenant key db ds)) \<and> snd (snd (run_messages lib tenant key db ds)) = db"
  proof (induction ds)
    case (Cons d ds)
    show ?case
    proof (cases d)
      case (Message env payload)
      with Cons handled [of env db payload] show ?thesis by (auto split: prod.splits disposition.splits)
    qed simp
  qed simp
  then show ?thesis by (simp add: handle_message_def fails MAX_NATS_PAYLOAD_BYTES_def Let_def)
qed

definition strict_wire_lib :: wire_lib where
  "strict_wire_lib = sample_wire_lib\<lparr>text_as_uuid := (\<lambda>_. None)\<rparr>"

theorem commands_fail_without_a_cast_witness:
  "run_messages strict_wire_lib (rs ''embedded-alerts'') sample_key empty_database [Message sample_delivery [1]]
     = ([Stopped ''persist JetStream inbox failed''], ''persist JetStream inbox failed'', empty_database)"
proof -
  have "command_refused strict_wire_lib t k n c = command_refused sample_wire_lib t k n c" for t k n c
    by (simp add: command_refused_def verify_command_signature_def validate_operation_envelope_at_def
        command_signing_bytes_def strict_wire_lib_def cong: option.case_cong)
  then have "\<not> command_refused strict_wire_lib (rs ''embedded-alerts'') sample_key 2000000002000 sample_command"
    using sample_command_accepted by simp
  moreover have "command_from_slice strict_wire_lib [1] = Some sample_command" "\<forall>t. text_as_uuid strict_wire_lib t = None"
    using sample_command_decodes(1) by (simp_all add: strict_wire_lib_def)
  moreover have "unix_ms (me_clock sample_delivery) = Some 2000000002000" "te_begin (me_txn sample_delivery)" "length [1 :: u8] \<le> 262144"
    using sample_clock_ms by (simp_all add: sample_delivery_def sample_txn_def)
  ultimately show ?thesis
    using commands_fail_without_a_cast [of strict_wire_lib "rs ''embedded-alerts''" sample_key empty_database "[]",
        THEN conjunct2, THEN conjunct2, rule_format, of "[1]" sample_command sample_delivery 2000000002000]
    by (simp add: Let_def del: rs_simps run_messages.simps)
qed

text \<open>
  C3. Only fresh, signed commands of the configured tenant change the tables: if handling a
  message changed anything, the message was within the size limit and decoded to a command that
  agrees with a signed one in every field but the signature, belongs to the server's tenant, is
  not past its deadline and was not recorded before. Every other message leaves all tables alone.
\<close>

theorem only_signed_commands_change_the_tables:
  assumes "uuid_laws lib" and "jet_inv db" and "no_forgery lib key issued payload"
    and "\<forall>d \<in> issued. newline_free d \<and> oe_product_tenant (ac_operation d) = ac_product_tenant d"
    and "handle_message lib tenant key env db payload = (d, db')" and "db' \<noteq> db"
  shows "\<exists>c now sig. length payload \<le> 262144 \<and> command_from_slice lib payload = Some c
    \<and> c\<lparr>ac_signature := sig\<rparr> \<in> issued \<and> ac_product_tenant c = tenant
    \<and> unix_ms (me_clock env) = Some now \<and> now \<le> oe_deadline_unix_ms (ac_operation c)
    \<and> \<not> command_recorded c db \<and> command_recorded c db'"
  using assms(5)
proof (cases rule: handle_message_cases)
  case (processed c now r)
  from processed(2) accepted_command(6) [OF processed(4)] assms(3) obtain d
    where d: "d \<in> issued" "as_bytes (command_signing_bytes lib d) = as_bytes (command_signing_bytes lib c)"
    unfolding no_forgery_def by blast
  have "signed_view c = signed_view d"
    using command_signing_bytes_inj [OF assms(1) accepted_command_newline_free [OF assms(1) processed(4)]]
      d assms(4) as_bytes_inj [OF d(2)] by simp
  moreover have "oe_product_tenant (ac_operation c) = ac_product_tenant c"
    using accepted_command(1,2) [OF processed(4)] by simp
  ultimately have "c\<lparr>ac_signature := ac_signature d\<rparr> = d"
    using assms(4) d(1) by (auto simp: signed_view_def intro!: async_command.equality operation_envelope.equality)
  moreover have "\<not> command_recorded c db \<and> command_recorded c db'"
    using assms(2,6) command_effect_facts(2) [OF assms(2)]
    by (cases rule: process_command_cases [OF assms(2) processed(5)]) auto
  moreover have "now \<le> oe_deadline_unix_ms (ac_operation c)"
    using accepted_command(9) [OF processed(4)] by (simp add: word_le_nat_alt)
  moreover have "length payload \<le> 262144" using processed(1) by (simp add: MAX_NATS_PAYLOAD_BYTES_def)
  ultimately show ?thesis
    using processed d(1) accepted_command(1) [OF processed(4)]
    by (intro exI [of _ c] exI [of _ now] exI [of _ "ac_signature d"]) simp
qed (use assms(6) in simp_all)

lemma sample_handled:
  obtains payload where "handle_message sample_wire_lib (rs ''embedded-alerts'') sample_key sample_delivery
      empty_database [1] = (Acked, command_effect sample_wire_lib sample_txn sample_command 1 1 payload empty_database)"
proof -
  obtain payload where "process_command sample_wire_lib sample_txn empty_database sample_command
     = (Ok (), command_effect sample_wire_lib sample_txn sample_command 1 1 payload empty_database)"
    by (rule sample_processed)
  then show ?thesis
    using that sample_command_decodes(1) sample_clock_ms sample_command_accepted
    by (simp add: handle_message_def sample_delivery_def MAX_NATS_PAYLOAD_BYTES_def)
qed

theorem only_signed_commands_change_the_tables_witness:
  "\<exists>db' sig. handle_message sample_wire_lib (rs ''embedded-alerts'') sample_key sample_delivery empty_database [1]
     = (Acked, db') \<and> sample_command\<lparr>ac_signature := sig\<rparr> = unsigned_command"
proof -
  obtain payload where run: "handle_message sample_wire_lib (rs ''embedded-alerts'') sample_key sample_delivery
      empty_database [1] = (Acked, command_effect sample_wire_lib sample_txn sample_command 1 1 payload empty_database)"
    by (rule sample_handled)
  have "no_forgery sample_wire_lib sample_key {unsigned_command} [1]"
    using sample_command_decodes(1) by (auto simp: no_forgery_def) (simp add: sample_command_def)
  moreover have "\<forall>d \<in> {unsigned_command}. newline_free d \<and> oe_product_tenant (ac_operation d) = ac_product_tenant d"
    using sample_commands_newline_free(1) by (simp add: unsigned_command_def sample_operation_def)
  moreover have "command_effect sample_wire_lib sample_txn sample_command 1 1 payload empty_database \<noteq> empty_database"
    by (simp add: command_effect_def empty_database_def Let_def)
  ultimately show ?thesis
    using only_signed_commands_change_the_tables [OF sample_wire_lib_laws(3) jet_inv_empty _ _ run]
      run sample_command_decodes(1) by auto
qed

end
