(* ===== verification/Outbox.thy ===== *)
theory Outbox
  imports Jetstream
begin

text \<open>
  The outbox publisher of \<open>src/src/transport.rs\<close>: it reads the oldest pending replies, sends each
  to the broker and marks it once the broker has acknowledged it. A round stops at the first
  error; the next round starts again from the oldest reply that is still pending.
\<close>

section \<open>The outbox publisher\<close>

record pending_outbox =
  po_event_id :: uuid
  po_correlation_id :: uuid
  po_dedupe_key :: rstring
  po_subject :: rstring
  po_payload :: json

definition pending_from_row :: "query_row \<Rightarrow> (pending_outbox, string) result" where
  "pending_from_row row =
     and_then (ok_or ''JetStream outbox event ID is invalid'' (get_uuid row ''event_id'')) (\<lambda>event_id.
     and_then (ok_or ''JetStream outbox correlation ID is invalid'' (get_uuid row ''correlation_id'')) (\<lambda>correlation_id.
     and_then (ok_or ''JetStream outbox dedupe key is invalid'' (get_text row ''dedupe_key'')) (\<lambda>dedupe_key.
     and_then (ok_or ''JetStream outbox subject is invalid'' (get_text row ''subject'')) (\<lambda>subject.
     and_then (ok_or ''JetStream outbox payload is invalid'' (get_json row ''payload'')) (\<lambda>payload.
     Ok \<lparr>po_event_id = event_id, po_correlation_id = correlation_id, po_dedupe_key = dedupe_key,
         po_subject = subject, po_payload = payload\<rparr>)))))"

text \<open>
  A published message: its subject, its \<open>Nats-Msg-Id\<close> header and its payload. A publication fails,
  is sent without an acknowledgement (the broker may have stored it), or is acknowledged. The mark
  is applied, fails, or is applied with its answer lost.
\<close>

type_synonym published = "rstring \<times> rstring \<times> u8 list"

datatype publish_outcome = Publish_Fails | Publish_Unacked bool | Publish_Acked

record publish_env =
  pe_outcome :: publish_outcome
  pe_mark :: commit_outcome
  pe_now :: datetime

definition publish_row ::
  "'x wire_lib_scheme \<Rightarrow> (uuid \<Rightarrow> publish_env) \<Rightarrow> outbox_row \<Rightarrow> database \<times> published list
     \<Rightarrow> (unit, string) result \<times> database \<times> published list" where
  "publish_row lib env row s =
     (case s of (db, log) \<Rightarrow>
      case pending_from_row (outbox_columns row) of
        Inl e \<Rightarrow> (Err e, db, log)
      | Inr pending \<Rightarrow>
          (case json_to_vec lib (po_payload pending) of
             None \<Rightarrow> (Err ''serialize JetStream outbox failed'', db, log)
           | Some payload \<Rightarrow>
               if MAX_NATS_PAYLOAD_BYTES < length payload
               then (Err ''JetStream outbox payload is oversized'', db, log)
               else case nats_header_value lib (po_dedupe_key pending) of
                      None \<Rightarrow> (Err ''JetStream dedupe header is invalid'', db, log)
                    | Some msg_id \<Rightarrow>
                        let e = env (po_event_id pending);
                            log' = log @ [(po_subject pending, msg_id, payload)] in
                        (case pe_outcome e of
                           Publish_Fails \<Rightarrow> (Err ''JetStream reply publish failed'', db, log)
                         | Publish_Unacked kept \<Rightarrow>
                             (Err ''JetStream reply was not acknowledged'', db, if kept then log' else log)
                         | Publish_Acked \<Rightarrow>
                             let marked = mark_outbox (po_event_id pending) (pe_now e) db in
                             (case pe_mark e of
                                Commit_Done \<Rightarrow> (Ok (), marked, log')
                              | Commit_Lost \<Rightarrow> (Err ''mark JetStream outbox published failed'', marked, log')
                              | Commit_Fails \<Rightarrow> (Err ''mark JetStream outbox published failed'', db, log')))))"

fun publish_rows ::
  "'x wire_lib_scheme \<Rightarrow> (uuid \<Rightarrow> publish_env) \<Rightarrow> outbox_row list \<Rightarrow> database \<times> published list
     \<Rightarrow> (unit, string) result \<times> database \<times> published list" where
  "publish_rows lib env [] s = (Ok (), s)"
| "publish_rows lib env (row # rows) s =
     (case publish_row lib env row s of
        (Inl e, s') \<Rightarrow> (Err e, s')
      | (Inr _, s') \<Rightarrow> publish_rows lib env rows s')"

definition publish_pending ::
  "'x wire_lib_scheme \<Rightarrow> bool \<Rightarrow> (uuid \<Rightarrow> publish_env) \<Rightarrow> database \<times> published list
     \<Rightarrow> (unit, string) result \<times> database \<times> published list" where
  "publish_pending lib up env s =
     (if \<not> up then (Err ''read JetStream outbox failed'', s)
      else publish_rows lib env (select_outbox (fst s)) s)"

text \<open>
  The background loop, for as many rounds as the list has environments. The result of a round is
  only logged.
\<close>

fun publisher_loop ::
  "'x wire_lib_scheme \<Rightarrow> (bool \<times> (uuid \<Rightarrow> publish_env)) list \<Rightarrow> database \<times> published list
     \<Rightarrow> database \<times> published list" where
  "publisher_loop lib [] s = s"
| "publisher_loop lib ((up, env) # envs) s = publisher_loop lib envs (snd (publish_pending lib up env s))"

section \<open>The effect of a round\<close>

text \<open>The message of a row, if it can be sent, and the rows in the order they are to be sent.\<close>

definition outbox_message :: "'x wire_lib_scheme \<Rightarrow> outbox_row \<Rightarrow> published option" where
  "outbox_message lib row =
     Option.bind (json_to_vec lib (ob_payload row)) (\<lambda>payload.
       if MAX_NATS_PAYLOAD_BYTES < length payload then None
       else map_option (\<lambda>msg_id. (ob_subject row, msg_id, payload)) (nats_header_value lib (ob_dedupe_key row)))"

definition pending_rows :: "database \<Rightarrow> outbox_row list" where
  "pending_rows db =
     sort_key (\<lambda>r. (ob_created_at r, ob_event_id r)) (filter (\<lambda>r. ob_published_at r = None) (db_outbox db))"

definition mark_row :: "(uuid \<Rightarrow> publish_env) \<Rightarrow> uuid set \<Rightarrow> outbox_row \<Rightarrow> outbox_row" where
  "mark_row env ids r =
     (if ob_event_id r \<in> ids \<and> ob_published_at r = None
      then r\<lparr>ob_published_at := Some (pe_now (env (ob_event_id r)))\<rparr> else r)"

definition mark_rows :: "(uuid \<Rightarrow> publish_env) \<Rightarrow> uuid set \<Rightarrow> database \<Rightarrow> database" where
  "mark_rows env ids db = db\<lparr>db_outbox := map (mark_row env ids) (db_outbox db)\<rparr>"

lemma select_outbox_pending_rows: "select_outbox db = take 50 (pending_rows db)"
  by (simp add: select_outbox_def pending_rows_def)

lemma mark_rows_empty [simp]: "mark_rows env {} db = db"
  by (simp add: mark_rows_def mark_row_def cong: map_cong)

lemma mark_rows_step: "mark_rows env ids (mark_outbox i (pe_now (env i)) db) = mark_rows env (insert i ids) db"
  by (auto simp: mark_rows_def mark_outbox_def mark_row_def intro!: database.equality)

lemma mark_rows_keeps:
  "map ob_event_id (db_outbox (mark_rows env ids db)) = map ob_event_id (db_outbox db)"
  "map ob_dedupe_key (db_outbox (mark_rows env ids db)) = map ob_dedupe_key (db_outbox db)"
  "map (\<lambda>r. (ob_correlation_id r, ob_dedupe_key r)) (db_outbox (mark_rows env ids db))
     = map (\<lambda>r. (ob_correlation_id r, ob_dedupe_key r)) (db_outbox db)"
  "db_inbox (mark_rows env ids db) = db_inbox db" "db_status (mark_rows env ids db) = db_status db"
  "db_alert_rules (mark_rows env ids db) = db_alert_rules db"
  by (simp_all add: mark_rows_def mark_row_def)

lemma mark_rows_inv: "jet_inv db \<Longrightarrow> jet_inv (mark_rows env ids db)"
proof -
  assume inv: "jet_inv db"
  have "\<forall>r \<in> set (db_outbox (mark_rows env ids db)). outbox_check r"
    using inv by (auto simp: jet_inv_def db_wf_def mark_rows_def mark_row_def outbox_check_def)
  with inv show ?thesis unfolding jet_inv_def db_wf_def mark_rows_keeps by simp
qed

lemma pending_from_row_columns:
  "pending_from_row (outbox_columns r) =
     Inr \<lparr>po_event_id = ob_event_id r, po_correlation_id = ob_correlation_id r, po_dedupe_key = ob_dedupe_key r,
          po_subject = ob_subject r, po_payload = ob_payload r\<rparr>"
  by (simp add: pending_from_row_def outbox_columns_def try_get_defs)

lemma publish_row_cases:
  assumes "publish_row lib env row (db, log) = (r, db', log')"
  obtains (failed) e where "r = Inl e" "db' = db" "log' = log"
  | (unmarked) e m where "r = Inl e" "outbox_message lib row = Some m" "db' = db" "log' = log @ [m]"
  | (sent) m where "outbox_message lib row = Some m" "log' = log @ [m]"
      "db' = mark_outbox (ob_event_id row) (pe_now (env (ob_event_id row))) db"
  using assms unfolding publish_row_def pending_from_row_columns outbox_message_def Let_def
  by (auto split: option.splits if_splits publish_outcome.splits commit_outcome.splits)

text \<open>
  A round marks an initial part of the rows it read, has sent those and at most one more, and
  succeeds only if it got through all of them.
\<close>

definition round_effect ::
  "'x wire_lib_scheme \<Rightarrow> (uuid \<Rightarrow> publish_env) \<Rightarrow> outbox_row list \<Rightarrow> database \<times> published list
     \<Rightarrow> (unit, string) result \<times> database \<times> published list \<Rightarrow> bool" where
  "round_effect lib env rows s t \<longleftrightarrow>
     (\<exists>k m. k \<le> m \<and> m \<le> Suc k \<and> m \<le> length rows \<and>
        (\<forall>row \<in> set (take m rows). outbox_message lib row \<noteq> None) \<and>
        snd (snd t) = snd s @ map (\<lambda>row. the (outbox_message lib row)) (take m rows) \<and>
        fst (snd t) = mark_rows env (ob_event_id ` set (take k rows)) (fst s) \<and>
        (fst t = Inr () \<longrightarrow> k = length rows))"

lemma round_effectI:
  "k \<le> m \<Longrightarrow> m \<le> Suc k \<Longrightarrow> m \<le> length rows \<Longrightarrow>
   \<forall>row \<in> set (take m rows). outbox_message lib row \<noteq> None \<Longrightarrow>
   log' = log @ map (\<lambda>row. the (outbox_message lib row)) (take m rows) \<Longrightarrow>
   db' = mark_rows env (ob_event_id ` set (take k rows)) db \<Longrightarrow> (r = Inr () \<Longrightarrow> k = length rows) \<Longrightarrow>
   round_effect lib env rows (db, log) (r, db', log')"
  unfolding round_effect_def fst_conv snd_conv by blast

lemma publish_rows_effect: "round_effect lib env rows s (publish_rows lib env rows s)"
proof (induction rows arbitrary: s)
  case Nil
  show ?case by (cases s) (auto intro!: round_effectI [of 0 0])
next
  case (Cons row rows)
  obtain db log where s: "s = (db, log)" by (cases s)
  obtain r db1 log1 where row: "publish_row lib env row (db, log) = (r, db1, log1)" using prod_cases3 by blast
  show ?case using row
  proof (cases rule: publish_row_cases)
    case (failed e)
    with row show ?thesis unfolding s by (auto intro!: round_effectI [of 0 0])
  next
    case (unmarked e m)
    with row show ?thesis unfolding s by (auto intro!: round_effectI [of 0 1])
  next
    case (sent m)
    show ?thesis
    proof (cases r)
      case (Inl e)
      have "db1 = mark_rows env {ob_event_id row} db" using sent(3) mark_rows_step [of env "{}" "ob_event_id row" db] by simp
      with row Inl sent show ?thesis unfolding s by (cases m) (auto intro!: round_effectI [of 1 1])
    next
      case (Inr u)
      obtain r' db' log' where rest: "publish_rows lib env rows (db1, log1) = (r', db', log')" using prod_cases3 by blast
      from Cons.IH [of "(db1, log1)"] rest obtain k n where ih: "k \<le> n" "n \<le> Suc k" "n \<le> length rows"
        "\<forall>row \<in> set (take n rows). outbox_message lib row \<noteq> None"
        "log' = log1 @ map (\<lambda>row. the (outbox_message lib row)) (take n rows)"
        "db' = mark_rows env (ob_event_id ` set (take k rows)) db1" "r' = Inr () \<Longrightarrow> k = length rows"
        by (auto simp: round_effect_def)
      have "publish_rows lib env (row # rows) s = (r', db', log')" using row Inr rest s by simp
      moreover have "db' = mark_rows env (ob_event_id ` set (take (Suc k) (row # rows))) db"
        using ih(6) sent(3) by (simp add: mark_rows_step)
      ultimately show ?thesis
        using ih sent unfolding s by (cases m) (auto intro!: round_effectI [of "Suc k" "Suc n"])
    qed
  qed
qed

section \<open>Rounds that meet no error\<close>

definition good_env :: "(uuid \<Rightarrow> publish_env) \<Rightarrow> bool" where
  "good_env env \<longleftrightarrow> (\<forall>i. pe_outcome (env i) = Publish_Acked \<and> pe_mark (env i) = Commit_Done)"

lemma publish_row_good:
  "good_env env \<Longrightarrow> outbox_message lib row = Some m \<Longrightarrow>
     publish_row lib env row (db, log) =
       (Inr (), mark_outbox (ob_event_id row) (pe_now (env (ob_event_id row))) db, log @ [m])"
  unfolding publish_row_def pending_from_row_columns outbox_message_def good_env_def Let_def
  by (auto split: option.splits if_splits simp: Option.bind_eq_Some_conv)

lemma publish_rows_good:
  "good_env env \<Longrightarrow> \<forall>row \<in> set rows. outbox_message lib row \<noteq> None \<Longrightarrow>
     publish_rows lib env rows (db, log) =
       (Inr (), mark_rows env (ob_event_id ` set rows) db, log @ map (\<lambda>row. the (outbox_message lib row)) rows)"
proof (induction rows arbitrary: db log)
  case (Cons row rows)
  then obtain m where "outbox_message lib row = Some m" by auto
  with Cons show ?case by (simp add: publish_row_good mark_rows_step)
qed simp

lemma filter_dropped:
  "distinct (map f xs) \<Longrightarrow> filter (\<lambda>x. f x \<notin> f ` set (take n xs)) xs = drop n xs"
proof -
  assume d: "distinct (map f xs)"
  then have "f ` set (take n xs) \<inter> f ` set (drop n xs) = {}"
    by (metis append_take_drop_id distinct_append list.set_map map_append)
  then have "filter (\<lambda>x. f x \<notin> f ` set (take n xs)) (drop n xs) = drop n xs"
    by (auto simp: filter_id_conv)
  moreover have "filter (\<lambda>x. f x \<notin> f ` set (take n xs)) (take n xs) = []"
    by (auto simp: filter_empty_conv)
  ultimately show ?thesis by (metis append_Nil append_take_drop_id filter_append)
qed

lemma pending_rows_distinct: "distinct (map ob_event_id (db_outbox db)) \<Longrightarrow> distinct (map ob_event_id (pending_rows db))"
  by (simp add: pending_rows_def distinct_map_sort_key distinct_map_filter_fst)

lemma pending_rows_mark_ids:
  "pending_rows (mark_rows env ids db) = filter (\<lambda>r. ob_event_id r \<notin> ids) (pending_rows db)"
proof -
  have "filter (\<lambda>r. ob_published_at r = None) (map (mark_row env ids) xs)
      = filter (\<lambda>r. ob_event_id r \<notin> ids) (filter (\<lambda>r. ob_published_at r = None) xs)" for xs
    by (induction xs) (simp_all add: mark_row_def)
  then show ?thesis unfolding pending_rows_def filter_sort by (simp add: mark_rows_def del: filter_filter)
qed

lemma pending_rows_mark:
  assumes "distinct (map ob_event_id (db_outbox db))"
  shows "pending_rows (mark_rows env (ob_event_id ` set (take n (pending_rows db))) db) = drop n (pending_rows db)"
  unfolding pending_rows_mark_ids using pending_rows_distinct [OF assms] by (rule filter_dropped)

lemma publish_pending_good:
  assumes "good_env env" and "\<forall>row \<in> set (pending_rows db). outbox_message lib row \<noteq> None"
  shows "publish_pending lib True env (db, log) =
    (Inr (), mark_rows env (ob_event_id ` set (take 50 (pending_rows db))) db,
     log @ map (\<lambda>row. the (outbox_message lib row)) (take 50 (pending_rows db)))"
proof -
  have "\<forall>row \<in> set (take 50 (pending_rows db)). outbox_message lib row \<noteq> None"
    using assms(2) in_set_takeD by metis
  from publish_rows_good [OF assms(1) this] show ?thesis
    by (simp add: publish_pending_def select_outbox_pending_rows)
qed

lemma publisher_loop_good:
  assumes "distinct (map ob_event_id (db_outbox db))"
    and "\<forall>row \<in> set (pending_rows db). outbox_message lib row \<noteq> None"
    and "\<forall>(up, env) \<in> set envs. up \<and> good_env env"
    and "length (pending_rows db) \<le> 50 * length envs"
  shows "\<exists>db'. publisher_loop lib envs (db, log) = (db', log @ map (\<lambda>row. the (outbox_message lib row)) (pending_rows db))
    \<and> pending_rows db' = []"
  using assms
proof (induction envs arbitrary: db log)
  case (Cons e envs)
  obtain up env where e: "e = (up, env)" by (cases e)
  with Cons.prems have env: "up" "good_env env" by auto
  let ?P = "pending_rows db"
  let ?db = "mark_rows env (ob_event_id ` set (take 50 ?P)) db"
  let ?log = "log @ map (\<lambda>row. the (outbox_message lib row)) (take 50 ?P)"
  have rest: "pending_rows ?db = drop 50 ?P" using Cons.prems(1) by (rule pending_rows_mark)
  have "\<exists>db'. publisher_loop lib envs (?db, ?log) = (db', ?log @ map (\<lambda>row. the (outbox_message lib row)) (pending_rows ?db))
    \<and> pending_rows db' = []"
    using Cons.prems by (intro Cons.IH) (auto simp: rest mark_rows_keeps dest: in_set_dropD)
  then obtain db' where "publisher_loop lib envs (?db, ?log)
      = (db', ?log @ map (\<lambda>row. the (outbox_message lib row)) (pending_rows ?db))" "pending_rows db' = []"
    by blast
  moreover have "?log @ map (\<lambda>row. the (outbox_message lib row)) (pending_rows ?db)
      = log @ map (\<lambda>row. the (outbox_message lib row)) ?P"
    unfolding rest append_assoc map_append [symmetric] append_take_drop_id ..
  ultimately show ?case using env publish_pending_good [OF env(2) Cons.prems(2)] by (auto simp: e)
qed simp

section \<open>Sample data\<close>

definition sample_reply :: "nat \<Rightarrow> outbox_row" where
  "sample_reply n = \<lparr>ob_event_id = of_nat n, ob_correlation_id = 5, ob_dedupe_key = rs ''reply:'' @ show_nat n,
     ob_subject = rs ''eal.event.embedded-alerts.v1'', ob_payload = JString (show_nat n),
     ob_created_at = int n, ob_published_at = None\<rparr>"

definition sample_outbox :: database where
  "sample_outbox = empty_database\<lparr>db_outbox := [sample_reply 2, sample_reply 1]\<rparr>"

definition sample_publish :: "uuid \<Rightarrow> publish_env" where
  "sample_publish i = \<lparr>pe_outcome = Publish_Acked, pe_mark = Commit_Done, pe_now = 99\<rparr>"

lemma sample_publish_good: "good_env sample_publish"
  by (simp add: good_env_def sample_publish_def)

lemma sample_pending: "pending_rows sample_outbox = [sample_reply 1, sample_reply 2]"
  by (simp add: pending_rows_def sample_outbox_def sample_reply_def empty_database_def)

lemma sample_message:
  "n < 10 \<Longrightarrow> outbox_message sample_wire_lib (sample_reply n) =
     Some (rs ''eal.event.embedded-alerts.v1'', rs ''reply:'' @ show_nat n, show_nat n)"
  by (simp add: outbox_message_def sample_reply_def sample_wire_lib_def show_nat_small MAX_NATS_PAYLOAD_BYTES_def)

section \<open>Properties\<close>

text \<open>
  What a round of the publisher does, whatever the broker and the database do: it sends, in
  the order of creation, an initial part of the at most fifty oldest pending replies, and it marks
  those of them it also saw acknowledged, which are all of them or all but the last. So a reply is
  never marked as published before it was sent, at most one reply per round is sent without being
  marked, nothing else in the tables changes, and the round succeeds only if it got through.
\<close>

theorem publisher_round:
  assumes "publish_pending lib True env (db, log) = (r, db', log')"
  shows "\<exists>k m. k \<le> m \<and> m \<le> Suc k \<and> m \<le> 50 \<and> m \<le> length (pending_rows db)
    \<and> (\<forall>row \<in> set (take m (pending_rows db)). outbox_message lib row \<noteq> None)
    \<and> log' = log @ map (\<lambda>row. the (outbox_message lib row)) (take m (pending_rows db))
    \<and> db' = mark_rows env (ob_event_id ` set (take k (pending_rows db))) db
    \<and> (r = Ok () \<longrightarrow> k = min 50 (length (pending_rows db)))"
proof -
  have "round_effect lib env (take 50 (pending_rows db)) (db, log) (r, db', log')"
    using publish_rows_effect [of lib env "take 50 (pending_rows db)" "(db, log)"] assms
    by (simp add: publish_pending_def select_outbox_pending_rows)
  then obtain k m where km: "k \<le> m" "m \<le> Suc k" "m \<le> length (take 50 (pending_rows db))"
    and eff: "\<forall>row \<in> set (take m (take 50 (pending_rows db))). outbox_message lib row \<noteq> None"
    "log' = log @ map (\<lambda>row. the (outbox_message lib row)) (take m (take 50 (pending_rows db)))"
    "db' = mark_rows env (ob_event_id ` set (take k (take 50 (pending_rows db)))) db"
    and r: "r = Inr () \<longrightarrow> k = length (take 50 (pending_rows db))"
    unfolding round_effect_def fst_conv snd_conv by blast
  have "take m (take 50 (pending_rows db)) = take m (pending_rows db)"
    "take k (take 50 (pending_rows db)) = take k (pending_rows db)"
    using km by (simp_all add: min_absorb1)
  moreover have "k = length (take 50 (pending_rows db)) \<longleftrightarrow> k = min 50 (length (pending_rows db))"
    by (simp add: min.commute)
  moreover have "m \<le> 50" "m \<le> length (pending_rows db)" using km(3) by simp_all
  ultimately show ?thesis using km(1,2) eff r by metis
qed

theorem publisher_round_witness:
  "\<exists>k. publish_pending sample_wire_lib True sample_publish (sample_outbox, [])
     = (Ok (), mark_rows sample_publish (ob_event_id ` set (take k [sample_reply 1, sample_reply 2])) sample_outbox,
        [(rs ''eal.event.embedded-alerts.v1'', rs ''reply:'' @ show_nat 1, show_nat 1),
         (rs ''eal.event.embedded-alerts.v1'', rs ''reply:'' @ show_nat 2, show_nat 2)])"
proof -
  have run: "publish_pending sample_wire_lib True sample_publish (sample_outbox, []) =
    (Inr (), mark_rows sample_publish (ob_event_id ` set [sample_reply 1, sample_reply 2]) sample_outbox,
     [the (outbox_message sample_wire_lib (sample_reply 1)), the (outbox_message sample_wire_lib (sample_reply 2))])"
    using publish_pending_good [OF sample_publish_good, of sample_outbox sample_wire_lib "[]"]
    by (simp add: sample_pending sample_message)
  from publisher_round [OF this] obtain k where
    k: "mark_rows sample_publish (ob_event_id ` set [sample_reply 1, sample_reply 2]) sample_outbox
      = mark_rows sample_publish (ob_event_id ` set (take k (pending_rows sample_outbox))) sample_outbox" by blast
  show ?thesis by (rule exI [of _ k]) (use k run in \<open>simp add: sample_pending sample_message\<close>)
qed

text \<open>
  C8. Liveness of the outbox: if every pending reply can be sent and the broker and the database
  answer, one round per fifty pending replies empties the outbox, and each pending reply is sent
  exactly once and in the order of creation.
\<close>

theorem outbox_drains:
  assumes "distinct (map ob_event_id (db_outbox db))"
    and "\<forall>row \<in> set (pending_rows db). outbox_message lib row \<noteq> None"
    and "\<forall>(up, env) \<in> set envs. up \<and> good_env env"
    and "length (pending_rows db) \<le> 50 * length envs"
  shows "\<exists>db'. publisher_loop lib envs (db, log)
      = (db', log @ map (\<lambda>row. the (outbox_message lib row)) (pending_rows db))
    \<and> select_outbox db' = []"
  using publisher_loop_good [OF assms] by (auto simp: select_outbox_pending_rows)

theorem outbox_drains_witness:
  "\<exists>db' log. publisher_loop sample_wire_lib [(True, sample_publish)] (sample_outbox, []) = (db', log)
     \<and> map (\<lambda>m. fst (snd m)) log = [rs ''reply:1'', rs ''reply:2''] \<and> select_outbox db' = []"
proof -
  have d: "distinct (map ob_event_id (db_outbox sample_outbox))"
    by (simp add: sample_outbox_def sample_reply_def)
  have m: "\<forall>row \<in> set (pending_rows sample_outbox). outbox_message sample_wire_lib row \<noteq> None"
    by (simp add: sample_pending sample_message)
  have e: "\<forall>(up, env) \<in> set [(True, sample_publish)]. up \<and> good_env env"
    by (simp add: sample_publish_good)
  have l: "length (pending_rows sample_outbox) \<le> 50 * length [(True, sample_publish)]" by (simp add: sample_pending)
  show ?thesis
    using outbox_drains [OF d m e l, of "[]"] by (auto simp: sample_pending sample_message show_nat_small)
qed

text \<open>
  C30. Head-of-line blocking: if the oldest pending reply is larger than the payload limit, no
  round ever sends or marks anything, whatever the broker and the database do. Every later reply
  waits behind it for ever.
\<close>

theorem oversized_reply_blocks_the_outbox:
  assumes "pending_rows db = row # rows" and "json_to_vec lib (ob_payload row) = Some payload"
    and "262144 < length payload"
  shows "publisher_loop lib envs (db, log) = (db, log)"
proof -
  have "publish_row lib env row (db, log) = (Err ''JetStream outbox payload is oversized'', db, log)" for env
    unfolding publish_row_def pending_from_row_columns using assms(2,3) by (simp add: MAX_NATS_PAYLOAD_BYTES_def)
  then have "snd (publish_pending lib up env (db, log)) = (db, log)" for up env
    using assms(1) by (simp add: publish_pending_def select_outbox_pending_rows)
  then show ?thesis by (induction envs) auto
qed

theorem oversized_reply_blocks_the_outbox_witness:
  "publisher_loop sample_wire_lib [(True, sample_publish), (True, sample_publish)]
     (sample_outbox\<lparr>db_outbox := [(sample_reply 1)\<lparr>ob_payload := JString (replicate 262145 120)\<rparr>, sample_reply 2]\<rparr>, [])
   = (sample_outbox\<lparr>db_outbox := [(sample_reply 1)\<lparr>ob_payload := JString (replicate 262145 120)\<rparr>, sample_reply 2]\<rparr>, [])"
  by (rule oversized_reply_blocks_the_outbox [where row = "(sample_reply 1)\<lparr>ob_payload := JString (replicate 262145 120)\<rparr>"
        and rows = "[sample_reply 2]" and payload = "replicate 262145 120"])
     (simp_all add: pending_rows_def sample_reply_def sample_wire_lib_def)

end
