(* ===== verification/Ledger.thy ===== *)
theory Ledger
  imports Outbox
begin

text \<open>
  What the durable transport promises, as an abstract specification: a ledger of answered
  commands. A command is answered at most once and for good; only answers are sent; a reply is
  settled only after it was sent; and only answered commands are acknowledged. The theory also
  says which ledger the tables and the broker's view stand for. The servers of the later theories
  are shown to implement the ledger.
\<close>

section \<open>Replies up to their publication mark\<close>

definition unmarked :: "outbox_row \<Rightarrow> outbox_row" where
  "unmarked r = r\<lparr>ob_published_at := None\<rparr>"

text \<open>Two rows are the same reply if they differ in the publication mark only.\<close>

definition same_reply :: "outbox_row \<Rightarrow> outbox_row \<Rightarrow> bool" where
  "same_reply r q \<longleftrightarrow> r\<lparr>ob_published_at := None\<rparr> = q\<lparr>ob_published_at := None\<rparr>"

definition replies_kept :: "outbox_row list \<Rightarrow> outbox_row list \<Rightarrow> bool" where
  "replies_kept rows rows' \<longleftrightarrow> (\<forall>r \<in> set rows. \<exists>q \<in> set rows'. same_reply r q)"

lemma same_reply_fields:
  "same_reply r q \<Longrightarrow> ob_event_id r = ob_event_id q \<and> ob_correlation_id r = ob_correlation_id q
     \<and> ob_dedupe_key r = ob_dedupe_key q \<and> ob_subject r = ob_subject q \<and> ob_payload r = ob_payload q"
  by (cases r; cases q) (simp add: same_reply_def)

lemma outbox_message_same: "same_reply r q \<Longrightarrow> outbox_message lib r = outbox_message lib q"
  unfolding outbox_message_def by (drule same_reply_fields) presburger

lemma same_reply_refl [simp]: "same_reply r r"
  by (simp add: same_reply_def)

lemma same_reply_trans: "same_reply r q \<Longrightarrow> same_reply q p \<Longrightarrow> same_reply r p"
  by (simp add: same_reply_def)

lemma replies_kept_trans: "replies_kept a b \<Longrightarrow> replies_kept b c \<Longrightarrow> replies_kept a c"
  unfolding replies_kept_def using same_reply_trans by blast

lemma replies_kept_append: "replies_kept rows (rows @ new)"
  by (auto simp: replies_kept_def intro: same_reply_refl)

lemma same_reply_mark: "same_reply r (mark_row env ids r)"
  by (simp add: same_reply_def mark_row_def)

lemma replies_kept_mark: "replies_kept (db_outbox db) (db_outbox (mark_rows env ids db))"
  using same_reply_mark by (fastforce simp: replies_kept_def mark_rows_def)

lemma replies_kept_log:
  "replies_kept rows rows' \<Longrightarrow> r \<in> set rows \<Longrightarrow> outbox_message lib r = Some m \<Longrightarrow>
     \<exists>q \<in> set rows'. outbox_message lib q = Some m"
  unfolding replies_kept_def using outbox_message_same by metis

lemma replies_kept_subset: "set rows \<subseteq> set rows' \<Longrightarrow> replies_kept rows rows'"
  by (auto simp: replies_kept_def intro: same_reply_refl)

lemma same_reply_unmarked: "same_reply r q \<longleftrightarrow> unmarked r = unmarked q"
  by (simp add: same_reply_def unmarked_def)

lemma outbox_message_unmarked [simp]: "outbox_message lib (unmarked r) = outbox_message lib r"
  by (rule outbox_message_same) (simp add: same_reply_def unmarked_def)

lemma unmarked_fields [simp]:
  "ob_event_id (unmarked r) = ob_event_id r" "ob_correlation_id (unmarked r) = ob_correlation_id r"
  "ob_dedupe_key (unmarked r) = ob_dedupe_key r" "ob_subject (unmarked r) = ob_subject r"
  "ob_published_at (unmarked r) = None"
  by (simp_all add: unmarked_def)

lemma unmarked_id: "ob_published_at r = None \<Longrightarrow> unmarked r = r"
  by (simp add: unmarked_def)

lemma unmarked_mark_outbox: "map unmarked (db_outbox (mark_outbox i now db)) = map unmarked (db_outbox db)"
  by (simp add: mark_outbox_def unmarked_def)

section \<open>The ledger\<close>

text \<open>
  The answered commands with their replies in the order they were answered, the messages sent in
  the order they were sent, the dedupe keys of the replies that need not be sent again, and the
  payloads the broker need not deliver again.
\<close>

record ledger =
  lg_answers :: "(inbox_row \<times> outbox_row) list"
  lg_sent :: "published list"
  lg_settled :: "rstring set"
  lg_acked :: "u8 list list"

definition answers :: "inbox_row \<Rightarrow> outbox_row \<Rightarrow> bool" where
  "answers c r \<longleftrightarrow>
     ob_correlation_id r = ib_correlation_id c \<and> ob_dedupe_key r = rs ''reply:'' @ ib_dedupe_key c
     \<and> ob_subject r = reply_subject (ib_product_tenant c) \<and> ob_published_at r = None"

text \<open>
  A new entry shares none of its identifiers with an older one; a command is known if it shares
  one of them.
\<close>

definition entry_fresh :: "inbox_row \<Rightarrow> outbox_row \<Rightarrow> ledger \<Rightarrow> bool" where
  "entry_fresh c r l \<longleftrightarrow>
     (\<forall>(c', r') \<in> set (lg_answers l). ib_event_id c' \<noteq> ib_event_id c \<and> ib_correlation_id c' \<noteq> ib_correlation_id c
        \<and> ib_dedupe_key c' \<noteq> ib_dedupe_key c \<and> ob_event_id r' \<noteq> ob_event_id r)"

definition ledger_knows :: "async_command \<Rightarrow> ledger \<Rightarrow> bool" where
  "ledger_knows c l \<longleftrightarrow>
     (\<exists>(c', _) \<in> set (lg_answers l). ib_event_id c' = ac_event_id c \<or> ib_correlation_id c' = ac_correlation_id c
        \<or> ib_dedupe_key c' = ac_dedupe_key c)"

definition empty_ledger :: ledger where
  "empty_ledger = \<lparr>lg_answers = [], lg_sent = [], lg_settled = {}, lg_acked = []\<rparr>"

inductive ledger_step :: "'x wire_lib_scheme \<Rightarrow> ledger \<Rightarrow> ledger \<Rightarrow> bool" for lib where
  Answer: "entry_fresh c r l \<Longrightarrow> answers c r \<Longrightarrow>
    ledger_step lib l (l\<lparr>lg_answers := lg_answers l @ [(c, r)]\<rparr>)"
| Send: "(c, r) \<in> set (lg_answers l) \<Longrightarrow> outbox_message lib r = Some m \<Longrightarrow>
    ledger_step lib l (l\<lparr>lg_sent := lg_sent l @ [m]\<rparr>)"
| Settle: "(c, r) \<in> set (lg_answers l) \<Longrightarrow> outbox_message lib r = Some m \<Longrightarrow> m \<in> set (lg_sent l) \<Longrightarrow>
    ledger_step lib l (l\<lparr>lg_settled := insert (ob_dedupe_key r) (lg_settled l)\<rparr>)"
| Acknowledge: "command_from_slice lib p = Some c \<Longrightarrow> ledger_knows c l \<Longrightarrow>
    ledger_step lib l (l\<lparr>lg_acked := p # lg_acked l\<rparr>)"

section \<open>What the ledger promises\<close>

definition ledger_inv :: "'x wire_lib_scheme \<Rightarrow> ledger \<Rightarrow> bool" where
  "ledger_inv lib l \<longleftrightarrow>
     distinct (map (\<lambda>(c, _). ib_event_id c) (lg_answers l)) \<and>
     distinct (map (\<lambda>(c, _). ib_correlation_id c) (lg_answers l)) \<and>
     distinct (map (\<lambda>(c, _). ib_dedupe_key c) (lg_answers l)) \<and>
     distinct (map (\<lambda>(_, r). ob_event_id r) (lg_answers l)) \<and>
     (\<forall>(c, r) \<in> set (lg_answers l). answers c r) \<and>
     (\<forall>m \<in> set (lg_sent l). \<exists>(c, r) \<in> set (lg_answers l). outbox_message lib r = Some m) \<and>
     (\<forall>k \<in> lg_settled l. \<exists>(c, r) \<in> set (lg_answers l). ob_dedupe_key r = k
        \<and> (\<exists>m \<in> set (lg_sent l). outbox_message lib r = Some m)) \<and>
     (\<forall>p \<in> set (lg_acked l). \<exists>c. command_from_slice lib p = Some c \<and> ledger_knows c l)"

lemma ledger_inv_empty: "ledger_inv lib empty_ledger"
  by (simp add: ledger_inv_def empty_ledger_def)

lemma ledger_knows_append:
  "ledger_knows c l \<Longrightarrow> ledger_knows c (l\<lparr>lg_answers := lg_answers l @ new\<rparr>)"
  by (auto simp: ledger_knows_def)

lemma ledger_step_inv [step_intros]: "ledger_inv lib l \<Longrightarrow> ledger_step lib l l' \<Longrightarrow> ledger_inv lib l'"
proof (erule ledger_step.cases)
  fix c r l0
  assume "ledger_inv lib l" "l = l0" "l' = l0\<lparr>lg_answers := lg_answers l0 @ [(c, r)]\<rparr>" "entry_fresh c r l0" "answers c r"
  then show "ledger_inv lib l'"
    unfolding ledger_inv_def using ledger_knows_append [of _ l0 "[(c, r)]"]
    by (simp add: entry_fresh_def) fastforce
next
  fix c r l0 m
  assume "ledger_inv lib l" "l = l0" "l' = l0\<lparr>lg_sent := lg_sent l0 @ [m]\<rparr>" "(c, r) \<in> set (lg_answers l0)"
    "outbox_message lib r = Some m"
  then show "ledger_inv lib l'" unfolding ledger_inv_def by (simp add: ledger_knows_def) fast
qed (auto simp: ledger_inv_def ledger_knows_def)

interpretation ledger_run: invariant_system "ledger_step lib" "ledger_inv lib" for lib :: "'x wire_lib_scheme"
  by unfold_locales (rule step_intros)

text \<open>No step removes or changes an answer, forgets a message or an acknowledgement.\<close>

definition ledger_facts :: "ledger \<Rightarrow> ((inbox_row \<times> outbox_row) + published + rstring + u8 list) set" where
  "ledger_facts l = Inl ` set (lg_answers l) \<union> Inr ` Inl ` set (lg_sent l)
     \<union> Inr ` Inr ` Inl ` lg_settled l \<union> Inr ` Inr ` Inr ` set (lg_acked l)"

lemma ledger_step_grows: "ledger_step lib l l' \<Longrightarrow> ledger_facts l \<subseteq> ledger_facts l'"
  by (erule ledger_step.cases) (auto simp: ledger_facts_def)

lemma ledger_run_grows:
  assumes "(ledger_step lib)\<^sup>*\<^sup>* l l'" and "ledger_inv lib l"
  shows "ledger_facts l \<subseteq> ledger_facts l'"
  using ledger_step_grows assms by (rule ledger_run.run_monotone)

lemma ledger_entries_unique:
  assumes "ledger_inv lib l" and e: "(c', r') \<in> set (lg_answers l)" "(c, r) \<in> set (lg_answers l)"
    and "ib_event_id c' = ib_event_id c \<or> ib_correlation_id c' = ib_correlation_id c \<or> ib_dedupe_key c' = ib_dedupe_key c"
  shows "(c', r') = (c, r)"
proof -
  have "inj_on (\<lambda>(c, _). ib_event_id c) (set (lg_answers l))" "inj_on (\<lambda>(c, _). ib_correlation_id c) (set (lg_answers l))"
    "inj_on (\<lambda>(c, _). ib_dedupe_key c) (set (lg_answers l))"
    using assms(1) by (simp_all add: ledger_inv_def distinct_map)
  note inj = this [THEN inj_onD, OF _ e]
  from assms(4) inj show ?thesis by auto
qed

text \<open>Messages with the same identifier are the same message, if a header keeps its text.\<close>

lemma ledger_messages_unique:
  assumes inv: "ledger_inv lib l" and header: "\<forall>text v. nats_header_value lib text = Some v \<longrightarrow> v = text"
    and m: "m \<in> set (lg_sent l)" "m' \<in> set (lg_sent l)" "fst (snd m) = fst (snd m')"
  shows "m = m'"
proof -
  have key: "fst (snd x) = ob_dedupe_key r" if "outbox_message lib r = Some x" for r x
    using that header by (auto simp: outbox_message_def Option.bind_eq_Some_conv split: if_splits)
  have sent: "\<exists>c r. (c, r) \<in> set (lg_answers l) \<and> outbox_message lib r = Some x" if "x \<in> set (lg_sent l)" for x
    using inv that unfolding ledger_inv_def by fast
  from sent [OF m(1)] sent [OF m(2)] obtain c r c' r' where e: "(c, r) \<in> set (lg_answers l)"
    "outbox_message lib r = Some m" "(c', r') \<in> set (lg_answers l)" "outbox_message lib r' = Some m'" by blast
  then have "answers c r" "answers c' r'" using inv by (auto simp: ledger_inv_def)
  then have "ib_dedupe_key c = ib_dedupe_key c'" using key e m(3) by (simp add: answers_def)
  then have "(c, r) = (c', r')" using ledger_entries_unique [OF inv e(1,3)] by simp
  with e show ?thesis by simp
qed

section \<open>The ledger of the tables\<close>

text \<open>The tables keep commands and replies in the same order, see \<open>jet_inv\<close>.\<close>

definition ledger_of :: "database \<Rightarrow> published list \<Rightarrow> u8 list list \<Rightarrow> ledger" where
  "ledger_of db log acked =
     \<lparr>lg_answers = zip (db_inbox db) (map unmarked (db_outbox db)), lg_sent = log,
      lg_settled = ob_dedupe_key ` {r \<in> set (db_outbox db). ob_published_at r \<noteq> None}, lg_acked = acked\<rparr>"

lemma jet_inv_lengths:
  assumes "jet_inv db"
  shows "length (db_outbox db) = length (db_inbox db)"
  using assms unfolding jet_inv_def by (metis (no_types, lifting) length_map)

lemma ledger_of_empty: "ledger_of empty_database [] [] = empty_ledger"
  by (simp add: ledger_of_def empty_database_def empty_ledger_def)

lemma ledger_of_alerts: "ledger_of (db\<lparr>db_alert_rules := rows\<rparr>) log acked = ledger_of db log acked"
  by (simp add: ledger_of_def)

lemma ledger_entry:
  assumes "jet_inv db" and "r \<in> set (db_outbox db)"
  shows "\<exists>c. (c, unmarked r) \<in> set (lg_answers (ledger_of db log acked))"
proof -
  have "map snd (zip (db_inbox db) (map unmarked (db_outbox db))) = map unmarked (db_outbox db)"
    using jet_inv_lengths [OF assms(1)] by simp
  then have "unmarked r \<in> snd ` set (zip (db_inbox db) (map unmarked (db_outbox db)))"
    using assms(2) by (metis image_eqI list.set_map)
  then show ?thesis by (auto simp: ledger_of_def)
qed

lemma ledger_of_commands:
  assumes "jet_inv db"
  shows "fst ` set (lg_answers (ledger_of db log acked)) = set (db_inbox db)"
proof -
  have "map fst (zip (db_inbox db) (map unmarked (db_outbox db))) = db_inbox db"
    using jet_inv_lengths [OF assms] by simp
  then have "fst ` set (zip (db_inbox db) (map unmarked (db_outbox db))) = set (db_inbox db)"
    by (metis list.set_map)
  then show ?thesis by (simp add: ledger_of_def)
qed

lemma ledger_of_knows:
  assumes "jet_inv db"
  shows "ledger_knows c (ledger_of db log acked) \<longleftrightarrow> command_recorded c db"
proof -
  have "ledger_knows c l \<longleftrightarrow> (\<exists>c' \<in> fst ` set (lg_answers l). ib_event_id c' = ac_event_id c
      \<or> ib_correlation_id c' = ac_correlation_id c \<or> ib_dedupe_key c' = ac_dedupe_key c)" for l
    by (force simp: ledger_knows_def)
  then have "ledger_knows c (ledger_of db log acked) \<longleftrightarrow> (\<exists>c' \<in> set (db_inbox db). ib_event_id c' = ac_event_id c
      \<or> ib_correlation_id c' = ac_correlation_id c \<or> ib_dedupe_key c' = ac_dedupe_key c)"
    by (simp only: ledger_of_commands [OF assms])
  also have "\<dots> \<longleftrightarrow> command_recorded c db" unfolding command_recorded_def image_iff by metis
  finally show ?thesis .
qed

lemma ledger_of_settled:
  assumes inv: "ledger_inv lib (ledger_of db log acked)" and jet: "jet_inv db"
    and q: "q \<in> set (db_outbox db)" "ob_published_at q \<noteq> None"
  shows "\<exists>m \<in> set log. outbox_message lib q = Some m"
proof -
  have "ob_dedupe_key q \<in> lg_settled (ledger_of db log acked)" using q by (auto simp: ledger_of_def)
  with inv obtain c r m where r: "(c, r) \<in> set (lg_answers (ledger_of db log acked))" "ob_dedupe_key r = ob_dedupe_key q"
    "m \<in> set (lg_sent (ledger_of db log acked))" "outbox_message lib r = Some m"
    unfolding ledger_inv_def by fast
  then have "r \<in> set (map unmarked (db_outbox db))" by (auto simp: ledger_of_def dest: set_zip_rightD)
  then obtain x where x: "x \<in> set (db_outbox db)" "r = unmarked x" by auto
  have "inj_on ob_dedupe_key (set (db_outbox db))" using jet by (simp add: jet_inv_def db_wf_def distinct_map)
  then have "x = q" using x r(2) q(1) by (auto dest: inj_onD)
  with r(3,4) x(2) show ?thesis by (auto simp: ledger_of_def)
qed

text \<open>Adding a command with its reply is answering it; acknowledging a recorded command is allowed.\<close>

lemma ledger_of_answer:
  assumes inv: "jet_inv db" and ans: "answers c r"
    and new: "ib_event_id c \<notin> ib_event_id ` set (db_inbox db)"
      "ib_correlation_id c \<notin> ib_correlation_id ` set (db_inbox db)"
      "ib_dedupe_key c \<notin> ib_dedupe_key ` set (db_inbox db)" "ob_event_id r \<notin> ob_event_id ` set (db_outbox db)"
    and db': "db_inbox db' = db_inbox db @ [c]" "db_outbox db' = db_outbox db @ [r]"
  shows "ledger_step lib (ledger_of db log acked) (ledger_of db' log acked)"
proof -
  let ?l = "ledger_of db log acked"
  have r: "ob_published_at r = None" using ans by (simp add: answers_def)
  have "entry_fresh c r ?l"
    unfolding entry_fresh_def ledger_of_def ledger.select_convs
  proof (clarify, intro conjI)
    fix c' r'
    assume e: "(c', r') \<in> set (zip (db_inbox db) (map unmarked (db_outbox db)))"
    show "ib_event_id c' \<noteq> ib_event_id c" "ib_correlation_id c' \<noteq> ib_correlation_id c" "ib_dedupe_key c' \<noteq> ib_dedupe_key c"
      using set_zip_leftD [OF e] new(1-3) by (metis image_eqI)+
    show "ob_event_id r' \<noteq> ob_event_id r" using set_zip_rightD [OF e] new(4) by (auto simp: image_iff)
  qed
  then have "ledger_step lib ?l (?l\<lparr>lg_answers := lg_answers ?l @ [(c, r)]\<rparr>)" using ans by (rule Answer)
  moreover have "?l\<lparr>lg_answers := lg_answers ?l @ [(c, r)]\<rparr> = ledger_of db' log acked"
    using jet_inv_lengths [OF inv] db' r by (auto simp: ledger_of_def unmarked_id)
  ultimately show ?thesis by simp
qed

lemma ledger_of_acknowledge:
  assumes "jet_inv db" and "command_from_slice lib p = Some c" and "command_recorded c db"
  shows "ledger_step lib (ledger_of db log acked) (ledger_of db log (p # acked))"
  using Acknowledge [OF assms(2), of "ledger_of db log acked"] assms ledger_of_knows [OF assms(1)]
  by (simp add: ledger_of_def)

text \<open>Publishing a row sends its reply, and marking it afterwards settles it.\<close>

lemma ledger_of_mark:
  assumes inv: "jet_inv db" and q: "q \<in> set (db_outbox db)" "same_reply row q"
  shows "ledger_of (mark_outbox (ob_event_id row) now db) log acked = (ledger_of db log acked)
    \<lparr>lg_settled := insert (ob_dedupe_key (unmarked q)) (lg_settled (ledger_of db log acked))\<rparr>"
proof -
  let ?i = "ob_event_id row"
  have i: "ob_event_id q = ?i" using same_reply_fields [OF q(2)] by simp
  have "distinct (map ob_event_id (db_outbox db))" using inv by (simp add: jet_inv_def db_wf_def)
  then have only: "x = q" if "x \<in> set (db_outbox db)" "ob_event_id x = ?i" for x
    using that q(1) i by (simp add: distinct_map inj_on_def)
  have "ob_dedupe_key ` {x \<in> set (db_outbox (mark_outbox ?i now db)). ob_published_at x \<noteq> None}
      = insert (ob_dedupe_key q) (ob_dedupe_key ` {x \<in> set (db_outbox db). ob_published_at x \<noteq> None})" (is "?A = ?B")
  proof
    show "?A \<subseteq> ?B" using only by (auto simp: mark_outbox_def)
    let ?f = "\<lambda>r. if ob_event_id r = ?i \<and> ob_published_at r = None then r\<lparr>ob_published_at := Some now\<rparr> else r"
    have "ob_dedupe_key x \<in> ?A" if "x \<in> set (db_outbox db)" "ob_published_at (?f x) \<noteq> None" for x
    proof (rule image_eqI)
      show "ob_dedupe_key x = ob_dedupe_key (?f x)" by simp
      show "?f x \<in> {x \<in> set (db_outbox (mark_outbox ?i now db)). ob_published_at x \<noteq> None}"
        using that by (simp add: mark_outbox_def)
    qed
    then show "?B \<subseteq> ?A" using q(1) i by auto
  qed
  then show ?thesis by (simp add: ledger_of_def unmarked_mark_outbox) (simp add: mark_outbox_def)
qed

lemma ledger_of_publish:
  assumes inv: "jet_inv db" and q: "q \<in> set (db_outbox db)" "same_reply row q"
    and run: "publish_row lib env row (db, log) = (r, db', log')"
  shows "(ledger_step lib)\<^sup>*\<^sup>* (ledger_of db log acked) (ledger_of db' log' acked)"
proof -
  obtain c where "(c, unmarked q) \<in> set (lg_answers (ledger_of db [] []))" using ledger_entry [OF inv q(1)] by blast
  then have c: "(c, unmarked q) \<in> set (lg_answers (ledger_of db l a))" for l a by (simp add: ledger_of_def)
  have msg: "outbox_message lib (unmarked q) = outbox_message lib row" using outbox_message_same [OF q(2), of lib] by simp
  from run show ?thesis
  proof (cases rule: publish_row_cases)
    case (failed e)
    then show ?thesis by simp
  next
    case (unmarked e m)
    have "ledger_step lib (ledger_of db log acked) (ledger_of db log' acked)"
      using Send [OF c, of lib m log acked] msg unmarked(2,4) by (simp add: ledger_of_def)
    with unmarked(3) show ?thesis by simp
  next
    case (sent m)
    have "ledger_step lib (ledger_of db log acked) (ledger_of db log' acked)"
      using Send [OF c, of lib m log acked] msg sent(1,2) by (simp add: ledger_of_def)
    moreover have "ledger_step lib (ledger_of db log' acked) (ledger_of db' log' acked)"
      using Settle [OF c, of lib m log' acked] msg sent(1,2) unfolding sent(3) ledger_of_mark [OF inv q] by (simp add: ledger_of_def)
    ultimately show ?thesis by simp
  qed
qed

end
