(* ===== verification/Api.thy ===== *)
theory Api
  imports Envelope "HOL-Library.Sublist"
begin

text \<open>
  The HTTP interface of \<open>src/src/lib.rs\<close>: the shared state, the error responses, the route table,
  every handler, and the loop that forwards alert events to a web socket. The extractors and the
  JSON writers of the web framework are parameters.
\<close>

section \<open>Data\<close>

definition MAX_JSON_BODY_BYTES :: nat where "MAX_JSON_BODY_BYTES = 32 * 1024"

record scoped_alert_event =
  sv_product_tenant :: rstring
  sv_owner_subject :: uuid
  sv_kind :: rstring
  sv_alert :: alert_rule

text \<open>The sender of the broadcast channel stands for the events sent so far, oldest first.\<close>

record app_state =
  app_store :: alert_store
  app_auth :: auth_boundary
  app_events :: "scoped_alert_event list"
  app_mtls_configured :: bool
  app_jetstream_configured :: bool

datatype api_error = Api_Unauthorized | Api_Degraded | Api_InvalidRequest | Api_NotFound | Api_Unavailable

fun api_error_message :: "api_error \<Rightarrow> string" where
  "api_error_message Api_Unauthorized = ''unauthorized''"
| "api_error_message Api_Degraded = ''identity authority unavailable''"
| "api_error_message Api_InvalidRequest = ''invalid request''"
| "api_error_message Api_NotFound = ''not found''"
| "api_error_message Api_Unavailable = ''service unavailable''"

fun api_of_auth_error :: "auth_error \<Rightarrow> api_error" where
  "api_of_auth_error Auth_Unauthorized = Api_Unauthorized"
| "api_of_auth_error Auth_Degraded = Api_Degraded"
| "api_of_auth_error Auth_Configuration = Api_Degraded"

datatype response_body =
    Body_Empty
  | Body_Json json
  | Body_Health health
  | Body_Alert alert_rule
  | Body_Alerts "alert_rule list"

type_synonym response = "nat \<times> response_body"

fun api_error_status :: "api_error \<Rightarrow> nat" where
  "api_error_status Api_Unauthorized = 401"
| "api_error_status Api_Degraded = 503"
| "api_error_status Api_Unavailable = 503"
| "api_error_status Api_InvalidRequest = 400"
| "api_error_status Api_NotFound = 404"

definition into_response :: "api_error \<Rightarrow> response" where
  "into_response e =
     (api_error_status e, Body_Json (JObject [(rs ''error'', JString (rs (api_error_message e)))]))"

datatype http_method = GET | HEAD | POST | Other_Method

record request =
  rq_method :: http_method
  rq_path :: rstring
  rq_headers :: header_map
  rq_body :: "u8 list"

text \<open>
  The framework: whether the headers announce JSON, decoding a JSON body of a request (an error is
  the status it answers with), the identifier in a path segment, the web socket handshake of a method and headers, the JSON
  of an event (the tenant and the owner are skipped), and the capabilities document of \<open>src/src/web_api_plane.rs\<close>.
\<close>

record http_lib = wire_lib +
  json_content_type :: "header_map \<Rightarrow> bool"
  json_body :: "header_map \<Rightarrow> u8 list \<Rightarrow> (create_alert_rule, nat) result"
  path_uuid :: "rstring \<Rightarrow> uuid option"
  ws_handshake :: "http_method \<Rightarrow> header_map \<Rightarrow> (unit, nat) result"
  event_json :: "rstring \<Rightarrow> alert_rule \<Rightarrow> rstring option"
  capabilities_json :: json

text \<open>What the framework promises of its rejections: they are answered with an error status.\<close>

definition rejections_are_errors :: "'x http_lib_scheme \<Rightarrow> bool" where
  "rejections_are_errors lib \<longleftrightarrow>
     (\<forall>headers body status. json_body lib headers body = Inl status \<longrightarrow> 400 \<le> status) \<and>
     (\<forall>method headers status. ws_handshake lib method headers = Inl status \<longrightarrow> 400 \<le> status)"

record api_env =
  ae_clock :: system_time
  ae_store :: store_env

section \<open>Handlers\<close>

definition health_reply :: "app_state \<Rightarrow> health" where
  "health_reply app =
     \<lparr>service = rs ''eal-api-server'', health_status = rs ''ok'',
      h_database_configured = database_configured (app_store app), h_shared_auth_configured = True,
      h_mtls_configured = app_mtls_configured app, h_jetstream_configured = app_jetstream_configured app\<rparr>"

definition list_alerts ::
  "'x store_lib_scheme \<Rightarrow> api_env \<Rightarrow> app_state \<Rightarrow> header_map \<Rightarrow> (alert_rule list, api_error) result" where
  "list_alerts lib env app headers =
     and_then (map_err api_of_auth_error
                 (verify_authorization lib (app_auth app) (ae_clock env) headers READ_SCOPE)) (\<lambda>actor.
     map_err (\<lambda>_. Api_Unavailable) (store_list lib (ae_store env) (app_store app) actor))"

definition get_alert ::
  "'x store_lib_scheme \<Rightarrow> api_env \<Rightarrow> app_state \<Rightarrow> header_map \<Rightarrow> uuid \<Rightarrow> (alert_rule, api_error) result" where
  "get_alert lib env app headers i =
     and_then (map_err api_of_auth_error
                 (verify_authorization lib (app_auth app) (ae_clock env) headers READ_SCOPE)) (\<lambda>actor.
     and_then (map_err (\<lambda>_. Api_Unavailable) (store_get lib (ae_store env) (app_store app) actor i)) (\<lambda>found.
     ok_or Api_NotFound found))"

definition created_event :: "verified_actor \<Rightarrow> alert_rule \<Rightarrow> scoped_alert_event" where
  "created_event actor alert =
     \<lparr>sv_product_tenant = va_product_tenant actor, sv_owner_subject = va_subject actor,
      sv_kind = rs ''created'', sv_alert = alert\<rparr>"

definition create_alert ::
  "'x store_lib_scheme \<Rightarrow> api_env \<Rightarrow> app_state \<Rightarrow> header_map \<Rightarrow> create_alert_rule
     \<Rightarrow> (nat \<times> alert_rule, api_error) result \<times> app_state" where
  "create_alert lib env app headers input =
     (case verify_authorization lib (app_auth app) (ae_clock env) headers WRITE_SCOPE of
        Inl e \<Rightarrow> (Err (api_of_auth_error e), app)
      | Inr actor \<Rightarrow>
          (case validate input of
             Inl _ \<Rightarrow> (Err Api_InvalidRequest, app)
           | Inr _ \<Rightarrow>
               (case store_create lib (ae_store env) (app_store app) actor input of
                  (Inl _, st) \<Rightarrow> (Err Api_Unavailable, app\<lparr>app_store := st\<rparr>)
                | (Inr alert, st) \<Rightarrow>
                    (Ok (201, alert),
                     app\<lparr>app_store := st, app_events := app_events app @ [created_event actor alert]\<rparr>))))"

definition ws_upgrade ::
  "'x store_lib_scheme \<Rightarrow> api_env \<Rightarrow> app_state \<Rightarrow> header_map \<Rightarrow> (verified_actor, api_error) result" where
  "ws_upgrade lib env app headers =
     map_err api_of_auth_error (verify_authorization lib (app_auth app) (ae_clock env) headers READ_SCOPE)"

section \<open>Routes\<close>

datatype api_route =
  Route_Health | Route_Capabilities | Route_Alerts | Route_Alert rstring | Route_Web_Alerts | Route_Ws

definition match_route :: "rstring \<Rightarrow> api_route option" where
  "match_route path =
     (if path = rs ''/healthz'' \<or> path = rs ''/readyz'' then Some Route_Health
      else if path = rs ''/v1/data-plane/capabilities'' then Some Route_Capabilities
      else if path = rs ''/v1/alerts'' then Some Route_Alerts
      else if path = rs ''/v1/web/alerts'' then Some Route_Web_Alerts
      else if path = rs ''/v1/ws'' then Some Route_Ws
      else case strip_prefix (rs ''/v1/alerts/'') path of
             Some i \<Rightarrow> if i \<noteq> [] \<and> 47 \<notin> set i then Some (Route_Alert i) else None
           | None \<Rightarrow> None)"

definition respond :: "('a \<Rightarrow> response) \<Rightarrow> ('a, api_error) result \<Rightarrow> response" where
  "respond f r = (case r of Inl e \<Rightarrow> into_response e | Inr a \<Rightarrow> f a)"

text \<open>A \<open>get\<close> route: it also answers \<open>HEAD\<close>, without a body; other methods are not allowed.\<close>

definition get_route :: "http_method \<Rightarrow> response \<Rightarrow> response" where
  "get_route method r =
     (case method of GET \<Rightarrow> r | HEAD \<Rightarrow> (fst r, Body_Empty) | _ \<Rightarrow> (405, Body_Empty))"

definition post_alerts ::
  "'x http_lib_scheme \<Rightarrow> api_env \<Rightarrow> app_state \<Rightarrow> request \<Rightarrow> response \<times> app_state" where
  "post_alerts lib env app req =
     (if \<not> json_content_type lib (rq_headers req) then ((415, Body_Empty), app)
      else if MAX_JSON_BODY_BYTES < length (rq_body req) then ((413, Body_Empty), app)
      else case json_body lib (rq_headers req) (rq_body req) of
             Inl status \<Rightarrow> ((status, Body_Empty), app)
           | Inr input \<Rightarrow>
               (case create_alert lib env app (rq_headers req) input of
                  (r, app') \<Rightarrow> (respond (\<lambda>(status, alert). (status, Body_Alert alert)) r, app')))"

definition handle_request ::
  "'x http_lib_scheme \<Rightarrow> api_env \<Rightarrow> app_state \<Rightarrow> request \<Rightarrow> response \<times> app_state" where
  "handle_request lib env app req =
     (let listing = respond (\<lambda>alerts. (200, Body_Alerts alerts)) (list_alerts lib env app (rq_headers req)) in
      case match_route (rq_path req) of
        None \<Rightarrow> ((404, Body_Empty), app)
      | Some Route_Health \<Rightarrow> (get_route (rq_method req) (200, Body_Health (health_reply app)), app)
      | Some Route_Capabilities \<Rightarrow> (get_route (rq_method req) (200, Body_Json (capabilities_json lib)), app)
      | Some Route_Alerts \<Rightarrow>
          (if rq_method req = POST then post_alerts lib env app req
           else (get_route (rq_method req) listing, app))
      | Some Route_Web_Alerts \<Rightarrow> (get_route (rq_method req) listing, app)
      | Some (Route_Alert segment) \<Rightarrow>
          (get_route (rq_method req)
             (case path_uuid lib segment of
                None \<Rightarrow> (400, Body_Empty)
              | Some i \<Rightarrow> respond (\<lambda>alert. (200, Body_Alert alert)) (get_alert lib env app (rq_headers req) i)),
           app)
      | Some Route_Ws \<Rightarrow>
          (get_route (rq_method req)
             (case ws_handshake lib (rq_method req) (rq_headers req) of
                Inl status \<Rightarrow> (status, Body_Empty)
              | Inr _ \<Rightarrow> respond (\<lambda>_. (101, Body_Empty)) (ws_upgrade lib env app (rq_headers req))),
           app))"

fun run_server :: "'x http_lib_scheme \<Rightarrow> app_state \<Rightarrow> (api_env \<times> request) list \<Rightarrow> app_state" where
  "run_server lib app [] = app"
| "run_server lib app ((env, req) # reqs) = run_server lib (snd (handle_request lib env app req)) reqs"

section \<open>The web socket\<close>

text \<open>
  What the loop of a web socket selects, in order: a message of the client, its end or an error,
  and a received event with whether the message could be sent, a lag or the end of the channel.
\<close>

datatype ws_input =
    Client_Close | Client_Message | Client_Gone | Client_Error
  | Event scoped_alert_event bool | Event_Lagged | Event_Closed

definition event_for :: "verified_actor \<Rightarrow> scoped_alert_event \<Rightarrow> bool" where
  "event_for actor e \<longleftrightarrow>
     sv_product_tenant e = va_product_tenant actor \<and> sv_owner_subject e = va_subject actor"

text \<open>One turn of the loop: the texts it sends, and whether the loop goes on.\<close>

fun ws_turn :: "'x http_lib_scheme \<Rightarrow> verified_actor \<Rightarrow> ws_input \<Rightarrow> rstring list \<times> bool" where
  "ws_turn lib actor Client_Close = ([], False)"
| "ws_turn lib actor Client_Gone = ([], False)"
| "ws_turn lib actor Client_Message = ([], True)"
| "ws_turn lib actor Client_Error = ([], False)"
| "ws_turn lib actor (Event e sent) =
     (if event_for actor e
      then case event_json lib (sv_kind e) (sv_alert e) of
             None \<Rightarrow> ([], False)
           | Some payload \<Rightarrow> if sent then ([payload], True) else ([], False)
      else ([], True))"
| "ws_turn lib actor Event_Lagged = ([], False)"
| "ws_turn lib actor Event_Closed = ([], False)"

fun websocket :: "'x http_lib_scheme \<Rightarrow> verified_actor \<Rightarrow> ws_input list \<Rightarrow> rstring list" where
  "websocket lib actor [] = []"
| "websocket lib actor (i # is) =
     (let (sent, continues) = ws_turn lib actor i in sent @ (if continues then websocket lib actor is else []))"

text \<open>
  The broadcast channel: the events a subscriber receives are consecutive events of those sent
  from its subscription on.
\<close>

definition received_events :: "ws_input list \<Rightarrow> scoped_alert_event list" where
  "received_events is = concat (map (\<lambda>i. case i of Event e _ \<Rightarrow> [e] | _ \<Rightarrow> []) is)"

definition broadcast_delivery :: "scoped_alert_event list \<Rightarrow> ws_input list \<Rightarrow> bool" where
  "broadcast_delivery sent is \<longleftrightarrow> (\<exists>k. prefix (received_events is) (drop k sent))"

section \<open>Facts about requests\<close>

lemma create_alert_cases:
  obtains (refused) e where "create_alert lib env app headers input = (Inl e, app)"
  | (failed) actor e st where
      "verify_authorization lib (app_auth app) (ae_clock env) headers WRITE_SCOPE = Inr actor"
      "store_create lib (ae_store env) (app_store app) actor input = (Inl e, st)"
      "create_alert lib env app headers input = (Inl Api_Unavailable, app\<lparr>app_store := st\<rparr>)"
  | (created) actor alert st where
      "verify_authorization lib (app_auth app) (ae_clock env) headers WRITE_SCOPE = Inr actor"
      "validate input = Inr ()"
      "store_create lib (ae_store env) (app_store app) actor input = (Inr alert, st)"
      "create_alert lib env app headers input =
        (Inr (201, alert), app\<lparr>app_store := st, app_events := app_events app @ [created_event actor alert]\<rparr>)"
proof (cases "verify_authorization lib (app_auth app) (ae_clock env) headers WRITE_SCOPE")
  case (Inl e)
  then show ?thesis by (intro refused) (simp add: create_alert_def)
next
  case (Inr actor)
  obtain r st where c: "store_create lib (ae_store env) (app_store app) actor input = (r, st)" by fastforce
  show ?thesis
  proof (cases "validate input")
    case (Inl e)
    with Inr show ?thesis by (intro refused) (simp add: create_alert_def)
  next
    case v: (Inr u)
    show ?thesis
    proof (cases r)
      case (Inl e)
      with Inr c v show ?thesis by (intro failed [of actor e st]) (simp_all add: create_alert_def)
    next
      case ok: (Inr alert)
      with Inr c v show ?thesis by (intro created [of actor alert st]) (simp_all add: create_alert_def)
    qed
  qed
qed

lemma match_route_alerts:
  "match_route (rs ''/v1/alerts'') = Some Route_Alerts"
  "segment \<noteq> [] \<Longrightarrow> 47 \<notin> set segment \<Longrightarrow> match_route (rs ''/v1/alerts/'' @ segment) = Some (Route_Alert segment)"
proof -
  show "match_route (rs ''/v1/alerts'') = Some Route_Alerts" by (simp add: match_route_def)
  show "match_route (rs ''/v1/alerts/'' @ segment) = Some (Route_Alert segment)"
    if "segment \<noteq> []" "47 \<notin> set segment"
    using that by (simp add: match_route_def strip_prefix_def starts_with_def)
qed

text \<open>
  A request changes the server's state only through the store's creation, by an authorised actor;
  an event is sent exactly when the creation was answered.
\<close>

lemma handle_request_state:
  assumes "handle_request lib env app req = (resp, app')"
  obtains (unchanged) "app' = app" "\<forall>a. resp \<noteq> (201, Body_Alert a)"
  | (failed) actor input e st where "rq_method req = POST" "match_route (rq_path req) = Some Route_Alerts"
      "verify_authorization lib (app_auth app) (ae_clock env) (rq_headers req) WRITE_SCOPE = Inr actor"
      "store_create lib (ae_store env) (app_store app) actor input = (Inl e, st)"
      "resp = into_response Api_Unavailable" "app' = app\<lparr>app_store := st\<rparr>"
      "json_body lib (rq_headers req) (rq_body req) = Inr input"
  | (created) actor input alert st where "rq_method req = POST" "match_route (rq_path req) = Some Route_Alerts"
      "length (rq_body req) \<le> MAX_JSON_BODY_BYTES" "json_body lib (rq_headers req) (rq_body req) = Inr input"
      "verify_authorization lib (app_auth app) (ae_clock env) (rq_headers req) WRITE_SCOPE = Inr actor"
      "store_create lib (ae_store env) (app_store app) actor input = (Inr alert, st)"
      "resp = (201, Body_Alert alert)"
      "app' = app\<lparr>app_store := st, app_events := app_events app @ [created_event actor alert]\<rparr>"
proof (cases "rq_method req = POST \<and> match_route (rq_path req) = Some Route_Alerts")
  case False
  with assms have "app' = app" "\<forall>a. resp \<noteq> (201, Body_Alert a)"
    by (auto simp: handle_request_def Let_def get_route_def respond_def into_response_def
        split: option.splits api_route.splits http_method.splits sum.splits)
  then show ?thesis by (rule unchanged)
next
  case True
  with assms have post: "post_alerts lib env app req = (resp, app')" by (simp add: handle_request_def)
  show ?thesis
  proof (cases "json_content_type lib (rq_headers req) \<and> length (rq_body req) \<le> MAX_JSON_BODY_BYTES \<and> (\<exists>input. json_body lib (rq_headers req) (rq_body req) = Inr input)")
    case False
    with post have "app' = app" "\<forall>a. resp \<noteq> (201, Body_Alert a)"
      by (auto simp: post_alerts_def split: sum.splits if_splits)
    then show ?thesis by (rule unchanged)
  next
    case ok: True
    then obtain input where input: "json_body lib (rq_headers req) (rq_body req) = Inr input" by blast
    show ?thesis
    proof (cases rule: create_alert_cases [of lib env app "rq_headers req" input])
      case (refused e)
      with post ok input show ?thesis
        by (intro unchanged) (auto simp: post_alerts_def respond_def into_response_def)
    next
      case f: (failed actor e st)
      have "resp = into_response Api_Unavailable" "app' = app\<lparr>app_store := st\<rparr>"
        using post ok input f(3) by (auto simp: post_alerts_def respond_def)
      with True input f(1,2) show ?thesis using failed by blast
    next
      case c: (created actor alert st)
      have "resp = (201, Body_Alert alert)"
        "app' = app\<lparr>app_store := st, app_events := app_events app @ [created_event actor alert]\<rparr>"
        using post ok input c(4) by (auto simp: post_alerts_def respond_def)
      with True ok input c show ?thesis using created by blast
    qed
  qed
qed

lemma handle_request_auth: "app_auth (snd (handle_request lib env app req)) = app_auth app"
proof -
  obtain resp app' where h: "handle_request lib env app req = (resp, app')" by fastforce
  show ?thesis unfolding h snd_conv using h by (cases rule: handle_request_state) simp_all
qed

text \<open>Every event goes back to a creation that the event's owner was authorised for.\<close>

definition event_origin ::
  "'x http_lib_scheme \<Rightarrow> auth_boundary \<Rightarrow> (api_env \<times> request) list \<Rightarrow> verified_actor \<Rightarrow> scoped_alert_event \<Rightarrow> bool" where
  "event_origin lib ab reqs actor e \<longleftrightarrow>
     (\<exists>env req input i now. (env, req) \<in> set reqs \<and> rq_method req = POST \<and>
        match_route (rq_path req) = Some Route_Alerts \<and>
        verify_authorization lib ab (ae_clock env) (rq_headers req) WRITE_SCOPE = Inr actor \<and>
        json_body lib (rq_headers req) (rq_body req) = Inr input \<and> validate input = Inr () \<and>
        e = created_event actor (into_rule input i now))"

lemma event_origin_mono:
  "event_origin lib ab reqs actor e \<Longrightarrow> set reqs \<subseteq> set reqs' \<Longrightarrow> event_origin lib ab reqs' actor e"
  unfolding event_origin_def by blast

lemma event_for_created: "event_for actor (created_event other a) \<longleftrightarrow> other = actor"
  by (cases actor; cases other) (auto simp: event_for_def created_event_def)

lemma run_server_events:
  assumes "e \<in> set (app_events (run_server lib app reqs))" and "event_for actor e"
  shows "e \<in> set (app_events app) \<or> event_origin lib (app_auth app) reqs actor e"
  using assms
proof (induction reqs arbitrary: app)
  case (Cons r reqs)
  obtain env req where r: "r = (env, req)" by (cases r)
  obtain resp app' where h: "handle_request lib env app req = (resp, app')" by fastforce
  have auth: "app_auth app' = app_auth app" using handle_request_auth [of lib env app req] h by simp
  from Cons.IH [of app'] Cons.prems r h auth
  have "e \<in> set (app_events app') \<or> event_origin lib (app_auth app) reqs actor e" by simp
  then show ?case
  proof
    assume "event_origin lib (app_auth app) reqs actor e"
    then show ?thesis by (auto intro: event_origin_mono)
  next
    assume e: "e \<in> set (app_events app')"
    from h show ?thesis
    proof (cases rule: handle_request_state)
      case unchanged
      with e show ?thesis by simp
    next
      case (failed act input x st)
      with e show ?thesis by simp
    next
      case (created act input alert st)
      show ?thesis
      proof (cases "e \<in> set (app_events app)")
        case False
        with e created(8) have ev: "e = created_event act alert" by simp
        with Cons.prems(2) have "act = actor" by (simp add: event_for_created)
        with ev created(1,2,4,5) store_create_Ok(1,2) [OF created(6)]
        have "event_origin lib (app_auth app) (r # reqs) actor e"
          unfolding event_origin_def r by fastforce
        then show ?thesis ..
      qed simp
    qed
  qed
qed simp

lemma websocket_payload:
  assumes "m \<in> set (websocket lib actor is)"
  shows "\<exists>e \<in> set (received_events is). event_for actor e \<and> event_json lib (sv_kind e) (sv_alert e) = Some m"
  using assms
proof (induction "is")
  case (Cons i "is")
  then show ?case
    by (cases i) (auto simp: received_events_def Let_def split: if_splits option.splits)
qed simp

section \<open>Sample data\<close>

definition sample_http_lib :: http_lib where
  "sample_http_lib =
     \<lparr>uuid_parse_str = uuid_parse_str_ref, uuid_to_string = uuid_to_string_ref,
      header_to_str = Some, has_scope = (\<lambda>c s. True),
      client_try_new = (\<lambda>b. Some \<lparr>sac_base = b, sac_service_credential = None, sac_max_response_bytes = None\<rparr>),
      introspect_with_requirements = (\<lambda>_ _ _ _ _. Inr sample_claims),
      json_of_strings = json_of_strings sample_store_lib, jsonb_in = jsonb_in sample_store_lib,
      strings_from_value = strings_from_value sample_store_lib,
      timestamptz_in = timestamptz_in sample_store_lib,
      hmac_sha256 = hmac_sha256 sample_wire_lib, hmac_verify_slice = hmac_verify_slice sample_wire_lib,
      hex_encode = hex_encode sample_wire_lib, hex_decode = hex_decode sample_wire_lib,
      operation_from_slice = operation_from_slice sample_wire_lib,
      command_from_slice = command_from_slice sample_wire_lib,
      reply_to_vec = reply_to_vec sample_wire_lib, alerts_to_json = alerts_to_json sample_wire_lib,
      event_to_value = event_to_value sample_wire_lib, json_to_vec = json_to_vec sample_wire_lib,
      text_as_uuid = text_as_uuid sample_wire_lib, jsonb_value = jsonb_value sample_wire_lib,
      nats_header_value = nats_header_value sample_wire_lib,
      json_content_type = (\<lambda>_. True), json_body = (\<lambda>_ b. if b = [1] then Inr sample_input else Inl 400),
      path_uuid = uuid_parse_str_ref, ws_handshake = (\<lambda>m _. if m = GET then Inr () else Inl 405),
      event_json = (\<lambda>k a. Some (k @ rs '':'' @ ar_name a)), capabilities_json = JObject []\<rparr>"

definition sample_app :: app_state where
  "sample_app = \<lparr>app_store = new_store None, app_auth = sample_boundary, app_events = [],
     app_mtls_configured = False, app_jetstream_configured = False\<rparr>"

definition sample_api_env :: api_env where
  "sample_api_env = \<lparr>ae_clock = sample_clock, ae_store = sample_env_up\<rparr>"

definition sample_post :: request where
  "sample_post = \<lparr>rq_method = POST, rq_path = rs ''/v1/alerts'', rq_headers = sample_headers, rq_body = [1]\<rparr>"

lemma sample_http_verified_by:
  assumes "bounded_identifier scope" and "ab_policy ab = sample_policy"
  shows "verify_authorization sample_http_lib ab sample_clock sample_headers scope = Inr sample_actor"
proof -
  have "bearer_from_headers sample_http_lib sample_headers = Inr (rs ''valid-token-value'')"
    unfolding bearer_from_headers_Ok_iff strict_credential_iff
    by (simp add: sample_http_lib_def sample_headers_def is_whitespace_def is_control_def)
  moreover from this have "strict_credential (rs ''valid-token-value'')"
    using bearer_from_headers_Ok_iff by blast
  moreover have "unix_seconds sample_clock = Inr 2000000002"
    by (simp add: unix_seconds_def duration_since_epoch_def sample_clock_def nat_div_distrib)
  moreover have "introspect_with_requirements sample_http_lib m c t a sc = Inr sample_claims" for m c t a sc
    by (simp add: sample_http_lib_def)
  moreover have "authorize_introspection sample_http_lib sample_claims sample_policy scope 2000000002 = Inr sample_actor"
    unfolding authorize_introspection_Ok_iff claim_string_eq_Some
    by (simp add: sample_claims_def sample_policy_def sample_http_lib_def sample_actor_def
        uuid_parse_str_ref_inverse bounded_identifier_def is_ascii_alphanumeric_def)
  ultimately show ?thesis using assms unfolding verify_authorization_Ok_iff verify_token_Ok_iff by auto
qed

lemma sample_boundary_policy: "ab_policy sample_boundary = sample_policy"
  by (simp add: sample_boundary_def)

lemmas sample_http_verified = sample_http_verified_by [OF _ sample_boundary_policy]

lemma sample_http_laws: "store_laws sample_http_lib"
  using store_sample_laws [OF store_sample_lib] by (simp add: store_laws_def sample_http_lib_def)

lemma sample_posted_by:
  assumes "ab_policy (app_auth app) = sample_policy" and "app_store app = new_store None"
  shows "handle_request sample_http_lib sample_api_env app sample_post =
     ((201, Body_Alert (into_rule sample_input 7 42000)),
      app\<lparr>app_store := snd (store_create sample_http_lib sample_env_up (new_store None) sample_actor sample_input),
          app_events := app_events app @ [created_event sample_actor (into_rule sample_input 7 42000)]\<rparr>)"
proof -
  have auth: "verify_authorization sample_http_lib (app_auth app) (ae_clock sample_api_env)
      (rq_headers sample_post) WRITE_SCOPE = Inr sample_actor"
    using sample_http_verified_by [OF bounded_identifier_scopes(2) assms(1)]
    by (simp add: sample_api_env_def sample_post_def)
  have body: "json_content_type sample_http_lib (rq_headers sample_post)"
    "json_body sample_http_lib (rq_headers sample_post) (rq_body sample_post) = Inr sample_input"
    by (simp_all add: sample_http_lib_def sample_post_def)
  have route: "rq_method sample_post = POST" "match_route (rq_path sample_post) = Some Route_Alerts"
    "length (rq_body sample_post) \<le> MAX_JSON_BODY_BYTES"
    by (simp_all add: sample_post_def match_route_def MAX_JSON_BODY_BYTES_def)
  have store: "store_create sample_http_lib (ae_store sample_api_env) (app_store app) sample_actor sample_input
      = (Inr (into_rule sample_input 7 42000),
         snd (store_create sample_http_lib sample_env_up (new_store None) sample_actor sample_input))"
    by (simp add: store_create_def sample_input_valid new_store_def assms(2) sample_api_env_def
        sample_env_up_def Let_def)
  with auth body route show ?thesis
    by (simp add: handle_request_def post_alerts_def create_alert_def sample_input_valid respond_def)
qed

lemma sample_posted:
  "handle_request sample_http_lib sample_api_env sample_app sample_post =
     ((201, Body_Alert (into_rule sample_input 7 42000)),
      sample_app\<lparr>app_store := snd (store_create sample_http_lib sample_env_up (new_store None) sample_actor sample_input),
                 app_events := [created_event sample_actor (into_rule sample_input 7 42000)]\<rparr>)"
  using sample_posted_by [of sample_app] sample_boundary_policy by (simp add: sample_app_def)

section \<open>Properties\<close>

text \<open>
  C9. Events reach their owner only: whatever requests the server has handled, every message that
  a web socket sends is the JSON of an alert that the socket's own actor created, through an
  authorised \<open>POST /v1/alerts\<close> whose body passed validation. It relies on the channel handing a
  subscriber consecutive events of those that were sent.
\<close>

theorem websocket_events_are_the_actors_own:
  assumes "app_events app = []" and "broadcast_delivery (app_events (run_server lib app reqs)) is"
    and "m \<in> set (websocket lib actor is)"
  shows "\<exists>env req input i now. (env, req) \<in> set reqs \<and> rq_method req = POST
    \<and> match_route (rq_path req) = Some Route_Alerts
    \<and> verify_authorization lib (app_auth app) (ae_clock env) (rq_headers req) WRITE_SCOPE = Ok actor
    \<and> json_body lib (rq_headers req) (rq_body req) = Ok input \<and> validate input = Ok ()
    \<and> event_json lib (rs ''created'') (into_rule input i now) = Some m"
proof -
  from websocket_payload [OF assms(3)] obtain e where e: "e \<in> set (received_events is)" "event_for actor e"
    "event_json lib (sv_kind e) (sv_alert e) = Some m" by blast
  from e(1) assms(2) have "e \<in> set (app_events (run_server lib app reqs))"
    unfolding broadcast_delivery_def by (metis in_set_dropD set_mono_prefix subsetD)
  from run_server_events [OF this e(2)] assms(1) have "event_origin lib (app_auth app) reqs actor e" by simp
  then obtain env req input i now where o: "(env, req) \<in> set reqs" "rq_method req = POST"
    "match_route (rq_path req) = Some Route_Alerts"
    "verify_authorization lib (app_auth app) (ae_clock env) (rq_headers req) WRITE_SCOPE = Inr actor"
    "json_body lib (rq_headers req) (rq_body req) = Inr input" "validate input = Inr ()"
    "e = created_event actor (into_rule input i now)"
    unfolding event_origin_def by blast
  moreover have "event_json lib (rs ''created'') (into_rule input i now) = Some m"
    using e(3) o(7) by (simp add: created_event_def)
  ultimately show ?thesis by blast
qed

theorem websocket_events_are_the_actors_own_witness:
  "\<exists>env req. (env, req) \<in> {(sample_api_env, sample_post)}
     \<and> verify_authorization sample_http_lib sample_boundary (ae_clock env) (rq_headers req) WRITE_SCOPE = Ok sample_actor"
proof -
  let ?e = "created_event sample_actor (into_rule sample_input 7 42000)"
  have run: "app_events (run_server sample_http_lib sample_app [(sample_api_env, sample_post)]) = [?e]"
    by (simp add: sample_posted)
  have ws: "websocket sample_http_lib sample_actor [Event ?e True]
      = [rs ''created'' @ rs '':'' @ ar_name (into_rule sample_input 7 42000)]"
    by (simp add: event_for_created) (simp add: sample_http_lib_def created_event_def)
  have "broadcast_delivery [?e] [Event ?e True]"
    unfolding broadcast_delivery_def by (rule exI [of _ 0]) (simp add: received_events_def)
  then have "broadcast_delivery (app_events (run_server sample_http_lib sample_app [(sample_api_env, sample_post)]))
      [Event ?e True]" by (simp only: run)
  moreover have "rs ''created'' @ rs '':'' @ ar_name (into_rule sample_input 7 42000)
      \<in> set (websocket sample_http_lib sample_actor [Event ?e True])" unfolding ws by simp
  ultimately show ?thesis
    using websocket_events_are_the_actors_own [of sample_app sample_http_lib] by (fastforce simp: sample_app_def)
qed

text \<open>
  Non-interference of web sockets: the messages a socket sends do not depend on the events of
  other actors. Leaving all of them out of what the loop receives gives the same messages.
\<close>

theorem foreign_events_are_invisible:
  "websocket lib actor (filter (\<lambda>i. case i of Event e _ \<Rightarrow> event_for actor e | _ \<Rightarrow> True) is)
     = websocket lib actor is"
proof (induction "is")
  case (Cons i "is")
  then show ?case by (cases i) (auto simp: Let_def split: option.splits)
qed simp

text \<open>
  C28. Requests without valid credentials neither change nor reveal anything: if the authority
  confirms neither the read nor the write scope, the server's state stays the same and the
  response is the same whatever alerts the store holds, on every route and for every method. On
  every route but the health and the capabilities routes the answer has an error status, so neither
  a listing, nor a \<open>HEAD\<close> request, nor an upgrade to a web socket succeeds. It relies on the
  framework answering its own rejections with error statuses.
\<close>

theorem unauthenticated_requests_learn_nothing:
  assumes "verify_authorization lib (app_auth app) (ae_clock env) (rq_headers req) READ_SCOPE = Err e"
    and "verify_authorization lib (app_auth app) (ae_clock env) (rq_headers req) WRITE_SCOPE = Err e'"
    and "database_configured st = database_configured (app_store app)"
    and "rejections_are_errors lib"
  shows "snd (handle_request lib env app req) = app
    \<and> fst (handle_request lib env (app\<lparr>app_store := st\<rparr>) req) = fst (handle_request lib env app req)
    \<and> (match_route (rq_path req) = Some Route_Health \<or> match_route (rq_path req) = Some Route_Capabilities
       \<or> 400 \<le> fst (fst (handle_request lib env app req)))
    \<and> (\<forall>xs. fst (handle_request lib env app req) \<noteq> (200, Body_Alerts xs))
    \<and> (\<forall>a s. fst (handle_request lib env app req) \<noteq> (s, Body_Alert a))"
proof -
  have status: "400 \<le> api_error_status x" for x by (cases x) simp_all
  show ?thesis
    using assms
    unfolding handle_request_def Let_def list_alerts_def get_alert_def ws_upgrade_def post_alerts_def create_alert_def
    by (auto simp: respond_def into_response_def get_route_def health_reply_def rejections_are_errors_def status
        split: option.splits api_route.splits http_method.splits sum.splits)
qed

theorem unauthenticated_requests_learn_nothing_witness:
  "handle_request sample_http_lib sample_api_env sample_app (sample_post\<lparr>rq_headers := []\<rparr>)
     = (into_response Api_Unauthorized, sample_app)"
proof -
  have none: "verify_authorization sample_http_lib (app_auth sample_app) (ae_clock sample_api_env)
      (rq_headers (sample_post\<lparr>rq_headers := []\<rparr>)) scope = Err Auth_Unauthorized" for scope
    by (simp add: verify_authorization_def bearer_from_headers_def)
  have "fst (handle_request sample_http_lib sample_api_env sample_app (sample_post\<lparr>rq_headers := []\<rparr>))
      = into_response Api_Unauthorized"
    using none [of WRITE_SCOPE]
    by (simp add: handle_request_def match_route_def sample_post_def post_alerts_def create_alert_def
        MAX_JSON_BODY_BYTES_def sample_http_lib_def respond_def)
  moreover have "rejections_are_errors sample_http_lib" by (simp add: rejections_are_errors_def sample_http_lib_def)
  ultimately show ?thesis
    using unauthenticated_requests_learn_nothing [OF none none refl] by (simp add: prod_eq_iff)
qed

text \<open>
  C27. Over HTTP an owner reads back what it wrote: after an answer \<open>201\<close> to a creation by an
  owner of fewer than a hundred alerts, a request for that identifier and one for the listing,
  with credentials of the same actor and a database that answers, both return the alert as the
  store keeps it.
\<close>

theorem created_alert_is_served:
  assumes "store_invar lib (app_store app)"
    and "handle_request lib env app req = ((201, Body_Alert a), app')"
    and "verify_authorization lib (app_auth app) (ae_clock env) (rq_headers req) WRITE_SCOPE = Ok actor"
    and "owner_count (app_store app) actor < 100"
    and "verify_authorization lib (app_auth app) (ae_clock env') headers READ_SCOPE = Ok actor"
    and "env_ok (ae_store env')" and "se_db_up (ae_store env')"
    and "path_uuid lib segment = Some (ar_id a)" and "segment \<noteq> []" and "47 \<notin> set segment"
  shows "\<exists>xs. handle_request lib env' app' \<lparr>rq_method = GET, rq_path = rs ''/v1/alerts'', rq_headers = headers, rq_body = []\<rparr>
      = ((200, Body_Alerts xs), app') \<and> store_stored lib (app_store app) a \<in> set xs
    \<and> handle_request lib env' app' \<lparr>rq_method = GET, rq_path = rs ''/v1/alerts/'' @ segment, rq_headers = headers, rq_body = []\<rparr>
      = ((200, Body_Alert (store_stored lib (app_store app) a)), app')"
  using assms(2)
proof (cases rule: handle_request_state)
  case (created act input alert st)
  have same: "act = actor" "alert = a" using created(5,7) assms(3) by simp_all
  have app': "app_store app' = st" "app_auth app' = app_auth app" using created(8) by simp_all
  obtain xs where "store_list lib (ae_store env') st actor = Inr xs" "store_stored lib (app_store app) a \<in> set xs"
    "store_get lib (ae_store env') st actor (ar_id a) = Inr (Some (store_stored lib (app_store app) a))"
    using store_read_back [OF assms(1) created(6) [unfolded same] assms(4,6,7)] by blast
  then show ?thesis
    using assms(5,8-10) app'
    by (intro exI [of _ xs])
       (simp add: handle_request_def match_route_alerts list_alerts_def get_alert_def respond_def get_route_def
          del: rs_simps)
qed (simp_all add: into_response_def)

theorem created_alert_is_served_witness:
  "\<exists>app' xs. handle_request sample_http_lib sample_api_env sample_app sample_post
        = ((201, Body_Alert (into_rule sample_input 7 42000)), app')
     \<and> handle_request sample_http_lib sample_api_env app'
         \<lparr>rq_method = GET, rq_path = rs ''/v1/alerts'', rq_headers = sample_headers, rq_body = []\<rparr>
        = ((200, Body_Alerts xs), app') \<and> xs \<noteq> []"
proof -
  have inv: "store_invar sample_http_lib (app_store sample_app)"
    using store_invar_new(1) [OF sample_http_laws] by (simp add: sample_app_def)
  have auth: "verify_authorization sample_http_lib (app_auth sample_app) (ae_clock sample_api_env) sample_headers scope
      = Ok sample_actor" if "bounded_identifier scope" for scope
    using sample_http_verified [OF that] by (simp add: sample_app_def sample_api_env_def)
  have w: "verify_authorization sample_http_lib (app_auth sample_app) (ae_clock sample_api_env) (rq_headers sample_post)
      WRITE_SCOPE = Ok sample_actor"
    using auth [OF bounded_identifier_scopes(2)] by (simp add: sample_post_def)
  have seg: "path_uuid sample_http_lib (uuid_to_string_ref 7) = Some (ar_id (into_rule sample_input 7 42000))"
    by (simp add: sample_http_lib_def uuid_parse_str_ref_inverse into_rule_def)
  have segment: "uuid_to_string_ref 7 \<noteq> []" "47 \<notin> set (uuid_to_string_ref 7)"
    using hyphenated_chars hex_digits_chars unfolding uuid_to_string_ref_def
    by (simp add: hyphenated_def, fastforce)
  have env: "env_ok (ae_store sample_api_env)" "se_db_up (ae_store sample_api_env)"
    using sample_env_up_ok by (simp_all add: sample_api_env_def)
  have few: "owner_count (app_store sample_app) sample_actor < 100"
    by (simp add: owner_count_def sample_app_def new_store_def)
  from created_alert_is_served [OF inv sample_posted w few auth [OF bounded_identifier_scopes(1)] env seg segment]
  show ?thesis using sample_posted by auto
qed

end
