(* ===== verification/Server_System.thy ===== *)
theory Server_System
  imports Ledger Api
begin

text \<open>
  The parts that share the database, running side by side: HTTP requests, the JetStream consumer,
  the outbox publisher and restarts of the process, as one step relation. A command's transaction
  is one step; the publisher takes one step per row, on the rows it read at the start of a round,
  while the other parts go on.
\<close>

section \<open>State and steps\<close>

text \<open>
  The database outlives the process. The published messages and the acknowledged payloads are
  what the broker has seen; the batch is what the publisher still has to send of its round.
\<close>

record system =
  sy_app :: app_state
  sy_batch :: "outbox_row list"
  sy_log :: "published list"
  sy_acked :: "u8 list list"

definition system_db :: "system \<Rightarrow> database option" where
  "system_db s = as_database (app_store (sy_app s))"

definition set_db :: "database \<Rightarrow> system \<Rightarrow> system" where
  "set_db db s = s\<lparr>sy_app := (sy_app s)\<lparr>app_store := (app_store (sy_app s))\<lparr>as_database := Some db\<rparr>\<rparr>\<rparr>"

definition http_step :: "'x http_lib_scheme \<Rightarrow> api_env \<Rightarrow> request \<Rightarrow> system \<Rightarrow> system" where
  "http_step lib env req s = s\<lparr>sy_app := snd (handle_request lib env (sy_app s) req)\<rparr>"

definition consume_step ::
  "'x wire_lib_scheme \<Rightarrow> u8 list \<Rightarrow> message_env \<Rightarrow> u8 list \<Rightarrow> database \<Rightarrow> system \<Rightarrow> system" where
  "consume_step lib key env payload db s =
     (let tenant = pol_product_tenant (ab_policy (app_auth (sy_app s)));
          (d, db') = handle_message lib tenant key env db payload;
          s' = set_db db' s
      in if d = Acked then s'\<lparr>sy_acked := payload # sy_acked s'\<rparr> else s')"

definition publish_step ::
  "'x wire_lib_scheme \<Rightarrow> (uuid \<Rightarrow> publish_env) \<Rightarrow> outbox_row \<Rightarrow> outbox_row list \<Rightarrow> database \<Rightarrow> system \<Rightarrow> system" where
  "publish_step lib env row rows db s =
     (let (r, db', log') = publish_row lib env row (db, sy_log s)
      in (set_db db' s)\<lparr>sy_log := log', sy_batch := if is_ok r then rows else []\<rparr>)"

definition restart_step :: "system \<Rightarrow> system" where
  "restart_step s = s\<lparr>sy_app := (sy_app s)\<lparr>app_events := []\<rparr>, sy_batch := []\<rparr>"

inductive system_step :: "'x http_lib_scheme \<Rightarrow> u8 list \<Rightarrow> system \<Rightarrow> system \<Rightarrow> bool" for lib key where
  Http: "system_step lib key s (http_step lib env req s)"
| Consume: "system_db s = Some db \<Longrightarrow> system_step lib key s (consume_step lib key env payload db s)"
| Read_Outbox: "system_db s = Some db \<Longrightarrow> system_step lib key s (s\<lparr>sy_batch := select_outbox db\<rparr>)"
| Publish: "system_db s = Some db \<Longrightarrow> sy_batch s = row # rows \<Longrightarrow>
    system_step lib key s (publish_step lib env row rows db s)"
| Restart: "system_step lib key s (restart_step s)"

inductive_cases system_stepE: "system_step lib key s t"

definition start_system :: "auth_boundary \<Rightarrow> system" where
  "start_system ab =
     \<lparr>sy_app = \<lparr>app_store = new_store (Some empty_database), app_auth = ab, app_events = [],
                app_mtls_configured = False, app_jetstream_configured = True\<rparr>,
      sy_batch = [], sy_log = [], sy_acked = []\<rparr>"

section \<open>The invariant\<close>

definition broker_inv ::
  "'x wire_lib_scheme \<Rightarrow> database \<Rightarrow> outbox_row list \<Rightarrow> published list \<Rightarrow> u8 list list \<Rightarrow> bool" where
  "broker_inv lib db batch log acked \<longleftrightarrow>
     replies_kept batch (db_outbox db) \<and>
     (\<forall>r \<in> set (db_outbox db). ob_published_at r \<noteq> None \<longrightarrow> (\<exists>m \<in> set log. outbox_message lib r = Some m)) \<and>
     (\<forall>m \<in> set log. \<exists>r \<in> set (db_outbox db). outbox_message lib r = Some m) \<and>
     (\<forall>p \<in> set acked. \<exists>c. command_from_slice lib p = Some c \<and> command_recorded c db)"

definition system_inv :: "'x wire_lib_scheme \<Rightarrow> system \<Rightarrow> bool" where
  "system_inv lib s \<longleftrightarrow>
     (\<exists>db. system_db s = Some db \<and> store_invar lib (app_store (sy_app s)) \<and> jet_inv db
        \<and> broker_inv lib db (sy_batch s) (sy_log s) (sy_acked s))"

text \<open>A processed command appends unpublished replies and inbox rows.\<close>

lemma broker_inv_grow:
  assumes inv: "broker_inv lib db batch log acked"
    and out: "db_outbox db' = db_outbox db @ new" "\<forall>r \<in> set new. ob_published_at r = None"
    and inbox: "db_inbox db' = db_inbox db @ more_inbox"
  shows "broker_inv lib db' batch log acked"
proof -
  have kept: "replies_kept (db_outbox db) (db_outbox db')" unfolding out(1) by (rule replies_kept_append)
  have "replies_kept batch (db_outbox db')" using inv kept replies_kept_trans by (auto simp: broker_inv_def)
  moreover have "\<forall>m \<in> set log. \<exists>r \<in> set (db_outbox db'). outbox_message lib r = Some m"
    using inv by (auto simp: broker_inv_def out(1))
  moreover have "\<forall>p \<in> set acked. \<exists>c. command_from_slice lib p = Some c \<and> command_recorded c db'"
    using inv command_recorded_mono [OF _ inbox] by (auto simp: broker_inv_def)
  ultimately show ?thesis using inv out by (auto simp: broker_inv_def)
qed

lemma broker_inv_publish:
  assumes inv: "broker_inv lib db (row # rows) log acked" and dist: "distinct (map ob_event_id (db_outbox db))"
    and run: "publish_row lib env row (db, log) = (r, db', log')"
  shows "broker_inv lib db' (if is_ok r then rows else []) log' acked"
proof -
  obtain q where q: "q \<in> set (db_outbox db)" "same_reply row q"
    using inv by (auto simp: broker_inv_def replies_kept_def)
  have batch: "replies_kept rows (db_outbox db)" "replies_kept [] X" for X
    using inv by (auto simp: broker_inv_def replies_kept_def)
  from run show ?thesis
  proof (cases rule: publish_row_cases)
    case (failed e)
    with inv batch show ?thesis by (simp add: broker_inv_def)
  next
    case (unmarked e m)
    with q outbox_message_same have "outbox_message lib q = Some m" by metis
    with inv batch unmarked q(1) show ?thesis by (auto simp: broker_inv_def)
  next
    case (sent m)
    let ?i = "ob_event_id row"
    have msg: "outbox_message lib q = Some m" using sent(1) q(2) outbox_message_same by metis
    have db': "db' = mark_rows env {?i} db" using sent(3) mark_rows_step [of env "{}" ?i db] by simp
    have kept: "replies_kept (db_outbox db) (db_outbox db')" unfolding db' by (rule replies_kept_mark)
    have marked: "\<exists>m \<in> set log'. outbox_message lib x = Some m"
      if x: "x \<in> set (db_outbox db')" "ob_published_at x \<noteq> None" for x
    proof -
      from x(1) obtain y where y: "y \<in> set (db_outbox db)" "x = mark_row env {?i} y" by (auto simp: db' mark_rows_def)
      have xy: "outbox_message lib x = outbox_message lib y" using y(2) outbox_message_same same_reply_mark by metis
      show ?thesis
      proof (cases "ob_published_at y = None")
        case True
        with x(2) y(2) have "ob_event_id y = ?i" by (auto simp: mark_row_def split: if_splits)
        with q y(1) dist have "y = q" using same_reply_fields [OF q(2)] by (auto simp: distinct_map dest: inj_onD)
        with xy msg sent(2) show ?thesis by auto
      next
        case False
        with inv y(1) xy sent(2) show ?thesis by (auto simp: broker_inv_def)
      qed
    qed
    have "\<forall>m \<in> set log'. \<exists>r \<in> set (db_outbox db'). outbox_message lib r = Some m"
      using inv kept msg q(1) replies_kept_log sent(2) by (fastforce simp: broker_inv_def)
    moreover have "\<forall>p \<in> set acked. \<exists>c. command_from_slice lib p = Some c \<and> command_recorded c db'"
      using inv by (simp add: broker_inv_def db' command_recorded_def mark_rows_keeps)
    ultimately show ?thesis
      using marked batch replies_kept_trans [OF batch(1) kept] by (auto simp: broker_inv_def)
  qed
qed

text \<open>HTTP requests change the alert table only.\<close>

lemma store_create_tables:
  assumes "store_create lib env st actor input = (r, st')" and "as_database st = Some db"
  shows "\<exists>rows. as_database st' = Some (db\<lparr>db_alert_rules := rows\<rparr>)"
proof -
  have same: "\<exists>rows. db = db\<lparr>db_alert_rules := rows\<rparr>" by (rule exI [of _ "db_alert_rules db"]) simp
  from assms show ?thesis
    by (auto simp: store_create_def Let_def insert_alert_rule_def insert_alert_def Option.bind_eq_Some_conv
        intro: same split: sum.splits if_splits)
qed

lemma jet_inv_tables:
  assumes "jet_inv db" and "db' = db\<lparr>db_alert_rules := rows\<rparr>" and "db_wf db'"
  shows "jet_inv db'" and "broker_inv lib db batch log acked \<Longrightarrow> broker_inv lib db' batch log acked"
  using assms by (simp_all add: jet_inv_def broker_inv_def command_recorded_def)

lemma http_step_store:
  assumes inv: "system_inv lib s"
    and c: "store_create lib env (app_store (sy_app s)) actor input = (r, st')"
    and app': "app_store app' = st'"
  shows "system_inv lib (s\<lparr>sy_app := app'\<rparr>)"
proof -
  from inv obtain db where db: "system_db s = Some db" and st: "store_invar lib (app_store (sy_app s))"
    and jet: "jet_inv db" and br: "broker_inv lib db (sy_batch s) (sy_log s) (sy_acked s)"
    by (auto simp: system_inv_def)
  from store_create_tables [OF c] db obtain rows
    where rows: "as_database st' = Some (db\<lparr>db_alert_rules := rows\<rparr>)" by (auto simp: system_db_def)
  have inv': "store_invar lib st'" using store_create_frame(1) [OF st, of env actor input] c by simp
  then have "db_wf (db\<lparr>db_alert_rules := rows\<rparr>)" using rows by (simp add: store_invar_def db_invar_def)
  with jet_inv_tables [OF jet refl this] br rows inv' app' show ?thesis
    by (auto simp: system_inv_def system_db_def)
qed

lemma http_step_inv:
  assumes "system_inv lib s" shows "system_inv lib (http_step lib env req s)"
proof -
  obtain resp app' where h: "handle_request lib env (sy_app s) req = (resp, app')" by fastforce
  from h have "system_inv lib (s\<lparr>sy_app := app'\<rparr>)"
  proof (cases rule: handle_request_state)
    case unchanged
    with assms show ?thesis by simp
  next
    case (failed actor input e st')
    with assms show ?thesis by (intro http_step_store) simp_all
  next
    case (created actor input alert st')
    with assms show ?thesis by (intro http_step_store) simp_all
  qed
  then show ?thesis by (simp add: http_step_def h)
qed

lemma store_invar_set_db:
  assumes "store_invar lib st" "as_database st = Some db" "db_alert_rules db' = db_alert_rules db" "db_wf db'"
  shows "store_invar lib (st\<lparr>as_database := Some db'\<rparr>)"
  using assms by (simp add: store_invar_def db_invar_def)

lemma consume_step_inv:
  assumes "system_inv lib s" and db: "system_db s = Some db"
  shows "system_inv lib (consume_step lib key env payload db s)"
proof -
  from assms have st: "store_invar lib (app_store (sy_app s))" and jet: "jet_inv db"
    and br: "broker_inv lib db (sy_batch s) (sy_log s) (sy_acked s)"
    by (auto simp: system_inv_def)
  let ?tenant = "pol_product_tenant (ab_policy (app_auth (sy_app s)))"
  obtain d db' where h: "handle_message lib ?tenant key env db payload = (d, db')" by fastforce
  note inv = handle_message_inv [OF jet h]
  obtain new more_inbox where grow: "db_outbox db' = db_outbox db @ new" "\<forall>q \<in> set new. ob_published_at q = None"
    "db_inbox db' = db_inbox db @ more_inbox" using inv(2,5) by blast
  have br': "broker_inv lib db' (sy_batch s) (sy_log s) (sy_acked s)" using br grow by (rule broker_inv_grow)
  have "broker_inv lib db' (sy_batch s) (sy_log s) (payload # sy_acked s)" if "d = Acked"
    using br' inv(3) [OF that] by (simp add: broker_inv_def)
  moreover have "store_invar lib ((app_store (sy_app s))\<lparr>as_database := Some db'\<rparr>)"
    using store_invar_set_db [OF st] db inv(1,4) by (simp add: system_db_def jet_inv_def)
  ultimately show ?thesis
    using br' inv(1) h by (auto simp: system_inv_def consume_step_def set_db_def system_db_def Let_def)
qed

lemma publish_step_inv:
  assumes "system_inv lib s" and db: "system_db s = Some db" and batch: "sy_batch s = row # rows"
  shows "system_inv lib (publish_step lib env row rows db s)"
proof -
  from assms have st: "store_invar lib (app_store (sy_app s))" and jet: "jet_inv db"
    and br: "broker_inv lib db (row # rows) (sy_log s) (sy_acked s)"
    by (auto simp: system_inv_def)
  obtain r db' log' where run: "publish_row lib env row (db, sy_log s) = (r, db', log')" using prod_cases3 by blast
  have marks: "\<exists>ids. db' = mark_rows env ids db"
    using run
  proof (cases rule: publish_row_cases)
    case (sent m)
    then show ?thesis using mark_rows_step [of env "{}" "ob_event_id row" db] by (auto simp: exI [of _ "{ob_event_id row}"])
  qed (metis mark_rows_empty)+
  then have jet': "jet_inv db'" "db_alert_rules db' = db_alert_rules db"
    using mark_rows_inv [OF jet] mark_rows_keeps(6) by auto
  have "distinct (map ob_event_id (db_outbox db))" using jet by (simp add: jet_inv_def db_wf_def)
  from broker_inv_publish [OF br this run]
  have "broker_inv lib db' (if is_ok r then rows else []) log' (sy_acked s)" .
  moreover have "store_invar lib ((app_store (sy_app s))\<lparr>as_database := Some db'\<rparr>)"
    using store_invar_set_db [OF st] db jet' by (simp add: system_db_def jet_inv_def)
  ultimately show ?thesis
    using jet' run by (simp add: system_inv_def publish_step_def set_db_def system_db_def Let_def)
qed

lemma system_step_inv [step_intros]: "system_inv lib s \<Longrightarrow> system_step lib key s t \<Longrightarrow> system_inv lib t"
proof (erule system_stepE)
  fix db
  assume s: "system_inv lib s" "system_db s = Some db" "t = s\<lparr>sy_batch := select_outbox db\<rparr>"
  have "replies_kept (select_outbox db) (db_outbox db)"
    by (rule replies_kept_subset) (use select_outbox_pending in blast)
  with s show "system_inv lib t" by (auto simp: system_inv_def system_db_def broker_inv_def)
next
  assume "system_inv lib s" "t = restart_step s"
  then show "system_inv lib t"
    by (auto simp: system_inv_def restart_step_def system_db_def broker_inv_def replies_kept_def)
qed (simp_all add: http_step_inv consume_step_inv publish_step_inv)

interpretation server: invariant_system "system_step lib key" "system_inv lib" for lib :: "'x http_lib_scheme" and key
  by unfold_locales (rule step_intros)

lemma system_inv_start: "store_laws lib \<Longrightarrow> system_inv lib (start_system ab)"
  using store_invar_new(2) [of lib] jet_inv_empty
  by (simp add: system_inv_def start_system_def system_db_def new_store_def broker_inv_def replies_kept_def)
     (simp add: empty_database_def)

text \<open>No step removes a command from the inbox.\<close>

definition system_inbox :: "system \<Rightarrow> inbox_row set" where
  "system_inbox s = (case system_db s of None \<Rightarrow> {} | Some db \<Rightarrow> set (db_inbox db))"

lemma system_step_inbox:
  assumes inv: "system_inv lib s" and step: "system_step lib key s t"
  shows "system_inbox s \<subseteq> system_inbox t"
  using step
proof (cases rule: system_step.cases)
  case (Http env req)
  obtain resp app' where h: "handle_request lib env (sy_app s) req = (resp, app')" by fastforce
  obtain db where db: "as_database (app_store (sy_app s)) = Some db" using inv by (auto simp: system_inv_def system_db_def)
  from h show ?thesis
  proof (cases rule: handle_request_state)
    case unchanged
    with Http h show ?thesis by (simp add: http_step_def)
  next
    case (failed actor input e st')
    from store_create_tables [OF failed(4) db] Http h failed(6) db show ?thesis
      by (auto simp: http_step_def system_inbox_def system_db_def)
  next
    case (created actor input alert st')
    from store_create_tables [OF created(6) db] Http h created(8) db show ?thesis
      by (auto simp: http_step_def system_inbox_def system_db_def)
  qed
next
  case (Consume db env payload)
  let ?tenant = "pol_product_tenant (ab_policy (app_auth (sy_app s)))"
  obtain d db' where h: "handle_message lib ?tenant key env db payload = (d, db')" by fastforce
  have "jet_inv db" using inv Consume by (auto simp: system_inv_def)
  from handle_message_inv(2) [OF this h] Consume h show ?thesis
    by (auto simp: consume_step_def set_db_def system_inbox_def system_db_def Let_def)
next
  case (Publish db row rows env)
  obtain r db' log' where run: "publish_row lib env row (db, sy_log s) = (r, db', log')" using prod_cases3 by blast
  then have "db_inbox db' = db_inbox db"
    by (cases rule: publish_row_cases) (simp_all add: mark_outbox_def)
  with Publish run show ?thesis
    by (simp add: publish_step_def set_db_def system_inbox_def system_db_def)
qed (simp_all add: restart_step_def system_inbox_def system_db_def)

section \<open>The server implements the ledger\<close>

definition system_ledger :: "system \<Rightarrow> ledger" where
  "system_ledger s = (case system_db s of None \<Rightarrow> empty_ledger | Some db \<Rightarrow> ledger_of db (sy_log s) (sy_acked s))"

lemma command_effect_answers:
  assumes "\<not> command_recorded c db" and "te_new_id env \<notin> ob_event_id ` set (db_outbox db)" and "jet_inv db"
  shows "ledger_step lib' (ledger_of db log acked) (ledger_of (command_effect lib env c s u payload db) log acked)"
  using assms(3)
proof (rule ledger_of_answer)
  let ?db1 = "db\<lparr>db_inbox := db_inbox db @ [inbox_values env c s]\<rparr>"
  let ?reply = "query_reply lib env ?db1 \<lparr>va_subject = u, va_product_tenant = ac_product_tenant c\<rparr> (ac_correlation_id c)"
  let ?row = "outbox_values env c (reply_envelope (te_new_id env) c ?reply) payload"
  show "answers (inbox_values env c s) ?row"
    by (simp add: answers_def inbox_values_def outbox_values_def reply_envelope_def)
  show "db_outbox (command_effect lib env c s u payload db) = db_outbox db @ [?row]"
    by (simp add: command_effect_def Let_def)
qed (use assms in \<open>simp_all add: command_recorded_def inbox_values_def outbox_values_def command_effect_def Let_def\<close>)

lemma handle_message_simulated:
  assumes inv: "jet_inv db" and run: "handle_message lib tenant key env db payload = (d, db')"
  shows "(ledger_step lib)\<^sup>*\<^sup>* (ledger_of db log acked) (ledger_of db' log (if d = Acked then payload # acked else acked))"
proof -
  have "(ledger_step lib)\<^sup>*\<^sup>* (ledger_of db log acked) (ledger_of db' log acked)"
    using run
  proof (cases rule: handle_message_cases)
    case (processed c now r)
    show ?thesis
    proof (cases rule: process_command_cases [OF inv processed(5)])
      case (2 s u payload)
      show ?thesis unfolding 2(6) using command_effect_answers [OF 2(1,5) inv] by blast
    qed simp
  qed simp_all
  moreover have "ledger_step lib (ledger_of db' log acked) (ledger_of db' log (payload # acked))" if "d = Acked"
    using handle_message_inv(1,3) [OF inv run] that ledger_of_acknowledge by blast
  ultimately show ?thesis by auto
qed

lemma http_step_ledger:
  assumes "system_db s = Some db"
  shows "system_ledger (http_step lib env req s) = system_ledger s"
proof -
  obtain resp app' where h: "handle_request lib env (sy_app s) req = (resp, app')" by fastforce
  have "\<exists>rows. as_database (app_store app') = Some (db\<lparr>db_alert_rules := rows\<rparr>)"
    using h
  proof (cases rule: handle_request_state)
    case unchanged
    then have "as_database (app_store app') = Some (db\<lparr>db_alert_rules := db_alert_rules db\<rparr>)"
      using assms by (simp add: system_db_def)
    then show ?thesis by blast
  next
    case (failed actor input e st)
    with store_create_tables [OF failed(4)] assms show ?thesis by (simp add: system_db_def)
  next
    case (created actor input alert st)
    with store_create_tables [OF created(6)] assms show ?thesis by (simp add: system_db_def)
  qed
  with assms h show ?thesis by (auto simp: system_ledger_def http_step_def system_db_def ledger_of_alerts)
qed

lemma system_step_simulated:
  assumes inv: "system_inv lib s" and step: "system_step lib key s t"
  shows "(ledger_step lib)\<^sup>*\<^sup>* (system_ledger s) (system_ledger t)"
  using step
proof (cases rule: system_step.cases)
  case (Http env req)
  obtain db where "system_db s = Some db" using inv by (auto simp: system_inv_def)
  from http_step_ledger [OF this, of lib env req] Http show ?thesis by simp
next
  case (Consume db env payload)
  let ?tenant = "pol_product_tenant (ab_policy (app_auth (sy_app s)))"
  obtain d db' where h: "handle_message lib ?tenant key env db payload = (d, db')" by fastforce
  have "jet_inv db" using inv Consume by (auto simp: system_inv_def)
  from handle_message_simulated [OF this h] Consume h show ?thesis
    by (simp add: system_ledger_def consume_step_def set_db_def system_db_def Let_def split: if_splits)
next
  case (Publish db row rows env)
  obtain r db' log' where run: "publish_row lib env row (db, sy_log s) = (r, db', log')" using prod_cases3 by blast
  have "jet_inv db" "broker_inv lib db (row # rows) (sy_log s) (sy_acked s)"
    using inv Publish by (auto simp: system_inv_def)
  then obtain q where q: "jet_inv db" "q \<in> set (db_outbox db)" "same_reply row q"
    by (auto simp: broker_inv_def replies_kept_def)
  from ledger_of_publish [OF q run] Publish run show ?thesis
    by (simp add: system_ledger_def publish_step_def set_db_def system_db_def)
next
  case Restart
  have "system_ledger (restart_step s) = system_ledger s"
    by (simp add: restart_step_def system_ledger_def system_db_def split: option.split)
  with Restart show ?thesis by simp
qed (simp add: system_ledger_def system_db_def)

interpretation server_ledger: simulation "system_step lib key" "system_inv lib" system_ledger "ledger_step lib"
  for lib :: "'x http_lib_scheme" and key
  by unfold_locales (rule system_step_simulated)

section \<open>Sample data\<close>

lemma sample_http_fields:
  "command_from_slice sample_http_lib = command_from_slice sample_wire_lib"
  "event_to_value sample_http_lib = event_to_value sample_wire_lib" "jsonb_value sample_http_lib = jsonb_value sample_wire_lib"
  "json_to_vec sample_http_lib = json_to_vec sample_wire_lib"
  "nats_header_value sample_http_lib = Some"
  "text_as_uuid sample_http_lib = text_as_uuid sample_wire_lib"
  "uuid_parse_str sample_http_lib = uuid_parse_str sample_wire_lib"
  "uuid_to_string sample_http_lib = uuid_to_string sample_wire_lib"
  "hex_decode sample_http_lib = hex_decode sample_wire_lib"
  "hmac_verify_slice sample_http_lib = hmac_verify_slice sample_wire_lib"
  by (simp_all add: sample_http_lib_def sample_wire_lib_def)

lemma sample_http_payload: "stored_payload sample_http_lib e = Some (JString (ee_dedupe_key e))"
  using sample_stored_payload [of e] by (simp add: stored_payload_def sample_http_fields)

lemma sample_http_accepts:
  "\<not> command_refused sample_http_lib (rs ''embedded-alerts'') sample_key 2000000002000 sample_command"
proof -
  have "command_signing_bytes sample_http_lib c = command_signing_bytes sample_wire_lib c" for c
    by (simp add: command_signing_bytes_def sample_http_fields)
  then have "verify_command_signature sample_http_lib c k = verify_command_signature sample_wire_lib c k" for c k
    by (simp add: verify_command_signature_def sample_http_fields split: option.split)
  moreover have "validate_operation_envelope_at sample_http_lib e n = validate_operation_envelope_at sample_wire_lib e n" for e n
    by (simp add: validate_operation_envelope_at_def sample_http_fields)
  ultimately show ?thesis using sample_command_accepted unfolding command_refused_def by simp
qed

definition sample_consumed :: system where
  "sample_consumed = consume_step sample_http_lib sample_key sample_delivery [1] empty_database (start_system sample_boundary)"

lemma sample_consumed_step: "system_step sample_http_lib sample_key (start_system sample_boundary) sample_consumed"
  unfolding sample_consumed_def by (rule Consume) (simp add: system_db_def start_system_def new_store_def)

lemma sample_consumed_state:
  obtains db row where "system_db sample_consumed = Some db" "select_outbox db = [row]" "sy_log sample_consumed = []"
    "outbox_message sample_http_lib row \<noteq> None"
proof -
  have "\<exists>u alerts payload. uuid_parse_str sample_http_lib (oe_actor_subject (ac_operation sample_command)) = Some u
    \<and> read_alerts sample_http_lib True empty_database \<lparr>va_subject = u, va_product_tenant = rs ''embedded-alerts''\<rparr> = Ok alerts
    \<and> stored_payload sample_http_lib (reply_envelope (te_new_id sample_txn) sample_command
        \<lparr>or_operation_id = ac_correlation_id sample_command, or_status = rs ''completed'',
         or_result = Some (alerts_to_json sample_http_lib alerts), or_error = None\<rparr>) = Some payload
    \<and> process_command sample_http_lib sample_txn empty_database sample_command
      = (Ok (), command_effect sample_http_lib sample_txn sample_command 1 u payload empty_database)"
    by (rule process_new_command [OF jet_inv_empty db_invar_empty sample_http_accepts sample_command_new])
       (use sample_command_decodes(2) in \<open>simp_all add: sample_txn_def empty_database_def sample_http_fields sample_http_payload\<close>)
  then obtain u payload where p: "process_command sample_http_lib sample_txn empty_database sample_command
      = (Ok (), command_effect sample_http_lib sample_txn sample_command 1 u payload empty_database)"
    and payload: "payload = JString (rs ''reply:'' @ ac_dedupe_key sample_command)"
    by (auto simp: sample_http_payload reply_envelope_def simp del: rs_simps)
  let ?db = "command_effect sample_http_lib sample_txn sample_command 1 u payload empty_database"
  have h: "handle_message sample_http_lib (rs ''embedded-alerts'') sample_key sample_delivery empty_database [1] = (Acked, ?db)"
    using p sample_command_decodes(1) sample_clock_ms sample_http_accepts
    by (simp add: handle_message_def sample_delivery_def MAX_NATS_PAYLOAD_BYTES_def sample_http_fields)
  have tenant: "pol_product_tenant (ab_policy sample_boundary) = rs ''embedded-alerts''"
    by (simp add: sample_boundary_def sample_policy_def)
  obtain row where row: "db_outbox ?db = [row]" "ob_published_at row = None" "ob_payload row = payload"
    by (simp add: command_effect_def Let_def outbox_values_def empty_database_def)
  have "select_outbox ?db = [row]" using row by (simp add: select_outbox_def)
  moreover have "outbox_message sample_http_lib row \<noteq> None"
    unfolding outbox_message_def row(3) payload
    by (simp add: sample_http_fields sample_wire_lib_def MAX_NATS_PAYLOAD_BYTES_def sample_command_def unsigned_command_def)
  moreover have "system_db sample_consumed = Some ?db" "sy_log sample_consumed = []"
    using h tenant
    by (simp_all add: sample_consumed_def consume_step_def start_system_def set_db_def system_db_def Let_def del: rs_simps)
  ultimately show ?thesis using that by blast
qed

lemma sample_published:
  obtains s m where "(system_step sample_http_lib sample_key)\<^sup>*\<^sup>* (start_system sample_boundary) s" "m \<in> set (sy_log s)"
proof -
  obtain db row where s1: "system_db sample_consumed = Some db" "select_outbox db = [row]" "sy_log sample_consumed = []"
    and msg: "outbox_message sample_http_lib row \<noteq> None"
    by (rule sample_consumed_state)
  let ?s2 = "sample_consumed\<lparr>sy_batch := [row]\<rparr>"
  let ?s3 = "publish_step sample_http_lib sample_publish row [] db ?s2"
  have "system_step sample_http_lib sample_key sample_consumed ?s2" using Read_Outbox [OF s1(1)] s1(2) by metis
  moreover have "system_step sample_http_lib sample_key ?s2 ?s3"
    by (rule Publish) (use s1(1) in \<open>simp_all add: system_db_def\<close>)
  ultimately have "(system_step sample_http_lib sample_key)\<^sup>*\<^sup>* (start_system sample_boundary) ?s3"
    using sample_consumed_step by (meson converse_rtranclp_into_rtranclp rtranclp.rtrancl_refl)
  moreover obtain m where "outbox_message sample_http_lib row = Some m" using msg by blast
  with s1(3) have "m \<in> set (sy_log ?s3)"
    by (simp add: publish_step_def publish_row_good [OF sample_publish_good])
  ultimately show ?thesis using that by blast
qed

section \<open>Properties\<close>

text \<open>
  Durability across everything that runs: in every state that any interleaving of requests,
  deliveries, publisher steps and restarts can reach from an empty database, each acknowledged
  message's command shares an identifier with a row of the inbox, each reply marked as published has been sent, and
  the three transport tables hold one row per command.
\<close>

theorem acknowledged_and_published_are_durable:
  assumes "store_laws lib" and "(system_step lib key)\<^sup>*\<^sup>* (start_system ab) s"
  shows "\<exists>db. system_db s = Some db \<and> jet_inv db
    \<and> (\<forall>p \<in> set (sy_acked s). \<exists>c. command_from_slice lib p = Some c \<and> command_recorded c db)
    \<and> (\<forall>r \<in> set (db_outbox db). ob_published_at r \<noteq> None \<longrightarrow>
         (\<exists>m \<in> set (sy_log s). outbox_message lib r = Some m))"
proof -
  have "system_inv lib s" using assms(2) system_inv_start [OF assms(1)] by (rule server.run_inv)
  then show ?thesis unfolding system_inv_def broker_inv_def by blast
qed

theorem acknowledged_and_published_are_durable_witness:
  "\<exists>db. system_db sample_consumed = Some db \<and> jet_inv db"
proof -
  have "(system_step sample_http_lib sample_key)\<^sup>*\<^sup>* (start_system sample_boundary) sample_consumed"
    using sample_consumed_step by (rule r_into_rtranclp)
  from acknowledged_and_published_are_durable [OF sample_http_laws this] show ?thesis by blast
qed

text \<open>
  C6. Published replies answer recorded commands, and duplicates are harmless: every message the
  publisher ever sent carries the dedupe key of a command in the inbox, and two messages with the
  same message identifier are the same message, so that the broker's deduplication by identifier
  never drops a different reply. It relies on the header keeping the text it is given.
\<close>

theorem published_replies_answer_recorded_commands:
  assumes "store_laws lib" and "\<forall>text v. nats_header_value lib text = Some v \<longrightarrow> v = text"
    and "(system_step lib key)\<^sup>*\<^sup>* (start_system ab) s" and "m \<in> set (sy_log s)"
  shows "(\<exists>db. system_db s = Some db \<and> (\<exists>c \<in> set (db_inbox db). fst (snd m) = rs ''reply:'' @ ib_dedupe_key c))
    \<and> (\<forall>m' \<in> set (sy_log s). fst (snd m') = fst (snd m) \<longrightarrow> m' = m)"
proof -
  have "system_inv lib s" using assms(3) system_inv_start [OF assms(1)] by (rule server.run_inv)
  then obtain db where db: "system_db s = Some db" "jet_inv db"
    and log: "\<forall>m \<in> set (sy_log s). \<exists>r \<in> set (db_outbox db). outbox_message lib r = Some m"
    unfolding system_inv_def broker_inv_def by blast
  have header: "fst (snd x) = ob_dedupe_key r" if "outbox_message lib r = Some x" for r x
    using that assms(2) by (auto simp: outbox_message_def Option.bind_eq_Some_conv split: if_splits)
  have keys: "ob_dedupe_key ` set (db_outbox db) = (\<lambda>c. rs ''reply:'' @ ib_dedupe_key c) ` set (db_inbox db)"
    using db(2) by (rule jet_inv_keys)
  have dist: "distinct (map ob_dedupe_key (db_outbox db))" using db(2) by (simp add: jet_inv_def db_wf_def)
  from log assms(4) obtain r where r: "r \<in> set (db_outbox db)" "outbox_message lib r = Some m" by blast
  have "\<exists>c \<in> set (db_inbox db). fst (snd m) = rs ''reply:'' @ ib_dedupe_key c"
    using header [OF r(2)] r(1) keys by auto
  moreover have "m' = m" if m': "m' \<in> set (sy_log s)" "fst (snd m') = fst (snd m)" for m'
  proof -
    from log m'(1) obtain q where q: "q \<in> set (db_outbox db)" "outbox_message lib q = Some m'" by blast
    with r m'(2) header dist have "q = r" by (auto simp: distinct_map dest: inj_onD)
    with q(2) r(2) show ?thesis by simp
  qed
  ultimately show ?thesis using db(1) by blast
qed

theorem published_replies_answer_recorded_commands_witness:
  "\<exists>s m db. (system_step sample_http_lib sample_key)\<^sup>*\<^sup>* (start_system sample_boundary) s \<and> m \<in> set (sy_log s)
     \<and> system_db s = Some db \<and> (\<exists>c \<in> set (db_inbox db). fst (snd m) = rs ''reply:'' @ ib_dedupe_key c)"
proof -
  obtain s m where s: "(system_step sample_http_lib sample_key)\<^sup>*\<^sup>* (start_system sample_boundary) s" "m \<in> set (sy_log s)"
    by (rule sample_published)
  have "\<forall>text v. nats_header_value sample_http_lib text = Some v \<longrightarrow> v = text" by (simp add: sample_http_fields)
  from published_replies_answer_recorded_commands [OF sample_http_laws this s] s show ?thesis by blast
qed

text \<open>
  Recorded commands are never lost: whatever steps follow, restarts included, the inbox keeps
  every row it had.
\<close>

theorem recorded_commands_are_never_lost:
  assumes "system_inv lib s" and "(system_step lib key)\<^sup>*\<^sup>* s t"
  shows "system_inbox s \<subseteq> system_inbox t"
  using system_step_inbox assms(2,1) by (rule server.run_monotone)

theorem recorded_commands_are_never_lost_witness:
  "system_inbox sample_consumed \<subseteq> system_inbox (restart_step sample_consumed)"
proof -
  have "system_inv sample_http_lib sample_consumed"
    using system_step_inv [OF system_inv_start [OF sample_http_laws] sample_consumed_step] .
  then show ?thesis by (rule recorded_commands_are_never_lost) (rule r_into_rtranclp, rule Restart)
qed

end
