(* ===== verification/Mtls.thy ===== *)
theory Mtls
  imports Envelope
begin

text \<open>
  The mTLS/TCP transport of \<open>src/src/transport.rs\<close>: its configuration, the execution of one framed
  operation, the loop of a connection, and the accept loop with its connection limit as a step
  relation. The TLS library and the frame codec are parameters.
\<close>

section \<open>Configuration\<close>

text \<open>
  Library functions: the certificates of a PEM file (\<open>None\<close> when it cannot be opened, an element
  \<open>None\<close> for an invalid section), the private key of a PEM file, adding a certificate to a root
  store, building the client verifier, and the check of a certificate chain against its key.
\<close>

record tls_lib =
  pem_file_iter :: "rstring \<Rightarrow> u8 list option list option"
  key_from_pem_file :: "rstring \<Rightarrow> u8 list option"
  roots_accept :: "u8 list list \<Rightarrow> u8 list \<Rightarrow> bool"
  verifier_build :: "u8 list list \<Rightarrow> bool"
  single_cert_ok :: "u8 list list \<Rightarrow> u8 list \<Rightarrow> bool"

record tls_server_config =
  ts_client_roots :: "u8 list list"
  ts_certificates :: "u8 list list"
  ts_private_key :: "u8 list"

record mtls_server_config =
  ms_bind :: rstring
  ms_tls :: tls_server_config

definition read_certificates :: "tls_lib \<Rightarrow> rstring \<Rightarrow> (u8 list list, string) result" where
  "read_certificates tls path =
     and_then (ok_or ''TLS certificate file cannot be opened'' (pem_file_iter tls path)) (\<lambda>sections.
       ok_or ''TLS certificate file is invalid'' (those sections))"

definition read_private_key :: "tls_lib \<Rightarrow> rstring \<Rightarrow> (u8 list, string) result" where
  "read_private_key tls path =
     ok_or ''TLS private key file is missing or invalid'' (key_from_pem_file tls path)"

fun add_roots :: "tls_lib \<Rightarrow> u8 list list \<Rightarrow> u8 list list \<Rightarrow> (u8 list list, string) result" where
  "add_roots tls roots [] = Ok roots"
| "add_roots tls roots (c # cs) =
     (if roots_accept tls roots c then add_roots tls (roots @ [c]) cs
      else Err ''web client CA certificate is invalid'')"

definition mtls_variables :: "string list" where
  "mtls_variables =
     [''EAL_API_MTLS_BIND'', ''EAL_API_TLS_CERT_FILE'', ''EAL_API_TLS_KEY_FILE'', ''EAL_WEB_CLIENT_CA_FILE'']"

definition mtls_from_env ::
  "tls_lib \<Rightarrow> (rstring \<Rightarrow> rstring option) \<Rightarrow> (mtls_server_config option, string) result" where
  "mtls_from_env tls var =
     (let values = map (optional_env var) mtls_variables in
      if list_all (\<lambda>v. v = None) values then Ok None
      else if list_ex (\<lambda>v. v = None) values
      then Err ''all API mTLS variables must be configured together''
      else
        (case map the values of
           [bind, certificate_file, private_key_file, client_ca_file] \<Rightarrow>
             and_then (read_certificates tls certificate_file) (\<lambda>certificates.
             and_then (read_private_key tls private_key_file) (\<lambda>private_key.
             and_then (read_certificates tls client_ca_file) (\<lambda>cas.
             and_then (add_roots tls [] cas) (\<lambda>client_roots.
             if client_roots = [] then Err ''web client CA file is empty''
             else if \<not> verifier_build tls client_roots
             then Err ''web client verifier configuration is invalid''
             else if \<not> single_cert_ok tls certificates private_key
             then Err ''API server certificate or key is invalid''
             else Ok (Some \<lparr>ms_bind = bind,
                            ms_tls = \<lparr>ts_client_roots = client_roots, ts_certificates = certificates,
                                      ts_private_key = private_key\<rparr>\<rparr>)))))
         | _ \<Rightarrow> Ok None))"

definition spawn_mtls_from_env ::
  "tls_lib \<Rightarrow> (rstring \<Rightarrow> rstring option) \<Rightarrow> (rstring \<Rightarrow> bool) \<Rightarrow> (mtls_server_config option, string) result" where
  "spawn_mtls_from_env tls var can_bind =
     and_then (mtls_from_env tls var) (\<lambda>config.
       case config of
         None \<Rightarrow> Ok None
       | Some c \<Rightarrow> if can_bind (ms_bind c) then Ok (Some c) else Err ''mTLS/TCP bind failed'')"

section \<open>One operation\<close>

text \<open>
  What one operation takes from its environment: the clock as the envelope check and the token
  check read it, whether the query exceeds its timeout, and the store's environment.
\<close>

record tcp_env =
  xe_clock :: system_time
  xe_auth_clock :: system_time
  xe_times_out :: bool
  xe_store :: store_env

definition execute_tcp_operation ::
  "'x wire_lib_scheme \<Rightarrow> tcp_env \<Rightarrow> alert_store \<Rightarrow> auth_boundary \<Rightarrow> u8 list \<Rightarrow> operation_reply" where
  "execute_tcp_operation lib env st auth frame =
     (case operation_from_slice lib frame of
        None \<Rightarrow> error_reply uuid_nil ''invalid_request''
      | Some request \<Rightarrow>
          let operation_id = oe_operation_id (ao_envelope request) in
          (case unix_ms (xe_clock env) of
             None \<Rightarrow> error_reply operation_id ''unavailable''
           | Some now \<Rightarrow>
               if \<not> is_ok (validate_operation_envelope_at lib (ao_envelope request) now)
               then error_reply operation_id ''invalid_request''
               else case strip_prefix (rs ''Bearer '') (ao_authorization request) of
                      None \<Rightarrow> error_reply operation_id ''unauthorized''
                    | Some token \<Rightarrow>
                        (case verify_token lib auth (xe_auth_clock env) token READ_SCOPE of
                           Inl _ \<Rightarrow> error_reply operation_id ''unauthorized''
                         | Inr actor \<Rightarrow>
                             if uuid_to_string lib (va_subject actor) = oe_actor_subject (ao_envelope request)
                                \<and> va_product_tenant actor = oe_product_tenant (ao_envelope request)
                             then
                               if xe_times_out env then error_reply operation_id ''timeout''
                               else
                                 (case store_list lib (xe_store env) st actor of
                                    Inr alerts \<Rightarrow>
                                      \<lparr>or_operation_id = operation_id, or_status = rs ''completed'',
                                       or_result = Some (alerts_to_json lib alerts), or_error = None\<rparr>
                                  | Inl _ \<Rightarrow> error_reply operation_id ''unavailable'')
                             else error_reply operation_id ''unauthorized'')))"

section \<open>A connection\<close>

text \<open>
  What a connection sees, in order: frames, each with the environment and the store at that time
  and whether the reply could be sent in time, or the end of its input (closed, timed out or
  broken). The codec is configured to refuse frames above the limit.
\<close>

datatype frame_event = Frame tcp_env alert_store "u8 list" bool | Input_Ended

fun serve_frames :: "'x wire_lib_scheme \<Rightarrow> auth_boundary \<Rightarrow> frame_event list \<Rightarrow> u8 list list" where
  "serve_frames lib auth [] = []"
| "serve_frames lib auth (Input_Ended # es) = []"
| "serve_frames lib auth (Frame env st frame sent # es) =
     (if MAX_FRAME_BYTES < length frame then []
      else case reply_to_vec lib (execute_tcp_operation lib env st auth frame) of
             None \<Rightarrow> []
           | Some payload \<Rightarrow>
               if MAX_FRAME_BYTES < length payload then []
               else if \<not> sent then []
               else payload # serve_frames lib auth es)"

definition connection_task :: "'x wire_lib_scheme \<Rightarrow> auth_boundary \<Rightarrow> bool \<Rightarrow> frame_event list \<Rightarrow> u8 list list" where
  "connection_task lib auth handshake es = (if handshake then serve_frames lib auth es else [])"

section \<open>The accept loop\<close>

text \<open>
  The listener: the permits left, the connections that hold one, and the sockets that were
  dropped. A connection's permit returns when its task ends, however it ends.
\<close>

record listener =
  ls_permits :: nat
  ls_active :: "nat list"
  ls_dropped :: "nat list"
  ls_running :: bool

definition new_listener :: listener where
  "new_listener = \<lparr>ls_permits = TCP_CONNECTION_LIMIT, ls_active = [], ls_dropped = [], ls_running = True\<rparr>"

definition accept_socket :: "nat \<Rightarrow> listener \<Rightarrow> listener" where
  "accept_socket socket l =
     (if 0 < ls_permits l
      then l\<lparr>ls_permits := ls_permits l - 1, ls_active := socket # ls_active l\<rparr>
      else l\<lparr>ls_dropped := socket # ls_dropped l\<rparr>)"

definition end_connection :: "nat \<Rightarrow> listener \<Rightarrow> listener" where
  "end_connection socket l = l\<lparr>ls_permits := ls_permits l + 1, ls_active := remove1 socket (ls_active l)\<rparr>"

inductive listener_step :: "listener \<Rightarrow> listener \<Rightarrow> bool" where
  Accept: "ls_running l \<Longrightarrow> listener_step l (accept_socket socket l)"
| Accept_Fails: "ls_running l \<Longrightarrow> listener_step l (l\<lparr>ls_running := False\<rparr>)"
| End: "socket \<in> set (ls_active l) \<Longrightarrow> listener_step l (end_connection socket l)"

definition listener_inv :: "listener \<Rightarrow> bool" where
  "listener_inv l \<longleftrightarrow> ls_permits l + length (ls_active l) = TCP_CONNECTION_LIMIT"

lemma listener_step_inv [step_intros]: "listener_inv l \<Longrightarrow> listener_step l l' \<Longrightarrow> listener_inv l'"
  by (erule listener_step.cases)
     (auto simp: listener_inv_def accept_socket_def end_connection_def length_remove1 TCP_CONNECTION_LIMIT_def
       neq_Nil_conv dest!: split_list)

interpretation accept_loop: invariant_system listener_step listener_inv
  by unfold_locales (rule step_intros)

section \<open>Facts about operations and connections\<close>

lemma execute_completed:
  assumes "or_status (execute_tcp_operation lib env st auth frame) = rs ''completed''"
  obtains request now token actor alerts where
    "operation_from_slice lib frame = Some request" "unix_ms (xe_clock env) = Some now"
    "validate_operation_envelope_at lib (ao_envelope request) now = Inr ()"
    "ao_authorization request = rs ''Bearer '' @ token"
    "verify_token lib auth (xe_auth_clock env) token READ_SCOPE = Inr actor"
    "uuid_to_string lib (va_subject actor) = oe_actor_subject (ao_envelope request)"
    "va_product_tenant actor = oe_product_tenant (ao_envelope request)"
    "store_list lib (xe_store env) st actor = Inr alerts"
    "execute_tcp_operation lib env st auth frame =
      \<lparr>or_operation_id = oe_operation_id (ao_envelope request), or_status = rs ''completed'',
       or_result = Some (alerts_to_json lib alerts), or_error = None\<rparr>"
proof -
  have rej: "or_status (error_reply i e) \<noteq> rs ''completed''" for i e by (simp add: error_reply_def)
  have okI: "is_ok r \<Longrightarrow> r = Inr ()" for r :: "(unit, string) result" by (cases r) simp_all
  show ?thesis
    using assms that unfolding execute_tcp_operation_def Let_def
    by (auto simp: rej simp del: rs_simps split: option.splits sum.splits if_splits dest!: okI)
qed

lemma serve_frames_nth:
  assumes "i < length (serve_frames lib auth es)"
  shows "\<exists>env st frame. es ! i = Frame env st frame True \<and> length frame \<le> MAX_FRAME_BYTES
    \<and> reply_to_vec lib (execute_tcp_operation lib env st auth frame) = Some (serve_frames lib auth es ! i)
    \<and> length (serve_frames lib auth es ! i) \<le> MAX_FRAME_BYTES"
  using assms
proof (induction lib auth es arbitrary: i rule: serve_frames.induct)
  case (3 lib auth env st frame sent es)
  then obtain payload where p: "length frame \<le> MAX_FRAME_BYTES" "sent"
    "reply_to_vec lib (execute_tcp_operation lib env st auth frame) = Some payload"
    "length payload \<le> MAX_FRAME_BYTES"
    by (auto split: if_splits option.splits)
  then have out: "serve_frames lib auth (Frame env st frame sent # es) = payload # serve_frames lib auth es" by simp
  show ?case
  proof (cases i)
    case 0
    with p out show ?thesis by auto
  next
    case (Suc j)
    with "3.prems" out have "j < length (serve_frames lib auth es)" by simp
    from "3.IH" [OF _ p(3) _ _ this] p have "\<exists>env st frame. es ! j = Frame env st frame True \<and> length frame \<le> MAX_FRAME_BYTES
      \<and> reply_to_vec lib (execute_tcp_operation lib env st auth frame) = Some (serve_frames lib auth es ! j)
      \<and> length (serve_frames lib auth es ! j) \<le> MAX_FRAME_BYTES" by simp
    with Suc out show ?thesis by simp
  qed
qed simp_all

lemma serve_frames_length: "length (serve_frames lib auth es) \<le> length es"
  by (induction lib auth es rule: serve_frames.induct) (auto split: option.splits)

lemma serve_frames_append:
  "length (serve_frames lib auth es) < length es \<Longrightarrow> serve_frames lib auth (es @ fs) = serve_frames lib auth es"
  by (induction lib auth es rule: serve_frames.induct) (auto split: option.splits if_splits)

lemma those_eq_Some: "those xs = Some ys \<longleftrightarrow> xs = map Some ys"
proof (induction xs arbitrary: ys)
  case (Cons x xs)
  then show ?case by (cases ys; cases x) (auto simp: option.map_comp)
qed auto

lemma add_roots_Ok: "add_roots tls roots cs = Inr rs' \<Longrightarrow> rs' = roots @ cs"
  by (induction tls roots cs rule: add_roots.induct) (auto split: if_splits)

lemma mtls_from_env_incomplete:
  assumes "\<exists>m \<in> set mtls_variables. optional_env var m = None"
  shows "mtls_from_env tls var = (if \<forall>n \<in> set mtls_variables. optional_env var n = None then Ok None
      else Err ''all API mTLS variables must be configured together'')"
proof -
  from assms have "list_ex (\<lambda>v. v = None) (map (optional_env var) mtls_variables)" by (force simp: list_ex_iff)
  then show ?thesis by (simp add: mtls_from_env_def list_all_iff Let_def)
qed

section \<open>Sample data\<close>

definition sample_tcp :: tcp_env where
  "sample_tcp = \<lparr>xe_clock = sample_clock, xe_auth_clock = sample_clock, xe_times_out = False, xe_store = sample_env_up\<rparr>"

definition sample_tls :: tls_lib where
  "sample_tls = \<lparr>pem_file_iter = (\<lambda>f. Some [Some f]), key_from_pem_file = Some, roots_accept = (\<lambda>_ _. True),
     verifier_build = (\<lambda>_. True), single_cert_ok = (\<lambda>_ _. True)\<rparr>"

definition sample_tls_env :: "rstring \<Rightarrow> rstring option" where
  "sample_tls_env name = (if name = rs ''EAL_API_MTLS_BIND'' then Some (rs ''0.0.0.0:9443'')
     else if name = rs ''EAL_API_TLS_CERT_FILE'' then Some (rs ''cert'')
     else if name = rs ''EAL_API_TLS_KEY_FILE'' then Some (rs ''key'')
     else if name = rs ''EAL_WEB_CLIENT_CA_FILE'' then Some (rs ''ca'') else None)"

lemma sample_executed:
  "execute_tcp_operation sample_wire_lib sample_tcp (new_store None) sample_boundary [1] =
     \<lparr>or_operation_id = 5, or_status = rs ''completed'', or_result = Some (JArray []), or_error = None\<rparr>"
proof -
  have "operation_from_slice sample_wire_lib [1] = Some sample_request" by (simp add: sample_wire_lib_def)
  moreover have "unix_ms (xe_clock sample_tcp) = Some 2000000002000"
    by (simp add: sample_tcp_def unix_ms_def duration_since_epoch_def sample_clock_def u64_try_from_or_max_def
        nat_div_distrib)
  moreover have "strip_prefix (rs ''Bearer '') (ao_authorization sample_request) = Some (rs ''valid-token-value'')"
    by (simp add: sample_request_def)
  moreover have "verify_token sample_wire_lib sample_boundary (xe_auth_clock sample_tcp) (rs ''valid-token-value'')
      READ_SCOPE = Inr sample_actor"
    using sample_token_verified [OF sample_wire_lib_laws(2)] by (simp add: sample_tcp_def)
  moreover have "ao_envelope sample_request = sample_operation" by (simp add: sample_request_def)
  moreover have "uuid_to_string sample_wire_lib (va_subject sample_actor) = oe_actor_subject sample_operation"
    "va_product_tenant sample_actor = oe_product_tenant sample_operation" "oe_operation_id sample_operation = 5"
    by (simp_all add: sample_wire_lib_def sample_actor_def sample_operation_def)
  moreover have "store_list sample_wire_lib (xe_store sample_tcp) (new_store None) sample_actor = Inr []"
    by (simp add: store_list_def new_store_def fallback_list_def sample_tcp_def sample_env_up_def)
  moreover have "alerts_to_json sample_wire_lib [] = JArray []" "xe_times_out sample_tcp = False"
    by (simp_all add: sample_wire_lib_def sample_tcp_def)
  ultimately show ?thesis
    using sample_operation_valid [OF sample_wire_lib_laws(2)]
    by (simp add: execute_tcp_operation_def del: rs_simps)
qed

section \<open>Properties\<close>

text \<open>
  C10. A completed reply over TCP was authorised: the frame decoded to a request whose envelope is
  valid now, whose bearer token the authority confirms for reading, and whose envelope names
  exactly the token's subject and tenant; the reply carries that request's identifier and the
  alerts of that actor and of nobody else.
\<close>

theorem completed_tcp_reply_is_authorised:
  assumes "env_ok (xe_store env)"
    and "execute_tcp_operation lib env st auth frame = reply" and "or_status reply = rs ''completed''"
  shows "\<exists>request now token actor alerts. operation_from_slice lib frame = Some request
    \<and> unix_ms (xe_clock env) = Some now
    \<and> validate_operation_envelope_at lib (ao_envelope request) now = Ok ()
    \<and> ao_authorization request = rs ''Bearer '' @ token
    \<and> verify_token lib auth (xe_auth_clock env) token READ_SCOPE = Ok actor
    \<and> oe_actor_subject (ao_envelope request) = uuid_to_string lib (va_subject actor)
    \<and> oe_product_tenant (ao_envelope request) = pol_product_tenant (ab_policy auth)
    \<and> or_operation_id reply = oe_operation_id (ao_envelope request)
    \<and> or_result reply = Some (alerts_to_json lib alerts) \<and> set alerts \<subseteq> store_owned lib st actor"
proof -
  from assms(2,3) obtain request now token actor alerts where
    r: "operation_from_slice lib frame = Some request" "unix_ms (xe_clock env) = Some now"
    "validate_operation_envelope_at lib (ao_envelope request) now = Inr ()"
    "ao_authorization request = rs ''Bearer '' @ token"
    "verify_token lib auth (xe_auth_clock env) token READ_SCOPE = Inr actor"
    "uuid_to_string lib (va_subject actor) = oe_actor_subject (ao_envelope request)"
    "va_product_tenant actor = oe_product_tenant (ao_envelope request)"
    "store_list lib (xe_store env) st actor = Inr alerts"
    and e: "execute_tcp_operation lib env st auth frame =
      \<lparr>or_operation_id = oe_operation_id (ao_envelope request), or_status = rs ''completed'',
       or_result = Some (alerts_to_json lib alerts), or_error = None\<rparr>"
    using execute_completed by blast
  have "set alerts \<subseteq> store_owned lib st actor" using assms(1) r(8) by (rule store_list_owned)
  moreover have "oe_product_tenant (ao_envelope request) = pol_product_tenant (ab_policy auth)"
    using r(7) verify_token_tenant [OF r(5)] by simp
  moreover have "or_operation_id reply = oe_operation_id (ao_envelope request)"
    "or_result reply = Some (alerts_to_json lib alerts)" using e assms(2) by auto
  ultimately show ?thesis
    using r(1-6) by (intro exI [of _ request] exI [of _ now] exI [of _ token] exI [of _ actor] exI [of _ alerts])
      (simp del: rs_simps)
qed

theorem completed_tcp_reply_is_authorised_witness:
  "\<exists>request token. operation_from_slice sample_wire_lib [1] = Some request
     \<and> ao_authorization request = rs ''Bearer '' @ token
     \<and> oe_product_tenant (ao_envelope request) = pol_product_tenant (ab_policy sample_boundary)"
  using completed_tcp_reply_is_authorised [OF _ sample_executed] sample_env_up_ok(1)
  by (auto simp: sample_tcp_def simp del: rs_simps)

text \<open>
  Rejections reveal nothing about the store: a request that is malformed, expired, or whose
  token does not verify to the actor the envelope names gets the same reply from every store,
  with no result and one of the error words \<open>invalid_request\<close>, \<open>unauthorized\<close> and \<open>unavailable\<close>.
\<close>

theorem unauthorised_frames_learn_nothing:
  assumes "\<forall>request token actor. operation_from_slice lib frame = Some request
      \<and> ao_authorization request = rs ''Bearer '' @ token
      \<and> verify_token lib auth (xe_auth_clock env) token READ_SCOPE = Ok actor
      \<longrightarrow> uuid_to_string lib (va_subject actor) \<noteq> oe_actor_subject (ao_envelope request)
          \<or> va_product_tenant actor \<noteq> oe_product_tenant (ao_envelope request)"
  shows "execute_tcp_operation lib env st auth frame = execute_tcp_operation lib env st' auth frame
    \<and> (\<exists>i e. e \<in> {''invalid_request'', ''unauthorized'', ''unavailable''}
         \<and> execute_tcp_operation lib env st auth frame = error_reply i e)"
  using assms unfolding execute_tcp_operation_def Let_def
  by (auto simp del: rs_simps split: option.splits sum.splits)

theorem unauthorised_frames_learn_nothing_witness:
  "execute_tcp_operation sample_wire_lib sample_tcp (new_store None) sample_boundary [2]
     = execute_tcp_operation sample_wire_lib sample_tcp (new_store (Some empty_database)) sample_boundary [2]"
proof -
  have "\<forall>request token actor. operation_from_slice sample_wire_lib [2] = Some request
      \<and> ao_authorization request = rs ''Bearer '' @ token
      \<and> verify_token sample_wire_lib sample_boundary (xe_auth_clock sample_tcp) token READ_SCOPE = Ok actor
      \<longrightarrow> uuid_to_string sample_wire_lib (va_subject actor) \<noteq> oe_actor_subject (ao_envelope request)
          \<or> va_product_tenant actor \<noteq> oe_product_tenant (ao_envelope request)"
    by (simp add: sample_wire_lib_def)
  from unauthorised_frames_learn_nothing [OF this] show ?thesis by blast
qed

text \<open>
  C33. A connection answers frame by frame: the replies it sends are the replies to its first
  frames, in order, each for a frame within the limit and itself within the limit, and after the
  first frame it does not answer it never sends anything again. A request whose reply exceeds the
  limit gets no answer at all, not even a rejection.
\<close>

theorem connection_answers_in_order:
  assumes "serve_frames lib auth es = replies"
  shows "length replies \<le> length es
    \<and> (\<forall>i < length replies. \<exists>env st frame. es ! i = Frame env st frame True \<and> length frame \<le> 65536
         \<and> reply_to_vec lib (execute_tcp_operation lib env st auth frame) = Some (replies ! i)
         \<and> length (replies ! i) \<le> 65536)
    \<and> (length replies < length es \<longrightarrow> (\<forall>fs. serve_frames lib auth (es @ fs) = replies))
    \<and> (\<forall>env st frame sent rest payload. es = Frame env st frame sent # rest
         \<and> reply_to_vec lib (execute_tcp_operation lib env st auth frame) = Some payload \<and> 65536 < length payload
         \<longrightarrow> replies = [])"
  using serve_frames_nth [of _ lib auth es] serve_frames_length [of lib auth es] serve_frames_append [of lib auth es]
  unfolding assms [symmetric] by (auto simp: MAX_FRAME_BYTES_def)

theorem connection_answers_in_order_witness:
  "serve_frames sample_wire_lib sample_boundary
     ([Frame sample_tcp (new_store None) [1] True, Input_Ended] @ [Frame sample_tcp (new_store None) [1] True])
   = [rs ''completed'']"
proof -
  have "reply_to_vec sample_wire_lib
      (execute_tcp_operation sample_wire_lib sample_tcp (new_store None) sample_boundary [1]) = Some (rs ''completed'')"
    unfolding sample_executed by (simp add: sample_wire_lib_def)
  then have "serve_frames sample_wire_lib sample_boundary [Frame sample_tcp (new_store None) [1] True, Input_Ended]
      = [rs ''completed'']" by (simp add: MAX_FRAME_BYTES_def)
  from connection_answers_in_order [OF this] show ?thesis by fastforce
qed

text \<open>
  C32. The connection limit: whatever sequence of accepted sockets, ending connections and failures
  the listener goes through, at most 128 connections are served at a time, and the free permits
  are exactly the unused ones, so ending connections never loses capacity.
\<close>

theorem connection_limit:
  assumes "listener_step\<^sup>*\<^sup>* new_listener l"
  shows "length (ls_active l) \<le> 128 \<and> ls_permits l = 128 - length (ls_active l)"
proof -
  have "listener_inv new_listener" by (simp add: listener_inv_def new_listener_def)
  with assms have "listener_inv l" by (rule accept_loop.run_inv)
  then show ?thesis by (simp add: listener_inv_def TCP_CONNECTION_LIMIT_def)
qed

theorem connection_limit_witness:
  "ls_active (accept_socket 1 new_listener) = [1] \<and> ls_permits (accept_socket 1 new_listener) = 127"
proof -
  have "listener_step\<^sup>*\<^sup>* new_listener (accept_socket 1 new_listener)"
    by (rule r_into_rtranclp, rule Accept) (simp add: new_listener_def)
  from connection_limit [OF this] show ?thesis
    by (simp add: accept_socket_def new_listener_def TCP_CONNECTION_LIMIT_def)
qed

text \<open>
  The mTLS configuration is absent or complete: it is off exactly when all four variables are
  missing or blank, a partial set is an error, and a server that starts always verifies clients
  against at least one certificate, namely those of the configured CA file.
\<close>

theorem mtls_configuration_is_absent_or_complete:
  "(mtls_from_env tls var = Ok None \<longleftrightarrow> (\<forall>n \<in> set mtls_variables. optional_env var n = None))
    \<and> ((\<exists>m \<in> set mtls_variables. optional_env var m = None) \<and> (\<exists>n \<in> set mtls_variables. optional_env var n \<noteq> None)
         \<longrightarrow> mtls_from_env tls var = Err ''all API mTLS variables must be configured together'')
    \<and> (\<forall>config. mtls_from_env tls var = Ok (Some config) \<longrightarrow>
         (\<exists>ca. optional_env var ''EAL_WEB_CLIENT_CA_FILE'' = Some ca
            \<and> pem_file_iter tls ca = Some (map Some (ts_client_roots (ms_tls config)))
            \<and> ts_client_roots (ms_tls config) \<noteq> []))"
proof (cases "(\<exists>m \<in> set mtls_variables. optional_env var m = None)")
  case True
  then show ?thesis by (auto simp: mtls_from_env_incomplete)
next
  case False
  then obtain b c k ca where vals: "optional_env var ''EAL_API_MTLS_BIND'' = Some b"
    "optional_env var ''EAL_API_TLS_CERT_FILE'' = Some c" "optional_env var ''EAL_API_TLS_KEY_FILE'' = Some k"
    "optional_env var ''EAL_WEB_CLIENT_CA_FILE'' = Some ca"
    by (auto simp: mtls_variables_def)
  then show ?thesis using False
    by (auto simp: mtls_from_env_def mtls_variables_def Let_def read_certificates_def those_eq_Some
        dest!: add_roots_Ok split: if_splits)
qed

lemma sample_tls_values:
  "optional_env sample_tls_env ''EAL_API_MTLS_BIND'' = Some (rs ''0.0.0.0:9443'')"
  "optional_env sample_tls_env ''EAL_API_TLS_CERT_FILE'' = Some (rs ''cert'')"
  "optional_env sample_tls_env ''EAL_API_TLS_KEY_FILE'' = Some (rs ''key'')"
  "optional_env sample_tls_env ''EAL_WEB_CLIENT_CA_FILE'' = Some (rs ''ca'')"
  by (simp_all add: optional_env_def sample_tls_env_def trim_def is_whitespace_def)

theorem mtls_configuration_is_absent_or_complete_witness:
  "\<exists>config. mtls_from_env sample_tls sample_tls_env = Ok (Some config) \<and> ts_client_roots (ms_tls config) \<noteq> []"
proof -
  have "\<exists>config. mtls_from_env sample_tls sample_tls_env = Ok (Some config)"
    using sample_tls_values
    by (simp add: mtls_from_env_def mtls_variables_def read_certificates_def read_private_key_def sample_tls_def)
  with mtls_configuration_is_absent_or_complete [of sample_tls sample_tls_env] show ?thesis by blast
qed

end
