(* ===== verification/Flags.thy ===== *)
theory Flags
  imports Externals "HOL-Library.List_Lexorder"
begin

text \<open>
  The process configuration of \<open>src/src/flags.rs\<close> and the start of \<open>src/src/main.rs\<close>: resolving
  the command line and the environment once, the redacted errors, the help text, and the lookups
  every other component makes. The flags parser, the contract file and the temporary file it is
  handed through are parameters.
\<close>

section \<open>Data\<close>

text \<open>\<open>toml::Value\<close>, as far as the help text reads it; a table keeps its keys in order.\<close>

datatype toml =
    TString rstring
  | TInteger int
  | TFloat rstring
  | TBoolean bool
  | TDatetime rstring
  | TArray "toml list"
  | TTable "(rstring \<times> toml) list"

type_synonym config = "rstring \<Rightarrow> rstring option"

text \<open>What the flags parser makes of a command line.\<close>

record parsed =
  unknown_options :: "rstring list"
  parse_errors :: "rstring list"
  extras :: "rstring list"
  dotenv :: config
  dotenv_overrides :: config
  provided_flags :: config

text \<open>
  Library functions: making the temporary contract file, writing it and reading its path as text
  (an error carries its message), auditing the contract, parsing the command line, coercing a raw
  configuration to typed values, and the TOML parser and printer.
\<close>

record flags_lib =
  tempfile_new :: "(unit, rstring) result"
  tempfile_write :: "(unit, rstring) result"
  tempfile_path :: "rstring option"
  audit_config :: "rstring \<Rightarrow> (unit, rstring) result"
  parse_structured :: "rstring list \<Rightarrow> rstring \<Rightarrow> (parsed, rstring) result"
  coerce :: "config \<Rightarrow> rstring \<Rightarrow> ((rstring \<times> json) list, rstring) result"
  contract_toml :: "(toml, rstring) result"
  toml_display :: "toml \<Rightarrow> rstring"
  pkg_name :: rstring
  pkg_version :: rstring

section \<open>Resolving the configuration\<close>

definition scalar_string :: "rstring \<Rightarrow> json \<Rightarrow> (rstring, rstring) result" where
  "scalar_string name value =
     (case value of
        JString s \<Rightarrow> Ok s
      | JBool b \<Rightarrow> Ok (rs (if b then ''true'' else ''false''))
      | JNumber n \<Rightarrow> Ok n
      | _ \<Rightarrow> Err (rs ''flags-2-env returned a non-scalar value for '' @ name))"

definition option_name :: "rstring \<Rightarrow> rstring" where
  "option_name option =
     (case strip_prefix (rs ''--'') option of
        Some long \<Rightarrow> rs ''--'' @ takeWhile (\<lambda>c. c \<noteq> 61) long
      | None \<Rightarrow> take 2 option)"

fun intercalate :: "'a list \<Rightarrow> 'a list list \<Rightarrow> 'a list" where
  "intercalate sep [] = []"
| "intercalate sep [x] = x"
| "intercalate sep (x # y # zs) = x @ sep @ intercalate sep (y # zs)"

text \<open>The names of the unknown options as a sorted set.\<close>

definition unknown_names :: "parsed \<Rightarrow> rstring list" where
  "unknown_names p = sort (remdups (map option_name (unknown_options p)))"

definition raw_config :: "parsed \<Rightarrow> config \<Rightarrow> config" where
  "raw_config p environment =
     ((dotenv p ++ environment ++ dotenv_overrides p)(rs ''FLAGS2ENV_COMMAND'' := None)) ++ provided_flags p"

fun insert_typed :: "config \<Rightarrow> (rstring \<times> json) list \<Rightarrow> (config, rstring) result" where
  "insert_typed resolved [] = Ok resolved"
| "insert_typed resolved ((name, value) # typed) =
     (if value = JNull then insert_typed resolved typed
      else and_then (scalar_string name value) (\<lambda>s. insert_typed (resolved(name \<mapsto> s)) typed))"

definition resolve_from ::
  "flags_lib \<Rightarrow> rstring list \<Rightarrow> (rstring \<times> rstring) list \<Rightarrow> (config, rstring) result" where
  "resolve_from lib argv env_vars =
     (let environment = map_of (rev env_vars) in
      and_then (map_err (\<lambda>e. rs ''cannot create embedded flags-2-env contract: '' @ e) (tempfile_new lib)) (\<lambda>_.
      and_then (map_err (\<lambda>e. rs ''cannot materialize embedded flags-2-env contract: '' @ e) (tempfile_write lib)) (\<lambda>_.
      and_then (ok_or (rs ''flags-2-env contract path is not valid UTF-8'') (tempfile_path lib)) (\<lambda>path.
      and_then (map_err (\<lambda>e. rs ''flags-2-env contract audit failed: '' @ e) (audit_config lib path)) (\<lambda>_.
      and_then (map_err (\<lambda>e. rs ''flags-2-env parsing failed: '' @ e) (parse_structured lib argv path)) (\<lambda>p.
      if unknown_options p \<noteq> []
      then Err (rs ''unknown command-line option(s): '' @ intercalate (rs '', '') (unknown_names p))
      else if parse_errors p \<noteq> []
      then Err (rs ''invalid command-line value(s): '' @ show_nat (length (parse_errors p)) @ rs '' error(s)'')
      else if extras p \<noteq> []
      then Err (rs ''unexpected positional argument(s): '' @ show_nat (length (extras p)))
      else
        and_then (map_err (\<lambda>e. rs ''flags-2-env typed configuration failed: '' @ e)
                    (coerce lib (raw_config p environment) path)) (\<lambda>typed.
        insert_typed environment typed)))))))"

section \<open>Help\<close>

definition toml_get :: "rstring \<Rightarrow> toml \<Rightarrow> toml option" where
  "toml_get key t = (case t of TTable kvs \<Rightarrow> map_of kvs key | _ \<Rightarrow> None)"

definition toml_str :: "toml \<Rightarrow> rstring option" where
  "toml_str t = (case t of TString s \<Rightarrow> Some s | _ \<Rightarrow> None)"

definition toml_table :: "toml \<Rightarrow> (rstring \<times> toml) list option" where
  "toml_table t = (case t of TTable kvs \<Rightarrow> Some kvs | _ \<Rightarrow> None)"

definition first_alias :: "toml \<Rightarrow> rstring option" where
  "first_alias flag =
     Option.bind (toml_get (rs ''aliases'') flag) (\<lambda>aliases.
       case aliases of TArray (a # _) \<Rightarrow> toml_str a | _ \<Rightarrow> None)"

definition pad_right :: "nat \<Rightarrow> rstring \<Rightarrow> rstring" where
  "pad_right n s = s @ replicate (n - length s) 32"

definition help_line :: "flags_lib \<Rightarrow> toml \<Rightarrow> rstring" where
  "help_line lib flag =
     (case toml_table flag of
        None \<Rightarrow> []
      | Some _ \<Rightarrow>
          (case (case Option.bind (toml_get (rs ''long'') flag) toml_str of
                   Some l \<Rightarrow> Some l | None \<Rightarrow> first_alias flag) of
             None \<Rightarrow> []
           | Some long \<Rightarrow>
               let short = Option.bind (toml_get (rs ''short'') flag) toml_str;
                   value_type = (case Option.bind (toml_get (rs ''type'') flag) toml_str of
                                   None \<Rightarrow> rs ''string'' | Some t \<Rightarrow> t);
                   name = (case short of None \<Rightarrow> rs ''--'' @ long
                           | Some s \<Rightarrow> rs ''-'' @ s @ rs '', --'' @ long);
                   opt = (if value_type = rs ''bool'' \<or> value_type = rs ''boolean'' then name
                          else name @ rs '' <VALUE>'');
                   description = (case Option.bind (toml_get (rs ''help'') flag) toml_str of
                                    None \<Rightarrow> [] | Some d \<Rightarrow> d);
                   default = (case toml_get (rs ''default'') flag of
                                None \<Rightarrow> [] | Some v \<Rightarrow> rs '' [default: '' @ toml_display lib v @ rs '']'')
               in rs ''  '' @ pad_right 28 opt @ rs '' '' @ description @ default @ [10]))"

definition help_table :: "flags_lib \<Rightarrow> (rstring, rstring) result" where
  "help_table lib =
     and_then (map_err (\<lambda>e. rs ''cannot read flags-2-env help metadata: '' @ e) (contract_toml lib)) (\<lambda>contract.
     and_then (ok_or (rs ''flags-2-env contract has no flags table'')
                 (Option.bind (toml_get (rs ''flags'') contract) toml_table)) (\<lambda>flags.
     Ok (rs ''Usage: '' @ pkg_name lib @ rs '' [OPTIONS]'' @ [10, 10] @ rs ''Options:'' @ [10]
         @ concat (map (\<lambda>(_, flag). help_line lib flag) flags))))"

section \<open>The process-wide configuration\<close>

text \<open>
  The \<open>OnceLock\<close>: empty until the first access, which resolves the command line and environment
  of that moment; from then on the stored result, error or not, is what every access sees.
\<close>

type_synonym once_config = "(config, rstring) result option"

definition try_resolved ::
  "flags_lib \<Rightarrow> rstring list \<Rightarrow> (rstring \<times> rstring) list \<Rightarrow> once_config
     \<Rightarrow> (config, rstring) result \<times> once_config" where
  "try_resolved lib argv env_vars cell =
     (case cell of
        Some r \<Rightarrow> (r, cell)
      | None \<Rightarrow> let r = resolve_from lib argv env_vars in (r, Some r))"

datatype var_result = Var_Present rstring | Var_NotPresent | Var_Panics rstring

definition flags_var ::
  "flags_lib \<Rightarrow> rstring list \<Rightarrow> (rstring \<times> rstring) list \<Rightarrow> rstring \<Rightarrow> once_config \<Rightarrow> var_result \<times> once_config" where
  "flags_var lib argv env_vars name cell =
     (case try_resolved lib argv env_vars cell of
        (Inl e, cell') \<Rightarrow> (Var_Panics e, cell')
      | (Inr values, cell') \<Rightarrow>
          (case values name of None \<Rightarrow> Var_NotPresent | Some v \<Rightarrow> Var_Present v, cell'))"

definition process_control ::
  "flags_lib \<Rightarrow> rstring list \<Rightarrow> (rstring \<times> rstring) list \<Rightarrow> once_config
     \<Rightarrow> (rstring option, rstring) result \<times> once_config" where
  "process_control lib argv env_vars cell =
     (case try_resolved lib argv env_vars cell of
        (Inl e, cell') \<Rightarrow> (Err e, cell')
      | (Inr values, cell') \<Rightarrow>
          (if values (rs ''CLI_HELP_REQUESTED'') = Some (rs ''true'')
           then and_then (help_table lib) (\<lambda>t. Ok (Some t))
           else if values (rs ''CLI_VERSION_REQUESTED'') = Some (rs ''true'')
           then Ok (Some (pkg_name lib @ rs '' '' @ pkg_version lib @ [10]))
           else Ok None, cell'))"

text \<open>The program prints and stops, fails, or starts the server with the stored configuration.\<close>

datatype main_outcome = Main_Prints rstring | Main_Fails rstring | Main_Runs

definition main_start ::
  "flags_lib \<Rightarrow> rstring list \<Rightarrow> (rstring \<times> rstring) list \<Rightarrow> main_outcome \<times> once_config" where
  "main_start lib argv env_vars =
     (case process_control lib argv env_vars None of
        (Inl e, cell) \<Rightarrow> (Main_Fails e, cell)
      | (Inr (Some output), cell) \<Rightarrow> (Main_Prints output, cell)
      | (Inr None, cell) \<Rightarrow> (Main_Runs, cell))"

section \<open>Facts about the configuration\<close>

text \<open>
  What the flags parser promises about typed values: each name occurs once, and a value that was
  given is typed to a scalar that prints as a canonical form of the given text.
\<close>

definition coerce_law :: "flags_lib \<Rightarrow> (rstring \<Rightarrow> rstring \<Rightarrow> rstring) \<Rightarrow> bool" where
  "coerce_law lib canon \<longleftrightarrow>
     (\<forall>raw path typed. coerce lib raw path = Inr typed \<longrightarrow> distinct (map fst typed) \<and>
        (\<forall>n v s. (n, v) \<in> set typed \<and> raw n = Some s \<longrightarrow> scalar_string n v = Inr (canon n s)))"

lemma scalar_string_JNull: "scalar_string n JNull = Inr s \<longleftrightarrow> False"
  by (simp add: scalar_string_def)

lemma insert_typed_other:
  "insert_typed r typed = Inr r' \<Longrightarrow> name \<notin> fst ` set typed \<Longrightarrow> r' name = r name"
  by (induction r typed rule: insert_typed.induct) (auto split: if_splits)

lemma insert_typed_at:
  "insert_typed r typed = Inr r' \<Longrightarrow> distinct (map fst typed) \<Longrightarrow> (name, v) \<in> set typed \<Longrightarrow>
     scalar_string name v = Inr s \<Longrightarrow> r' name = Some s"
proof (induction typed arbitrary: r)
  case (Cons nx typed)
  obtain n x where nx: "nx = (n, x)" by (cases nx)
  show ?case
  proof (cases "n = name")
    case True
    with Cons.prems nx have v: "x = v" by (auto simp: rev_image_eqI)
    with Cons.prems have "x \<noteq> JNull" by (auto simp: scalar_string_JNull)
    with Cons.prems nx True v have "insert_typed (r(name \<mapsto> s)) typed = Inr r'" "name \<notin> fst ` set typed" by auto
    then show ?thesis using insert_typed_other by fastforce
  next
    case False
    with Cons.prems nx obtain r1 where "insert_typed r1 typed = Inr r'" "distinct (map fst typed)" "(name, v) \<in> set typed"
      by (auto split: if_splits)
    with Cons.IH Cons.prems(4) show ?thesis by blast
  qed
qed simp

lemma resolve_from_Ok:
  assumes "resolve_from lib argv env_vars = Inr r"
  obtains path p typed where "tempfile_path lib = Some path" "parse_structured lib argv path = Inr p"
    "unknown_options p = []" "parse_errors p = []" "extras p = []"
    "coerce lib (raw_config p (map_of (rev env_vars))) path = Inr typed"
    "insert_typed (map_of (rev env_vars)) typed = Inr r"
  using assms unfolding resolve_from_def Let_def by (auto simp del: rs_simps split: if_splits)

lemma option_name_chars: "61 \<notin> set (option_name x) \<or> length (option_name x) \<le> 2"
  by (auto simp: option_name_def dest: set_takeWhileD split: option.splits)

lemma unknown_names_cong:
  "option_name ` set (unknown_options p) = option_name ` set (unknown_options q) \<Longrightarrow> unknown_names p = unknown_names q"
  unfolding unknown_names_def sorted_list_of_set_sort_remdups [symmetric] by simp

section \<open>Sample data\<close>

definition sample_parsed :: "rstring list \<Rightarrow> parsed" where
  "sample_parsed argv =
     \<lparr>unknown_options = filter (\<lambda>a. starts_with (rs ''--unknown'') a) (tl argv), parse_errors = [], extras = [],
      dotenv = Map.empty, dotenv_overrides = Map.empty,
      provided_flags = (if rs ''--port=31337'' \<in> set argv then [rs ''PORT'' \<mapsto> rs ''31337''] else Map.empty)\<rparr>"

definition sample_flags_lib :: flags_lib where
  "sample_flags_lib =
     \<lparr>tempfile_new = Inr (), tempfile_write = Inr (), tempfile_path = Some (rs ''contract''),
      audit_config = (\<lambda>_. Inr ()), parse_structured = (\<lambda>argv _. Inr (sample_parsed argv)),
      coerce = (\<lambda>raw _. Inr [(rs ''PORT'', case raw (rs ''PORT'') of None \<Rightarrow> JNumber (rs ''8080'') | Some s \<Rightarrow> JNumber s)]),
      contract_toml = Inr (TTable [(rs ''flags'', TTable [])]), toml_display = (\<lambda>_. []),
      pkg_name = rs ''eal-api-server'', pkg_version = rs ''0.1.0''\<rparr>"

section \<open>Properties\<close>

text \<open>
  C38. Precedence of the configuration: a name that the contract types takes the value of the
  command line if it was given there, and otherwise the value of the environment unless a file
  overrides it; every other name keeps exactly the value of the environment. So secrets that the
  contract leaves out come from the environment alone.
\<close>

theorem configuration_precedence:
  assumes "coerce_law lib canon" and "resolve_from lib argv env_vars = Ok r"
  shows "\<exists>path p typed. parse_structured lib argv path = Ok p
    \<and> coerce lib (raw_config p (map_of (rev env_vars))) path = Ok typed
    \<and> (\<forall>name. name \<notin> fst ` set typed \<longrightarrow> r name = map_of (rev env_vars) name)
    \<and> (\<forall>name v. name \<in> fst ` set typed \<and> provided_flags p name = Some v \<longrightarrow> r name = Some (canon name v))
    \<and> (\<forall>name v. name \<in> fst ` set typed \<and> provided_flags p name = None \<and> dotenv_overrides p name = None
         \<and> name \<noteq> rs ''FLAGS2ENV_COMMAND'' \<and> map_of (rev env_vars) name = Some v \<longrightarrow> r name = Some (canon name v))"
proof -
  from assms(2) obtain path p typed where path: "tempfile_path lib = Some path"
    and p: "parse_structured lib argv path = Inr p"
    and typed: "coerce lib (raw_config p (map_of (rev env_vars))) path = Inr typed"
    and r: "insert_typed (map_of (rev env_vars)) typed = Inr r"
    by (rule resolve_from_Ok)
  let ?raw = "raw_config p (map_of (rev env_vars))"
  have at: "r name = Some (canon name v)" if "name \<in> fst ` set typed" "?raw name = Some v" for name v
  proof -
    from that(1) obtain j where "(name, j) \<in> set typed" by auto
    with assms(1) typed that(2) have "distinct (map fst typed)" "scalar_string name j = Inr (canon name v)"
      unfolding coerce_law_def by blast+
    with r \<open>(name, j) \<in> set typed\<close> show ?thesis by (blast intro: insert_typed_at)
  qed
  have cli: "?raw name = Some v" if "provided_flags p name = Some v" for name v
    using that by (simp add: raw_config_def map_add_def)
  have env: "?raw name = Some v" if "provided_flags p name = None" "dotenv_overrides p name = None"
    "name \<noteq> rs ''FLAGS2ENV_COMMAND''" "map_of (rev env_vars) name = Some v" for name v
    using that by (simp add: raw_config_def map_add_def del: rs_simps)
  show ?thesis
    using p typed insert_typed_other [OF r] at cli env by (intro exI [of _ path] exI [of _ p] exI [of _ typed]) blast
qed

lemma sample_coerce_law: "coerce_law sample_flags_lib (\<lambda>_ s. s)"
  by (auto simp: coerce_law_def sample_flags_lib_def scalar_string_def)

lemma sample_resolves:
  "resolve_from sample_flags_lib [rs ''server'', rs ''--port=31337''] [(rs ''PORT'', rs ''1''), (rs ''DATABASE_URL'', rs ''x'')]
     = Inr [rs ''PORT'' \<mapsto> rs ''31337'', rs ''DATABASE_URL'' \<mapsto> rs ''x'']"
  by (simp add: resolve_from_def sample_flags_lib_def sample_parsed_def starts_with_def raw_config_def scalar_string_def
      map_add_def fun_upd_twist)

theorem configuration_precedence_witness:
  "\<exists>path p typed. parse_structured sample_flags_lib [rs ''server'', rs ''--port=31337''] path = Ok p
     \<and> coerce sample_flags_lib (raw_config p (map_of [(rs ''DATABASE_URL'', rs ''x''), (rs ''PORT'', rs ''1'')])) path = Ok typed"
  using configuration_precedence [OF sample_coerce_law sample_resolves] by auto

text \<open>
  Errors about unknown options are redacted: the message names the options only up to their
  equals sign, or their first two characters, in sorted order and once each. Two command lines
  whose unknown options have the same names give the same message, whatever values they carry and
  whatever else the environment holds.
\<close>

theorem unknown_options_are_redacted:
  assumes "tempfile_new lib = Ok ()" and "tempfile_write lib = Ok ()" and "tempfile_path lib = Some path"
    and "audit_config lib path = Ok ()"
    and "parse_structured lib argv path = Ok p" and "parse_structured lib argv' path = Ok p'"
    and "unknown_options p \<noteq> []"
    and "option_name ` set (unknown_options p) = option_name ` set (unknown_options p')"
  shows "resolve_from lib argv env_vars
      = Err (rs ''unknown command-line option(s): '' @ intercalate (rs '', '') (unknown_names p))
    \<and> resolve_from lib argv' env_vars' = resolve_from lib argv env_vars
    \<and> sorted (unknown_names p) \<and> distinct (unknown_names p)
    \<and> (\<forall>n \<in> set (unknown_names p). 61 \<notin> set n \<or> length n \<le> 2)"
proof -
  have "unknown_options p' \<noteq> []" using assms(7,8) by auto
  moreover have "unknown_names p' = unknown_names p" using unknown_names_cong [OF assms(8)] by simp
  moreover have "\<forall>n \<in> set (unknown_names p). 61 \<notin> set n \<or> length n \<le> 2"
    using option_name_chars by (auto simp: unknown_names_def)
  moreover have "sorted (unknown_names p)" "distinct (unknown_names p)" by (simp_all add: unknown_names_def)
  ultimately show ?thesis using assms(1-7) by (simp add: resolve_from_def Let_def del: rs_simps)
qed

theorem unknown_options_are_redacted_witness:
  "resolve_from sample_flags_lib [rs ''server'', rs ''--unknown=do-not-echo''] []
     = resolve_from sample_flags_lib [rs ''server'', rs ''--unknown=other''] []"
  using unknown_options_are_redacted [of sample_flags_lib "rs ''contract''" "[rs ''server'', rs ''--unknown=other'']"
      "sample_parsed [rs ''server'', rs ''--unknown=other'']" "[rs ''server'', rs ''--unknown=do-not-echo'']"
      "sample_parsed [rs ''server'', rs ''--unknown=do-not-echo'']" "[]" "[]"]
  by (simp add: sample_flags_lib_def sample_parsed_def starts_with_def option_name_def strip_prefix_def)

text \<open>
  The configuration is resolved once: if the program starts its server, it did not ask for
  help or version, and every later lookup answers from that one configuration, whatever the
  environment has become since, and never panics.
\<close>

theorem configuration_is_resolved_once:
  assumes "main_start lib argv env_vars = (Main_Runs, cell)"
  shows "\<exists>r. resolve_from lib argv env_vars = Ok r \<and> cell = Some (Ok r)
    \<and> r (rs ''CLI_HELP_REQUESTED'') \<noteq> Some (rs ''true'') \<and> r (rs ''CLI_VERSION_REQUESTED'') \<noteq> Some (rs ''true'')
    \<and> (\<forall>argv' env_vars' name. flags_var lib argv' env_vars' name cell =
         (case r name of None \<Rightarrow> Var_NotPresent | Some v \<Rightarrow> Var_Present v, cell))"
  using assms
  by (auto simp: main_start_def process_control_def try_resolved_def flags_var_def Let_def and_then_eq_Inl
      simp del: rs_simps split: sum.splits prod.splits option.splits if_splits)

theorem configuration_is_resolved_once_witness:
  "\<exists>cell. main_start sample_flags_lib [rs ''server'', rs ''--port=31337''] [(rs ''PORT'', rs ''1''), (rs ''DATABASE_URL'', rs ''x'')]
       = (Main_Runs, cell)
     \<and> flags_var sample_flags_lib [] [] (rs ''PORT'') cell = (Var_Present (rs ''31337''), cell)"
proof -
  obtain cell where run: "main_start sample_flags_lib [rs ''server'', rs ''--port=31337'']
      [(rs ''PORT'', rs ''1''), (rs ''DATABASE_URL'', rs ''x'')] = (Main_Runs, cell)"
    using sample_resolves by (simp add: main_start_def process_control_def try_resolved_def Let_def)
  from configuration_is_resolved_once [OF this] sample_resolves run show ?thesis by auto
qed

end
