(* ===== verification/Telemetry.thy ===== *)
theory Telemetry
  imports Externals
begin

text \<open>
  The lifecycle telemetry of \<open>src/src/telemetry.rs\<close>: the log filter, the lifecycle records the
  process writes when it starts and stops, and the bridge that turns a log record into a trace
  event. The logger and the subscriber are parameters; a run's effect is the list of records sent.
\<close>

record otel_record =
  attributes :: "rstring \<Rightarrow> json option"
  record_body :: rstring

record trace_event =
  tr_schema :: rstring
  tr_operation :: rstring
  tr_outcome :: rstring
  tr_message :: rstring

definition attribute_or_unknown :: "otel_record \<Rightarrow> string \<Rightarrow> rstring" where
  "attribute_or_unknown r key =
     (case Option.bind (attributes r (rs key)) json_as_str of None \<Rightarrow> rs ''unknown'' | Some s \<Rightarrow> s)"

definition emit_record :: "otel_record \<Rightarrow> trace_event" where
  "emit_record r =
     \<lparr>tr_schema = attribute_or_unknown r ''next_logger.schema'',
      tr_operation = attribute_or_unknown r ''next_logger.field.operation'',
      tr_outcome = attribute_or_unknown r ''next_logger.field.outcome'',
      tr_message = record_body r\<rparr>"

text \<open>A lifecycle record: its message and its fields.\<close>

type_synonym lifecycle_record = "rstring \<times> (rstring \<times> json) list"

definition lifecycle :: "string \<Rightarrow> string \<Rightarrow> lifecycle_record" where
  "lifecycle operation outcome =
     (rs ''API telemetry lifecycle'',
      [(rs ''component'', JString (rs ''api.telemetry'')), (rs ''operation'', JString (rs operation)),
       (rs ''outcome'', JString (rs outcome))])"

record logger_options =
  lo_app_name :: rstring
  lo_name :: rstring
  lo_runtime :: rstring
  lo_max_level :: rstring
  lo_console :: bool

definition application_logger :: "rstring \<Rightarrow> logger_options" where
  "application_logger service_name =
     \<lparr>lo_app_name = service_name, lo_name = rs ''api.telemetry'', lo_runtime = rs ''rust'',
      lo_max_level = rs ''info'', lo_console = False\<rparr>"

text \<open>
  Starting telemetry: whether the filter text parses, and whether the subscriber could be
  installed, come from the environment. The result is the logger and the record it sent.
\<close>

definition telemetry_init ::
  "(rstring \<Rightarrow> bool) \<Rightarrow> bool \<Rightarrow> (rstring \<Rightarrow> rstring option) \<Rightarrow> rstring
     \<Rightarrow> (logger_options \<times> lifecycle_record, unit) result" where
  "telemetry_init filter_parses installed var service_name =
     (let directives = (case var (rs ''RUST_LOG'') of None \<Rightarrow> rs ''info,tower_http=info,hyper=warn'' | Some v \<Rightarrow> v) in
      if \<not> filter_parses directives then Err ()
      else Ok (application_logger service_name,
               lifecycle ''startup'' (if installed then ''ready'' else ''subscriber_conflict'')))"

definition telemetry_drop :: lifecycle_record where
  "telemetry_drop = lifecycle ''shutdown'' ''complete''"

text \<open>
  The logger prefixes the fields of a record; the bridge then recovers the operation and outcome.
\<close>

definition bridged :: "rstring \<Rightarrow> lifecycle_record \<Rightarrow> otel_record" where
  "bridged schema r =
     \<lparr>attributes = (map_of (map (\<lambda>(k, v). (rs ''next_logger.field.'' @ k, v)) (snd r)))
        (rs ''next_logger.schema'' \<mapsto> JString schema),
      record_body = fst r\<rparr>"

lemma emit_lifecycle:
  "emit_record (bridged schema (lifecycle operation outcome)) =
     \<lparr>tr_schema = schema, tr_operation = rs operation, tr_outcome = rs outcome,
      tr_message = rs ''API telemetry lifecycle''\<rparr>"
  by (simp add: emit_record_def bridged_def lifecycle_def attribute_or_unknown_def json_as_str_def)

end
