(* ===== verification/Web_Api_Plane.thy ===== *)
theory Web_Api_Plane
  imports Externals
begin

text \<open>
  The four-avenue binding of \<open>src/src/web_api_plane.rs\<close>: the catalogue identity, the policies and
  capabilities made from it, and their validation. The data-plane crate is a parameter.
\<close>

record ('identity, 'caps, 'db, 'http, 'tcp, 'nats, 'err) plane_lib =
  identity_new :: "rstring \<Rightarrow> rstring \<Rightarrow> rstring \<Rightarrow> 'identity option"
  caps_for :: "'identity \<Rightarrow> 'caps"
  db_for :: "'identity \<Rightarrow> 'db"
  http_for :: "'identity \<Rightarrow> 'http"
  tcp_for :: "'identity \<Rightarrow> nat \<Rightarrow> 'tcp"
  nats_for :: "'identity \<Rightarrow> 'nats"
  db_validate :: "'db \<Rightarrow> 'identity \<Rightarrow> (unit, 'err) result"
  http_validate :: "'http \<Rightarrow> (unit, 'err) result"
  tcp_validate :: "'tcp \<Rightarrow> (unit, 'err) result"
  nats_validate :: "'nats \<Rightarrow> (unit, 'err) result"

definition GITHUB_ORG :: rstring where "GITHUB_ORG = rs ''embedded-alerts''"
definition ORG_SLUG :: rstring where "ORG_SLUG = rs ''eal''"
definition DNS_ZONE :: rstring where "DNS_ZONE = rs ''embedded-alerts.dev''"

text \<open>\<open>None\<close> is the panic of \<open>expect\<close>.\<close>

definition plane_identity :: "('i, 'c, 'd, 'h, 't, 'n, 'e) plane_lib \<Rightarrow> 'i option" where
  "plane_identity lib = identity_new lib GITHUB_ORG ORG_SLUG DNS_ZONE"

definition capabilities :: "('i, 'c, 'd, 'h, 't, 'n, 'e) plane_lib \<Rightarrow> 'c option" where
  "capabilities lib = map_option (caps_for lib) (plane_identity lib)"

definition policies :: "('i, 'c, 'd, 'h, 't, 'n, 'e) plane_lib \<Rightarrow> ('d \<times> 'h \<times> 't \<times> 'n) option" where
  "policies lib =
     map_option (\<lambda>i. (db_for lib i, http_for lib i, tcp_for lib i 7443, nats_for lib i)) (plane_identity lib)"

definition validate_four_avenues :: "('i, 'c, 'd, 'h, 't, 'n, 'e) plane_lib \<Rightarrow> (unit, 'e) result option" where
  "validate_four_avenues lib =
     Option.bind (plane_identity lib) (\<lambda>i.
     Option.bind (policies lib) (\<lambda>(db, http, tcp, nats).
       Some (and_then (db_validate lib db i) (\<lambda>_.
             and_then (http_validate lib http) (\<lambda>_.
             and_then (tcp_validate lib tcp) (\<lambda>_.
             nats_validate lib nats))))))"

end
