(* ===== verification/Startup.thy ===== *)
theory Startup
  imports Server_System Mtls Flags Telemetry Web_Api_Plane
begin

text \<open>
  Starting the server, \<open>run\<close> and \<open>connect_database\<close> of \<open>src/src/lib.rs\<close>: telemetry, the identity
  boundary, the database, the two optional transports, the shared state and the listener, in the
  order of the code, each failure ending the start.
\<close>

section \<open>Definitions\<close>

datatype connect_outcome = Connected database | Connect_Fails | Connect_Times_Out

text \<open>What the outside answers during the start.\<close>

record run_env =
  ru_filter_parses :: "rstring \<Rightarrow> bool"
  ru_subscriber_free :: bool
  ru_connect :: "rstring \<Rightarrow> connect_outcome"
  ru_bind :: "rstring \<Rightarrow> bool"
  ru_local_addr :: "(unit, rstring) result"

definition connect_database ::
  "run_env \<Rightarrow> (rstring \<Rightarrow> rstring option) \<Rightarrow> (database option, rstring) result" where
  "connect_database env var =
     (case var (rs ''DATABASE_URL'') of
        None \<Rightarrow> Ok None
      | Some url \<Rightarrow>
          if trim url = [] then Ok None
          else (case ru_connect env url of
                  Connected db \<Rightarrow> Ok (Some db)
                | Connect_Fails \<Rightarrow> Err (rs ''connect database'')
                | Connect_Times_Out \<Rightarrow> Err (rs ''database connection timed out'')))"

definition var_or :: "(rstring \<Rightarrow> rstring option) \<Rightarrow> string \<Rightarrow> string \<Rightarrow> rstring" where
  "var_or var name fallback = (case var (rs name) of None \<Rightarrow> rs fallback | Some v \<Rightarrow> v)"

definition run ::
  "'x auth_lib_scheme \<Rightarrow> tls_lib \<Rightarrow> run_env \<Rightarrow> (rstring \<Rightarrow> rstring option)
     \<Rightarrow> (app_state \<times> rstring, rstring) result" where
  "run lib tls env var =
     and_then (map_err (\<lambda>_. rs ''invalid log filter'')
                 (telemetry_init (ru_filter_parses env) (ru_subscriber_free env) var (rs ''eal-api-server''))) (\<lambda>_.
     and_then (map_err (\<lambda>_. rs ''load Shared Auth boundary'') (auth_from_env lib var)) (\<lambda>auth.
     and_then (connect_database env var) (\<lambda>database.
     let store = new_store database in
     and_then (map_err rs (spawn_mtls_from_env tls var (ru_bind env))) (\<lambda>mtls.
     and_then (spawn_jetstream_from_env var store) (\<lambda>jetstream.
     let state = \<lparr>app_store = store, app_auth = auth, app_events = [],
                  app_mtls_configured = (mtls \<noteq> None), app_jetstream_configured = (jetstream \<noteq> None)\<rparr>;
         address = var_or var ''HOST'' ''0.0.0.0'' @ rs '':'' @ var_or var ''PORT'' ''8080'' in
     if ru_bind env address then and_then (ru_local_addr env) (\<lambda>_. Ok (state, address))
     else Err (rs ''bind API listener''))))))"

section \<open>Facts\<close>

lemma spawn_jetstream_Ok:
  "spawn_jetstream_from_env var st = Inr js \<Longrightarrow>
     (js = None \<longleftrightarrow> optional_env var ''NATS_URL'' = None)
     \<and> (js \<noteq> None \<longrightarrow> (\<exists>url key. js = Some (url, key) \<and> validate_nats_url url = Inr () \<and> valid_command_key key
          \<and> database_configured st))"
  unfolding spawn_jetstream_from_env_def database_configured_def
  by (auto simp: Let_def split: option.splits if_splits)

lemma spawn_mtls_Ok:
  "spawn_mtls_from_env tls var can_bind = Inr m \<Longrightarrow> mtls_from_env tls var = Inr m"
  unfolding spawn_mtls_from_env_def
  by (cases "mtls_from_env tls var") (auto split: option.splits if_splits)

lemma connect_database_Ok:
  "connect_database env var = Inr database \<Longrightarrow>
     (case database of
        None \<Rightarrow> (\<forall>url. var (rs ''DATABASE_URL'') = Some url \<longrightarrow> trim url = [])
      | Some db \<Rightarrow> (\<exists>url. var (rs ''DATABASE_URL'') = Some url \<and> trim url \<noteq> [] \<and> ru_connect env url = Connected db))"
  unfolding connect_database_def by (auto simp del: rs_simps split: option.splits connect_outcome.splits if_splits)

lemma run_Ok:
  assumes "run lib tls env var = Inr (app, address)"
  obtains auth database mtls jetstream where "auth_from_env lib var = Inr auth" "connect_database env var = Inr database"
    "mtls_from_env tls var = Inr mtls" "spawn_jetstream_from_env var (new_store database) = Inr jetstream"
    "app = \<lparr>app_store = new_store database, app_auth = auth, app_events = [],
            app_mtls_configured = (mtls \<noteq> None), app_jetstream_configured = (jetstream \<noteq> None)\<rparr>"
    "ru_bind env address"
  using assms unfolding run_def Let_def
  by (auto simp del: rs_simps split: if_splits dest!: spawn_mtls_Ok)

section \<open>Sample data\<close>

definition sample_run :: run_env where
  "sample_run = \<lparr>ru_filter_parses = (\<lambda>_. True), ru_subscriber_free = True, ru_connect = (\<lambda>_. Connect_Fails),
     ru_bind = (\<lambda>_. True), ru_local_addr = Inr ()\<rparr>"

text \<open>A configuration of the identity boundary alone: no database and no transports.\<close>

definition plain_config :: "(rstring \<Rightarrow> rstring option) \<Rightarrow> bool" where
  "plain_config var \<longleftrightarrow> var (rs ''DATABASE_URL'') = None \<and> var (rs ''NATS_URL'') = None
     \<and> (\<forall>n \<in> set mtls_variables. var (rs n) = None)"

lemma run_plain:
  assumes "plain_config var" and "auth_from_env lib var = Inr auth"
  shows "\<exists>address. run lib tls sample_run var =
    Inr (\<lparr>app_store = new_store None, app_auth = auth, app_events = [],
          app_mtls_configured = False, app_jetstream_configured = False\<rparr>, address)"
proof -
  have "\<forall>n \<in> set mtls_variables. optional_env var n = None"
    using assms(1) by (auto simp: plain_config_def optional_env_def)
  moreover have "\<exists>m \<in> set mtls_variables. optional_env var m = None"
    using calculation by (simp add: mtls_variables_def)
  ultimately have "spawn_mtls_from_env tls var b = Inr None" for b
    using mtls_from_env_incomplete [of var tls] by (simp add: spawn_mtls_from_env_def)
  moreover have "connect_database sample_run var = Inr None"
    using assms(1) by (simp add: plain_config_def connect_database_def)
  moreover have "spawn_jetstream_from_env var st = Inr None" for st
    using assms(1) by (simp add: plain_config_def spawn_jetstream_from_env_def optional_env_def)
  ultimately show ?thesis
    using assms(2) by (simp add: run_def telemetry_init_def sample_run_def Let_def)
qed

section \<open>Properties\<close>

text \<open>
  What a started server has: an identity boundary whose tenant is a bounded identifier, the
  database exactly if a \<open>DATABASE_URL\<close> that is not blank was configured and answered, the
  JetStream transport exactly if \<open>NATS_URL\<close> is set, and then always with a database, and mTLS only
  with a complete configuration; no events yet. Otherwise the start fails.
\<close>

theorem started_server_is_configured:
  assumes "run lib tls env var = Ok (app, address)"
  shows "auth_from_env lib var = Ok (app_auth app)
    \<and> bounded_identifier (pol_product_tenant (ab_policy (app_auth app)))
    \<and> app_events app = [] \<and> as_fallback (app_store app) = []
    \<and> (case as_database (app_store app) of
         None \<Rightarrow> \<forall>url. var (rs ''DATABASE_URL'') = Some url \<longrightarrow> trim url = []
       | Some db \<Rightarrow> \<exists>url. var (rs ''DATABASE_URL'') = Some url \<and> ru_connect env url = Connected db)
    \<and> (app_jetstream_configured app \<longleftrightarrow> optional_env var ''NATS_URL'' \<noteq> None)
    \<and> (app_jetstream_configured app \<longrightarrow> database_configured (app_store app))
    \<and> (app_mtls_configured app \<longrightarrow> (\<forall>n \<in> set mtls_variables. optional_env var n \<noteq> None))
    \<and> ru_bind env address"
proof -
  from assms obtain auth database mtls jetstream where
    a: "auth_from_env lib var = Inr auth" and d: "connect_database env var = Inr database"
    and m: "mtls_from_env tls var = Inr mtls" and j: "spawn_jetstream_from_env var (new_store database) = Inr jetstream"
    and app: "app = \<lparr>app_store = new_store database, app_auth = auth, app_events = [],
            app_mtls_configured = (mtls \<noteq> None), app_jetstream_configured = (jetstream \<noteq> None)\<rparr>"
    and b: "ru_bind env address" by (rule run_Ok)
  have "bounded_identifier (pol_product_tenant (ab_policy auth))"
    using a unfolding auth_from_env_def by (auto simp: Let_def simp del: rs_simps split: if_splits)
  moreover have "\<forall>n \<in> set mtls_variables. optional_env var n \<noteq> None" if "mtls \<noteq> None"
    using m that mtls_from_env_incomplete [of var tls] by (metis Inl_Inr_False Inr_inject)
  ultimately show ?thesis
    using a b connect_database_Ok [OF d] spawn_jetstream_Ok [OF j]
    by (auto simp: app new_store_def split: option.splits simp del: rs_simps)
qed

lemma sample_env_plain: "plain_config sample_env"
  by (simp add: plain_config_def sample_env_def mtls_variables_def)

theorem started_server_is_configured_witness:
  "\<exists>app address. run sample_auth_lib sample_tls sample_run sample_env = Ok (app, address)
     \<and> bounded_identifier (pol_product_tenant (ab_policy (app_auth app))) \<and> \<not> app_jetstream_configured app"
proof -
  obtain auth where "auth_from_env sample_auth_lib sample_env = Inr auth"
    using sample_env_loads by (cases "auth_from_env sample_auth_lib sample_env") auto
  then obtain app address where "run sample_auth_lib sample_tls sample_run sample_env = Inr (app, address)"
    "\<not> app_jetstream_configured app"
    using run_plain [OF sample_env_plain] by fastforce
  with started_server_is_configured [OF this(1)] show ?thesis by blast
qed

end
