(* ===== verification/Process.thy ===== *)
theory Process
  imports Startup
begin

text \<open>
  The life of one process, \<open>main\<close> of \<open>src/src/main.rs\<close> and \<open>run\<close> of \<open>src/src/lib.rs\<close> to the end:
  the command line, the start, the requests served until the shutdown signal, and the telemetry
  guard, which is dropped on every way out of \<open>run\<close>.
\<close>

section \<open>Definitions\<close>

text \<open>How serving ends: the signal, or an error of the listener.\<close>

datatype serve_end = Shutdown_Signal | Serve_Fails

text \<open>The requests that are handled until serving ends, in that order, with the answers.\<close>

fun serve :: "'x http_lib_scheme \<Rightarrow> app_state \<Rightarrow> (api_env \<times> request) list \<Rightarrow> response list" where
  "serve lib app [] = []"
| "serve lib app ((env, req) # reqs) =
     (let (resp, app') = handle_request lib env app req in resp # serve lib app' reqs)"

text \<open>
  What a process does, in order: it sends lifecycle records and it answers requests. The result is
  that of \<open>main\<close>.
\<close>

datatype process_event = Lifecycle lifecycle_record | Served response

record process_run =
  pr_trace :: "process_event list"
  pr_result :: "(unit, rstring) result"

definition pr_records :: "process_run \<Rightarrow> lifecycle_record list" where
  "pr_records p = concat (map (\<lambda>e. case e of Lifecycle r \<Rightarrow> [r] | _ \<Rightarrow> []) (pr_trace p))"

definition pr_responses :: "process_run \<Rightarrow> response list" where
  "pr_responses p = concat (map (\<lambda>e. case e of Served r \<Rightarrow> [r] | _ \<Rightarrow> []) (pr_trace p))"

text \<open>
  The scope of the guard that \<open>init\<close> returns: the statements after its binding, up to the end of the
  function or the early return of a \<open>?\<close>; then the guard is dropped.
\<close>

definition guard_scope :: "process_run \<Rightarrow> process_run" where
  "guard_scope rest = rest\<lparr>pr_trace := pr_trace rest @ [Lifecycle telemetry_drop]\<rparr>"

definition run_to_end ::
  "'x http_lib_scheme \<Rightarrow> tls_lib \<Rightarrow> run_env \<Rightarrow> (rstring \<Rightarrow> rstring option) \<Rightarrow> (api_env \<times> request) list \<Rightarrow> serve_end
     \<Rightarrow> process_run" where
  "run_to_end lib tls env var reqs ending =
     (case telemetry_init (ru_filter_parses env) (ru_subscriber_free env) var (rs ''eal-api-server'') of
        Inl _ \<Rightarrow> \<lparr>pr_trace = [], pr_result = Err (rs ''invalid log filter'')\<rparr>
      | Inr (_, startup) \<Rightarrow>
          let rest = guard_scope
               (case run lib tls env var of
                  Inl e \<Rightarrow> \<lparr>pr_trace = [], pr_result = Err e\<rparr>
                | Inr (state, _) \<Rightarrow>
                    \<lparr>pr_trace = map Served (serve lib state reqs),
                     pr_result = (case ending of Shutdown_Signal \<Rightarrow> Ok () | Serve_Fails \<Rightarrow> Err (rs ''serve API''))\<rparr>)
          in rest\<lparr>pr_trace := Lifecycle startup # pr_trace rest\<rparr>)"

text \<open>A lookup of the resolved configuration; that it does not panic is shown below.\<close>

definition config_var ::
  "flags_lib \<Rightarrow> rstring list \<Rightarrow> (rstring \<times> rstring) list \<Rightarrow> once_config \<Rightarrow> rstring \<Rightarrow> rstring option" where
  "config_var flib argv env_vars cell name =
     (case fst (flags_var flib argv env_vars name cell) of Var_Present v \<Rightarrow> Some v | _ \<Rightarrow> None)"

text \<open>The program: what it prints, and the run of its server.\<close>

definition main_process ::
  "flags_lib \<Rightarrow> 'x http_lib_scheme \<Rightarrow> tls_lib \<Rightarrow> run_env \<Rightarrow> rstring list \<Rightarrow> (rstring \<times> rstring) list
     \<Rightarrow> (api_env \<times> request) list \<Rightarrow> serve_end \<Rightarrow> rstring \<times> process_run" where
  "main_process flib lib tls env argv env_vars reqs ending =
     (case main_start flib argv env_vars of
        (Main_Fails e, _) \<Rightarrow> ([], \<lparr>pr_trace = [], pr_result = Err e\<rparr>)
      | (Main_Prints printed, _) \<Rightarrow> (printed, \<lparr>pr_trace = [], pr_result = Ok ()\<rparr>)
      | (Main_Runs, cell) \<Rightarrow> ([], run_to_end lib tls env (config_var flib argv env_vars cell) reqs ending))"

section \<open>Facts\<close>

lemma pr_responses_simps [simp]:
  "pr_responses \<lparr>pr_trace = [], pr_result = r\<rparr> = []"
  "pr_responses \<lparr>pr_trace = Lifecycle a # map Served resps @ [Lifecycle b], pr_result = r\<rparr> = resps"
  "pr_responses \<lparr>pr_trace = [Lifecycle a, Lifecycle b], pr_result = r\<rparr> = []"
  by (induction resps) (simp_all add: pr_responses_def)

lemma config_var_resolved: "config_var flib argv env_vars (Some (Inr r)) = r"
  by (auto simp: config_var_def flags_var_def try_resolved_def split: option.split)

lemma main_process_runs:
  assumes "resolve_from flib argv env_vars = Inr r"
    and "r (rs ''CLI_HELP_REQUESTED'') \<noteq> Some (rs ''true'')" "r (rs ''CLI_VERSION_REQUESTED'') \<noteq> Some (rs ''true'')"
  shows "main_process flib lib tls env argv env_vars reqs ending = ([], run_to_end lib tls env r reqs ending)"
  using assms
  by (simp add: main_process_def main_start_def process_control_def try_resolved_def Let_def config_var_resolved del: rs_simps)

lemma serve_length: "length (serve lib app reqs) = length reqs"
  by (induction lib app reqs rule: serve.induct) (auto split: prod.split)

lemma run_fails_on_filter:
  assumes "telemetry_init (ru_filter_parses env) (ru_subscriber_free env) var (rs ''eal-api-server'') = Inl u"
  shows "run lib tls env var = Inl (rs ''invalid log filter'')"
  unfolding run_def assms by simp

text \<open>A server is due when the command line resolves and asks neither for help nor for the version.\<close>

definition server_due :: "flags_lib \<Rightarrow> rstring list \<Rightarrow> (rstring \<times> rstring) list \<Rightarrow> config \<Rightarrow> bool" where
  "server_due flib argv env_vars r \<longleftrightarrow> resolve_from flib argv env_vars = Inr r
     \<and> r (rs ''CLI_HELP_REQUESTED'') \<noteq> Some (rs ''true'') \<and> r (rs ''CLI_VERSION_REQUESTED'') \<noteq> Some (rs ''true'')"

text \<open>Every way through the process.\<close>

lemma main_start_server_due:
  "fst (main_start flib argv env_vars) = Main_Runs \<longleftrightarrow> (\<exists>r. server_due flib argv env_vars r)"
  by (auto simp: main_start_def process_control_def try_resolved_def server_due_def Let_def and_then_eq_Inl
      simp del: rs_simps split: sum.split prod.split option.split)

lemma main_process_cases:
  obtains (fails) e cell where "main_start flib argv env_vars = (Main_Fails e, cell)" "\<nexists>r. server_due flib argv env_vars r"
      "main_process flib lib tls env argv env_vars reqs ending
      = ([], \<lparr>pr_trace = [], pr_result = Err e\<rparr>)"
  | (prints) t cell where "main_start flib argv env_vars = (Main_Prints t, cell)" "\<nexists>r. server_due flib argv env_vars r"
      "main_process flib lib tls env argv env_vars reqs ending
      = (t, \<lparr>pr_trace = [], pr_result = Ok ()\<rparr>)"
  | (runs) r cell where "main_start flib argv env_vars = (Main_Runs, cell)" "server_due flib argv env_vars r"
      "main_process flib lib tls env argv env_vars reqs ending = ([], run_to_end lib tls env r reqs ending)"
proof (cases "main_start flib argv env_vars")
  case (Pair outcome cell)
  note due = main_start_server_due [of flib argv env_vars, unfolded Pair fst_conv]
  show ?thesis
  proof (cases outcome)
    case (Main_Prints printed)
    with prints Pair due show ?thesis by (simp add: main_process_def)
  next
    case (Main_Fails e)
    with fails Pair due show ?thesis by (simp add: main_process_def)
  next
    case Main_Runs
    with due obtain r where "server_due flib argv env_vars r" by blast
    with runs Main_Runs Pair show ?thesis using main_process_runs unfolding server_due_def by blast
  qed
qed

lemma server_due_unique: "server_due flib argv env_vars r \<Longrightarrow> server_due flib argv env_vars r' \<Longrightarrow> r' = r"
  by (simp add: server_due_def)

text \<open>Every way through the run of the server.\<close>

lemma run_to_end_cases:
  obtains (filter) "is_ok (run lib tls env var) = False"
      "run_to_end lib tls env var reqs ending
        = \<lparr>pr_trace = [], pr_result = Err (rs ''invalid log filter'')\<rparr>"
  | (start) e msg where "msg = ''ready'' \<or> msg = ''subscriber_conflict''" "run lib tls env var = Inl e"
      "run_to_end lib tls env var reqs ending
        = \<lparr>pr_trace = [Lifecycle (lifecycle ''startup'' msg), Lifecycle telemetry_drop], pr_result = Err e\<rparr>"
  | (served) app address msg where "msg = ''ready'' \<or> msg = ''subscriber_conflict''" "run lib tls env var = Inr (app, address)"
      "run_to_end lib tls env var reqs ending
        = \<lparr>pr_trace = Lifecycle (lifecycle ''startup'' msg) # map Served (serve lib app reqs) @ [Lifecycle telemetry_drop],
           pr_result = (case ending of Shutdown_Signal \<Rightarrow> Ok () | Serve_Fails \<Rightarrow> Err (rs ''serve API''))\<rparr>"
proof (cases "telemetry_init (ru_filter_parses env) (ru_subscriber_free env) var (rs ''eal-api-server'')")
  case (Inl u)
  with filter show ?thesis using run_fails_on_filter [OF Inl, of lib tls] by (simp add: run_to_end_def guard_scope_def Let_def del: rs_simps)
next
  case (Inr x)
  then obtain logger msg where msg: "x = (logger, lifecycle ''startup'' msg)" "msg = ''ready'' \<or> msg = ''subscriber_conflict''"
    by (auto simp: telemetry_init_def Let_def simp del: rs_simps split: if_splits)
  show ?thesis
  proof (cases "run lib tls env var")
    case e: (Inl e)
    with Inr msg start show ?thesis by (simp add: run_to_end_def guard_scope_def Let_def del: rs_simps)
  next
    case a: (Inr a)
    obtain app address where "a = (app, address)" by (cases a)
    with a Inr msg served show ?thesis by (simp add: run_to_end_def guard_scope_def Let_def del: rs_simps)
  qed
qed

text \<open>The store of a server after some requests: the creations that authorised actors asked for.\<close>

definition asked_by ::
  "'x http_lib_scheme \<Rightarrow> auth_boundary \<Rightarrow> (api_env \<times> request) list \<Rightarrow> verified_actor \<Rightarrow> create_alert_rule \<Rightarrow> bool" where
  "asked_by lib ab reqs actor input \<longleftrightarrow>
     (\<exists>(env, req) \<in> set reqs. rq_method req = POST \<and> match_route (rq_path req) = Some Route_Alerts
        \<and> verify_authorization lib ab (ae_clock env) (rq_headers req) WRITE_SCOPE = Inr actor
        \<and> json_body lib (rq_headers req) (rq_body req) = Inr input)"

lemma handle_request_creates:
  "\<exists>creates. app_store (snd (handle_request lib env app req)) = run_creates (store_create lib) (app_store app) creates
     \<and> (\<forall>(e, actor, input) \<in> set creates. asked_by lib (app_auth app) [(env, req)] actor input)"
proof -
  obtain resp app' where h: "handle_request lib env app req = (resp, app')" by fastforce
  then show ?thesis
  proof (cases rule: handle_request_state)
    case unchanged
    with h show ?thesis by (intro exI [of _ "[]"]) simp
  next
    case (failed actor input e st)
    with h show ?thesis by (intro exI [of _ "[(ae_store env, actor, input)]"]) (simp add: asked_by_def)
  next
    case (created actor input alert st)
    with h show ?thesis by (intro exI [of _ "[(ae_store env, actor, input)]"]) (simp add: asked_by_def)
  qed
qed

lemma run_creates_append: "run_creates f s (xs @ ys) = run_creates f (run_creates f s xs) ys"
  by (induction f s xs rule: run_creates.induct) simp_all

lemma run_server_creates:
  "\<exists>creates. app_store (run_server lib app reqs) = run_creates (store_create lib) (app_store app) creates
     \<and> (\<forall>(e, actor, input) \<in> set creates. asked_by lib (app_auth app) reqs actor input)"
proof (induction reqs arbitrary: app)
  case Nil
  show ?case by (intro exI [of _ "[]"]) simp
next
  case (Cons r reqs)
  obtain env req where r: "r = (env, req)" by (cases r)
  let ?app = "snd (handle_request lib env app req)"
  obtain xs ys where "app_store ?app = run_creates (store_create lib) (app_store app) xs"
    "app_store (run_server lib ?app reqs) = run_creates (store_create lib) (app_store ?app) ys"
    and asked: "\<forall>(e, actor, input) \<in> set xs. asked_by lib (app_auth app) [(env, req)] actor input"
    "\<forall>(e, actor, input) \<in> set ys. asked_by lib (app_auth app) reqs actor input"
    using handle_request_creates [of lib env app req] Cons.IH [of ?app] handle_request_auth [of lib env app req] by auto
  then have "app_store (run_server lib app (r # reqs)) = run_creates (store_create lib) (app_store app) (xs @ ys)"
    by (simp add: r run_creates_append)
  moreover have "\<forall>(e, actor, input) \<in> set (xs @ ys). asked_by lib (app_auth app) (r # reqs) actor input"
    using asked unfolding r asked_by_def by fastforce
  ultimately show ?case by blast
qed

lemma run_server_auth: "app_auth (run_server lib app reqs) = app_auth app"
  by (induction lib app reqs rule: run_server.induct) (simp_all add: handle_request_auth)

lemma serve_nth:
  "i < length reqs \<Longrightarrow> serve lib app reqs ! i =
     fst (handle_request lib (fst (reqs ! i)) (run_server lib app (take i reqs)) (snd (reqs ! i)))"
proof (induction lib app reqs arbitrary: i rule: serve.induct)
  case (2 lib app env req reqs)
  then show ?case by (cases i) (auto split: prod.split)
qed simp

lemma listing_response:
  assumes "fst (handle_request lib env app req) = (200, Body_Alerts alerts)"
  obtains actor where "verify_authorization lib (app_auth app) (ae_clock env) (rq_headers req) READ_SCOPE = Inr actor"
    "store_list lib (ae_store env) (app_store app) actor = Inr alerts"
proof -
  have "list_alerts lib env app (rq_headers req) = Inr alerts"
    using assms
    by (auto simp: handle_request_def Let_def get_route_def respond_def into_response_def post_alerts_def
        split: option.splits api_route.splits http_method.splits sum.splits if_splits prod.splits)
  with that show thesis by (auto simp: list_alerts_def)
qed

section \<open>Sample data\<close>

definition sample_vars :: "(rstring \<times> rstring) list" where
  "sample_vars =
     [(rs ''SHARED_AUTH_BASE_URL'', rs ''http://127.0.0.1:8120''),
      (rs ''SHARED_AUTH_SERVICE_CREDENTIAL'', rs ''replace-with-runtime-secret''),
      (rs ''SHARED_AUTH_ISSUER'', rs '' https://auth.oresoftware.dev/customer''),
      (rs ''EAL_AUTH_AUDIENCE'', rs ''embedded-alerts-api''),
      (rs ''EAL_AUTHORIZED_CLIENT'', rs ''embedded-alerts-web''),
      (rs ''EAL_PROVIDER_TENANT'', rs ''embedded-alerts-provider''),
      (rs ''EAL_PRODUCT_TENANT'', rs ''embedded-alerts'')]"

lemma sample_vars_resolve:
  "resolve_from sample_flags_lib [rs ''server''] sample_vars = Inr ((map_of (rev sample_vars))(rs ''PORT'' \<mapsto> rs ''8080''))"
  by (simp add: resolve_from_def sample_flags_lib_def sample_parsed_def sample_vars_def raw_config_def scalar_string_def)

lemma sample_vars_start:
  "\<exists>app address. run sample_http_lib sample_tls sample_run ((map_of (rev sample_vars))(rs ''PORT'' \<mapsto> rs ''8080'')) = Inr (app, address)
     \<and> ab_policy (app_auth app) = sample_policy \<and> app_store app = new_store None"
proof -
  let ?r = "(map_of (rev sample_vars))(rs ''PORT'' \<mapsto> rs ''8080'')"
  have plain: "plain_config ?r" by (simp add: plain_config_def sample_vars_def mtls_variables_def)
  obtain ab where "auth_from_env sample_http_lib ?r = Inr ab" "ab_policy ab = sample_policy"
    by (simp add: auth_from_env_def required_env_def sample_vars_def trim_def is_whitespace_def
        strict_credential_iff is_control_def bounded_identifier_def is_ascii_alphanumeric_def
        sample_http_lib_def Let_def sample_policy_def)
  with run_plain [OF plain this(1), of sample_tls] show ?thesis by auto
qed

lemma sample_process:
  "main_process sample_flags_lib lib tls env [rs ''server''] sample_vars reqs ending
     = ([], run_to_end lib tls env ((map_of (rev sample_vars))(rs ''PORT'' \<mapsto> rs ''8080'')) reqs ending)"
  by (rule main_process_runs [OF sample_vars_resolve]) (simp_all add: sample_vars_def)

definition sample_get :: request where
  "sample_get = \<lparr>rq_method = GET, rq_path = rs ''/v1/alerts'', rq_headers = sample_headers, rq_body = []\<rparr>"

lemma sample_listed:
  assumes "ab_policy (app_auth app) = sample_policy" and "app_store app = new_store None"
  shows "\<exists>alert. serve sample_http_lib app [(sample_api_env, sample_post), (sample_api_env, sample_get)]
    = [(201, Body_Alert alert), (200, Body_Alerts [alert])]"
proof -
  let ?st = "snd (store_create sample_http_lib sample_env_up (new_store None) sample_actor sample_input)"
  have "verify_authorization sample_http_lib (app_auth app) sample_clock sample_headers READ_SCOPE = Inr sample_actor"
    using bounded_identifier_scopes(1) assms(1) by (rule sample_http_verified_by)
  moreover have "store_list sample_http_lib sample_env_up ?st sample_actor = Inr [into_rule sample_input 7 42000]"
    by (simp add: store_create_def sample_input_valid store_list_def new_store_def Let_def hash_insert_def
        fallback_list_def sample_env_up_def)
  ultimately have "fst (handle_request sample_http_lib sample_api_env (app\<lparr>app_store := ?st, app_events := events\<rparr>) sample_get)
      = (200, Body_Alerts [into_rule sample_input 7 42000])" for events
    by (simp add: handle_request_def sample_get_def match_route_def get_route_def respond_def list_alerts_def sample_api_env_def)
  then show ?thesis by (simp add: sample_posted_by [OF assms] case_prod_beta)
qed

section \<open>Properties\<close>



text \<open>
  C18. A process without a database lists what was created in it: every alert in a listing that
  such a process serves, over its whole life, has the content of an earlier request to the same
  process, which passed validation and whose credentials gave the actor the write scope, and the
  reader's credentials verify as the same actor.
\<close>

theorem process_serves_its_own_alerts:
  assumes "store_laws lib" and "main_process flib lib tls renv argv env_vars reqs ending = (printed, p)"
    and "resolve_from flib argv env_vars = Ok r" and "r (rs ''DATABASE_URL'') = None"
    and "i < length (pr_responses p)" and "pr_responses p ! i = (200, Body_Alerts alerts)" and "a \<in> set alerts"
    and "reqs ! i = (env, req)" and "env_ok (ae_store env)"
  shows "\<exists>ab actor. auth_from_env lib r = Ok ab
    \<and> verify_authorization lib ab (ae_clock env) (rq_headers req) READ_SCOPE = Ok actor
    \<and> (\<exists>(env', req') \<in> set (take i reqs). \<exists>input k now.
         rq_method req' = POST \<and> match_route (rq_path req') = Some Route_Alerts
         \<and> verify_authorization lib ab (ae_clock env') (rq_headers req') WRITE_SCOPE = Ok actor
         \<and> json_body lib (rq_headers req') (rq_body req') = Ok input \<and> validate input = Ok ()
         \<and> input_of a = input_of (into_rule input k now))"
proof (cases rule: main_process_cases [of flib argv env_vars lib tls renv reqs ending])
  case (runs r' cell)
  then have p: "p = run_to_end lib tls renv r reqs ending" using assms(2,3) by (simp add: server_due_def)
  obtain app address where run: "run lib tls renv r = Inr (app, address)" and resp: "pr_responses p = serve lib app reqs"
    using assms(5) by (cases rule: run_to_end_cases [of lib tls renv r reqs ending]) (auto simp: p)
  obtain ab where ab: "auth_from_env lib r = Inr ab" "app_auth app = ab" "app_store app = new_store None"
    by (rule run_Ok [OF run]) (use assms(4) in \<open>auto simp: connect_database_def simp del: rs_simps\<close>)
  let ?app = "run_server lib app (take i reqs)"
  have "fst (handle_request lib env ?app req) = (200, Body_Alerts alerts)"
    using assms(5,6,8) serve_nth [of i reqs lib app] by (simp add: resp serve_length)
  then obtain actor where actor: "verify_authorization lib ab (ae_clock env) (rq_headers req) READ_SCOPE = Inr actor"
    and listed: "store_list lib (ae_store env) (app_store ?app) actor = Inr alerts"
    using ab(2) by (auto simp: run_server_auth elim: listing_response)
  obtain creates where st: "app_store ?app = run_creates (store_create lib) (new_store None) creates"
    and asked: "\<forall>(e, actor, input) \<in> set creates. asked_by lib ab (take i reqs) actor input"
    using run_server_creates [of lib app "take i reqs"] ab(2,3) by auto
  have inv: "store_invar lib (new_store None)" using assms(1) by (rule store_invar_new(1))
  have "a \<in> store_owned lib (app_store ?app) actor"
    using alerts.list_sound [OF alerts.run_invar [OF inv] assms(9), of creates actor] listed assms(7) st by auto
  moreover have "a \<notin> store_owned lib (new_store None) actor"
    by (simp add: store_owned_def new_store_def fb_owned_def)
  ultimately obtain e input k now where "(e, actor, input) \<in> set creates" "validate input = Inr ()"
    "input_of a = input_of (into_rule input k now)"
    using alerts.run_origin [OF inv, of a creates actor] st by auto
  with asked have "asked_by lib ab (take i reqs) actor input" by blast
  with \<open>validate input = Inr ()\<close> \<open>input_of a = _\<close> ab(1) actor show ?thesis unfolding asked_by_def by blast
qed (use assms in auto)

theorem process_serves_its_own_alerts_witness:
  "\<exists>p alert input k now. main_process sample_flags_lib sample_http_lib sample_tls sample_run [rs ''server''] sample_vars
         [(sample_api_env, sample_post), (sample_api_env, sample_get)] Shutdown_Signal = ([], p)
     \<and> pr_responses p ! 1 = (200, Body_Alerts [alert]) \<and> validate input = Ok () \<and> input_of alert = input_of (into_rule input k now)"
proof -
  let ?r = "(map_of (rev sample_vars))(rs ''PORT'' \<mapsto> rs ''8080'')"
  let ?reqs = "[(sample_api_env, sample_post), (sample_api_env, sample_get)]"
  let ?p = "run_to_end sample_http_lib sample_tls sample_run ?r ?reqs Shutdown_Signal"
  obtain app address where app: "run sample_http_lib sample_tls sample_run ?r = Inr (app, address)"
    "ab_policy (app_auth app) = sample_policy" "app_store app = new_store None" using sample_vars_start by blast
  have "pr_responses ?p = serve sample_http_lib app ?reqs"
    using app(1) by (cases rule: run_to_end_cases [of sample_http_lib sample_tls sample_run ?r ?reqs Shutdown_Signal]) auto
  with sample_listed [OF app(2,3)] obtain alert where
    resp: "pr_responses ?p = [(201, Body_Alert alert), (200, Body_Alerts [alert])]" by auto
  have "1 < length (pr_responses ?p)" "pr_responses ?p ! 1 = (200, Body_Alerts [alert])" unfolding resp by simp_all
  moreover have "?r (rs ''DATABASE_URL'') = None" by (simp add: sample_vars_def)
  moreover have "env_ok (ae_store sample_api_env)" using sample_env_up_ok(1) by (simp add: sample_api_env_def)
  moreover have "alert \<in> set [alert]" "?reqs ! 1 = (sample_api_env, sample_get)" by simp_all
  ultimately have "\<exists>input k now. validate input = Ok () \<and> input_of alert = input_of (into_rule input k now)"
    using process_serves_its_own_alerts [OF sample_http_laws sample_process sample_vars_resolve] by blast
  with \<open>pr_responses ?p ! 1 = _\<close> sample_process show ?thesis by blast
qed

end
