(* ===== verification/Backends.thy ===== *)
theory Backends
  imports Process
begin

text \<open>
  The two backends of the store in \<open>src/src/store.rs\<close> compared through the HTTP interface: a server
  on the in-memory map and one on the database, given the same requests, clocks and fresh
  identifiers. While the database answers and no owner has more than a hundred alerts, the answers
  correspond; a timestamp that was stored has the precision of the database.
\<close>

section \<open>Corresponding stores\<close>

definition same_board :: "'x store_lib_scheme \<Rightarrow> alert_store \<Rightarrow> alert_store \<Rightarrow> bool" where
  "same_board lib mem dbs \<longleftrightarrow>
     as_database mem = None \<and> as_database dbs \<noteq> None \<and> store_invar lib mem \<and> store_invar lib dbs
     \<and> (\<forall>actor. store_owned lib dbs actor = stored_rule lib ` store_owned lib mem actor)"

text \<open>The same alerts, each once, in any order.\<close>

definition same_alerts :: "'x store_lib_scheme \<Rightarrow> alert_rule list \<Rightarrow> alert_rule list \<Rightarrow> bool" where
  "same_alerts lib xs ys \<longleftrightarrow>
     set ys = stored_rule lib ` set xs \<and> distinct (map ar_id xs) \<and> distinct (map ar_id ys)"

text \<open>A moment in which nothing fails and the listing is not cut off.\<close>

definition smooth :: "store_env \<Rightarrow> alert_store \<Rightarrow> bool" where
  "smooth env st \<longleftrightarrow> env_ok env \<and> se_db_up env \<and> \<not> se_answer_lost env
     \<and> (\<forall>db. as_database st = Some db \<longrightarrow> se_new_id env \<notin> al_id ` set (db_alert_rules db))
     \<and> (\<forall>actor. owner_count st actor \<le> 100)"

lemma stored_rule_id [simp]: "ar_id (stored_rule lib a) = ar_id a"
  by (simp add: stored_rule_def)

lemma fallback_list_distinct:
  assumes "env_ok env" "fb_invar m"
  shows "distinct (map ar_id (fallback_list env m actor))"
proof -
  let ?mine = "filter (\<lambda>((tenant, owner, _), _). tenant = va_product_tenant actor \<and> owner = va_subject actor) (se_order env m)"
  have "distinct m" using assms(2) by (simp add: fb_invar_def distinct_map)
  then have dist: "distinct ?mine" using assms(1) by (simp add: env_ok_def)
  have keys: "set (se_order env m) = set m" using assms(1) by (simp add: env_ok_def)
  have "inj_on (\<lambda>e. ar_id (snd e)) (set ?mine)"
  proof (rule inj_onI)
    fix x y assume xy: "x \<in> set ?mine" "y \<in> set ?mine" "ar_id (snd x) = ar_id (snd y)"
    then have m: "x \<in> set m" "y \<in> set m" using keys by auto
    have "i = ar_id a" if "((t, o', i), a) \<in> set m" for t o' i a using that assms(2) by (auto simp: fb_invar_def)
    with xy m have "fst x = fst y" by (auto split: prod.splits)
    note m this
    then show "x = y" using assms(2) by (auto simp: fb_invar_def distinct_map dest: inj_onD)
  qed
  with dist show ?thesis by (simp add: fallback_list_def distinct_map comp_def inj_on_def)
qed

lemma store_list_distinct:
  assumes "store_invar lib st" "env_ok env" "store_list lib env st actor = Inr xs"
  shows "distinct (map ar_id xs)"
proof (cases "as_database st")
  case None
  with assms fallback_list_distinct show ?thesis by (auto simp: store_list_def store_invar_def)
next
  case (Some db)
  with assms have inv: "db_invar lib db" and "read_alerts lib (se_db_up env) db actor = Inr xs"
    by (simp_all add: store_list_def store_invar_def)
  then have "map ar_id xs = map al_id (direct_alerts (va_product_tenant actor) (va_subject actor) db)"
    by (intro read_alerts_ids)
  with inv direct_alerts_distinct show ?thesis by (simp add: db_invar_def db_wf_def)
qed

section \<open>Operations correspond\<close>

lemma same_board_list:
  assumes board: "same_board lib mem dbs" and env: "smooth env dbs"
  shows "rel_sum (=) (same_alerts lib) (store_list lib env mem actor) (store_list lib env dbs actor)"
proof -
  have inv: "store_invar lib mem" "store_invar lib dbs" and few: "owner_count mem actor \<le> 100" "owner_count dbs actor \<le> 100"
    and ok: "env_ok env" "se_db_up env"
    using board env by (simp_all add: same_board_def smooth_def owner_count_def)
  obtain xs where xs: "store_list lib env mem actor = Inr xs" "set xs = store_owned lib mem actor"
    using store_list_complete [OF inv(1) ok few(1)] by blast
  obtain ys where ys: "store_list lib env dbs actor = Inr ys" "set ys = store_owned lib dbs actor"
    using store_list_complete [OF inv(2) ok few(2)] by blast
  have "same_alerts lib xs ys"
    using board xs ys store_list_distinct [OF inv(1) ok(1) xs(1)] store_list_distinct [OF inv(2) ok(1) ys(1)]
    by (simp add: same_alerts_def same_board_def)
  with xs(1) ys(1) show ?thesis by simp
qed

lemma same_board_get:
  assumes board: "same_board lib mem dbs" and env: "smooth env dbs"
  shows "\<exists>found. store_get lib env mem actor i = Inr found
    \<and> store_get lib env dbs actor i = Inr (map_option (stored_rule lib) found)"
proof -
  have inv: "store_invar lib mem" "store_invar lib dbs" and few: "owner_count dbs actor \<le> 100"
    and ok: "env_ok env" "se_db_up env"
    and owned: "store_owned lib dbs actor = stored_rule lib ` store_owned lib mem actor"
    using board env by (simp_all add: same_board_def smooth_def)
  obtain found where found: "store_get lib env mem actor i = Inr found"
    using board by (simp add: same_board_def store_get_def database_configured_def)
  obtain found' where found': "store_get lib env dbs actor i = Inr found'"
    using store_list_complete [OF inv(2) ok few] board
    by (auto simp: same_board_def store_get_def database_configured_def)
  have "found' = map_option (stored_rule lib) found"
  proof (cases found)
    case (Some a)
    with found have a: "a \<in> store_owned lib mem actor" "ar_id a = i" using store_get_owned [OF inv(1) ok(1)] by blast+
    with owned have "stored_rule lib a \<in> store_owned lib dbs actor" by blast
    from store_get_complete [OF inv(2) ok few this] a(2) found' Some show ?thesis by simp
  next
    case None
    show ?thesis
    proof (cases found')
      case (Some b)
      with found' have "b \<in> store_owned lib dbs actor" "ar_id b = i" using store_get_owned [OF inv(2) ok(1)] by blast+
      with owned obtain a where "a \<in> store_owned lib mem actor" "ar_id a = i" by auto
      moreover have "owner_count mem actor \<le> 100" using board by (simp add: same_board_def owner_count_def)
      ultimately have "store_get lib env mem actor i = Inr (Some a)" using store_get_complete [OF inv(1) ok] by blast
      with found None show ?thesis by simp
    qed (simp add: None)
  qed
  with found found' show ?thesis by simp
qed

lemma same_board_create:
  assumes board: "same_board lib mem dbs" and env: "smooth env dbs" and t: "length_between 1 64 (va_product_tenant actor)"
  shows "fst (store_create lib env dbs actor input) = fst (store_create lib env mem actor input)
    \<and> same_board lib (snd (store_create lib env mem actor input)) (snd (store_create lib env dbs actor input))"
proof (cases "validate input")
  case (Inl e)
  with board show ?thesis by (simp add: store_create_def)
next
  case (Inr u)
  let ?a = "into_rule input (se_new_id env) (se_now env)"
  have wf: "wf_rule ?a" using Inr wf_rule_into_rule by simp
  obtain db where db: "as_database dbs = Some db" and mem: "as_database mem = None"
    and inv: "store_invar lib mem" "store_invar lib dbs" using board by (auto simp: same_board_def)
  have "ar_id ?a \<notin> al_id ` set (db_alert_rules db)" using env db by (simp add: smooth_def into_rule_def)
  then obtain db' where "insert_alert_rule lib True db actor ?a = Inr db'"
    using insert_alert_rule_succeeds [of lib, OF _ wf t] inv(2) by (metis store_invar_def)
  then have dbs': "store_create lib env dbs actor input = (Inr ?a, dbs\<lparr>as_database := Some db'\<rparr>)"
    using Inr db env by (simp add: store_create_def smooth_def Let_def)
  obtain mem' where mem': "store_create lib env mem actor input = (Inr ?a, mem')" "as_database mem' = None"
    using Inr mem by (simp add: store_create_def Let_def)
  have own: "store_owned lib (dbs\<lparr>as_database := Some db'\<rparr>) other = stored_rule lib ` store_owned lib mem' other" for other
  proof (cases "other = actor")
    case True
    have "store_owned lib dbs actor = stored_rule lib ` store_owned lib mem actor" using board by (simp add: same_board_def)
    with True store_create_view(2) [OF inv(2) dbs'] store_create_view(2) [OF inv(1) mem'(1)] mem db
    show ?thesis by (auto simp: store_stored_def)
  next
    case False
    then show ?thesis
      using store_create_frame(2) [OF inv(2) False, of env input] store_create_frame(2) [OF inv(1) False, of env input]
        dbs' mem' board by (simp add: same_board_def)
  qed
  have "store_invar lib (dbs\<lparr>as_database := Some db'\<rparr>)" "store_invar lib mem'"
    using store_create_view(1) [OF inv(2) dbs'] store_create_view(1) [OF inv(1) mem'(1)] by blast+
  with own mem' dbs' show ?thesis by (simp add: same_board_def)
qed

section \<open>Corresponding answers\<close>

definition same_body :: "'x store_lib_scheme \<Rightarrow> response_body \<Rightarrow> response_body \<Rightarrow> bool" where
  "same_body lib b b' \<longleftrightarrow>
     (case b of
        Body_Alert a \<Rightarrow> b' = Body_Alert a \<or> b' = Body_Alert (stored_rule lib a)
      | Body_Alerts xs \<Rightarrow> (\<exists>ys. b' = Body_Alerts ys \<and> same_alerts lib xs ys)
      | Body_Health _ \<Rightarrow> (\<exists>h. b' = Body_Health h)
      | _ \<Rightarrow> b' = b)"

definition same_response :: "'x store_lib_scheme \<Rightarrow> response \<Rightarrow> response \<Rightarrow> bool" where
  "same_response lib r r' \<longleftrightarrow> fst r' = fst r \<and> same_body lib (snd r) (snd r')"

definition same_app :: "'x store_lib_scheme \<Rightarrow> app_state \<Rightarrow> app_state \<Rightarrow> bool" where
  "same_app lib mem dbs \<longleftrightarrow> app_auth dbs = app_auth mem \<and> app_events dbs = app_events mem
     \<and> same_board lib (app_store mem) (app_store dbs)"

lemma same_response_refl [simp]: "\<nexists>xs. b = Body_Alerts xs \<Longrightarrow> same_response lib (s, b) (s, b)"
  by (cases b) (simp_all add: same_response_def same_body_def)

lemma same_response_error [simp]: "same_response lib (into_response e) (into_response e)"
  by (simp add: into_response_def)

lemma same_response_health [simp]: "same_response lib (s, Body_Health h) (s, Body_Health h')"
  by (simp add: same_response_def same_body_def)

lemma same_response_get_route:
  "same_response lib r r' \<Longrightarrow> same_response lib (get_route m r) (get_route m r')"
  by (cases m) (auto simp: get_route_def same_response_def same_body_def)

lemma same_app_list:
  assumes "same_app lib mem dbs" and "smooth (ae_store env) (app_store dbs)"
  shows "same_response lib (respond (\<lambda>alerts. (200, Body_Alerts alerts)) (list_alerts lib env mem headers))
    (respond (\<lambda>alerts. (200, Body_Alerts alerts)) (list_alerts lib env dbs headers))"
proof (cases "verify_authorization lib (app_auth mem) (ae_clock env) headers READ_SCOPE")
  case (Inl e)
  with assms(1) show ?thesis by (simp add: list_alerts_def same_app_def respond_def)
next
  case (Inr actor)
  have "rel_sum (=) (same_alerts lib) (store_list lib (ae_store env) (app_store mem) actor)
      (store_list lib (ae_store env) (app_store dbs) actor)"
    using assms same_board_list by (auto simp: same_app_def)
  with Inr assms(1) show ?thesis
    by (cases "store_list lib (ae_store env) (app_store mem) actor"; cases "store_list lib (ae_store env) (app_store dbs) actor")
      (auto simp: list_alerts_def same_app_def respond_def same_response_def same_body_def into_response_def)
qed

lemma same_app_get:
  assumes "same_app lib mem dbs" and "smooth (ae_store env) (app_store dbs)"
  shows "same_response lib (respond (\<lambda>alert. (200, Body_Alert alert)) (get_alert lib env mem headers i))
    (respond (\<lambda>alert. (200, Body_Alert alert)) (get_alert lib env dbs headers i))"
proof (cases "verify_authorization lib (app_auth mem) (ae_clock env) headers READ_SCOPE")
  case (Inl e)
  with assms(1) show ?thesis by (simp add: get_alert_def same_app_def respond_def)
next
  case (Inr actor)
  obtain found where "store_get lib (ae_store env) (app_store mem) actor i = Inr found"
    "store_get lib (ae_store env) (app_store dbs) actor i = Inr (map_option (stored_rule lib) found)"
    using assms same_board_get unfolding same_app_def by blast
  with Inr assms(1) show ?thesis
    by (cases found) (simp_all add: get_alert_def same_app_def respond_def same_response_def same_body_def into_response_def)
qed

lemma same_app_post:
  assumes same: "same_app lib mem dbs" and env: "smooth (ae_store env) (app_store dbs)"
    and t: "length_between 1 64 (pol_product_tenant (ab_policy (app_auth mem)))"
  shows "same_response lib (fst (post_alerts lib env mem req)) (fst (post_alerts lib env dbs req))
    \<and> same_app lib (snd (post_alerts lib env mem req)) (snd (post_alerts lib env dbs req))"
proof (cases "json_body lib (rq_headers req) (rq_body req)")
  case (Inl status)
  with same show ?thesis by (simp add: post_alerts_def)
next
  case body: (Inr input)
  have "same_response lib (respond (\<lambda>(status, alert). (status, Body_Alert alert)) (fst (create_alert lib env mem (rq_headers req) input)))
      (respond (\<lambda>(status, alert). (status, Body_Alert alert)) (fst (create_alert lib env dbs (rq_headers req) input)))
    \<and> same_app lib (snd (create_alert lib env mem (rq_headers req) input)) (snd (create_alert lib env dbs (rq_headers req) input))"
  proof (cases "verify_authorization lib (app_auth mem) (ae_clock env) (rq_headers req) WRITE_SCOPE")
    case (Inl e)
    with same show ?thesis by (simp add: create_alert_def same_app_def respond_def)
  next
    case (Inr actor)
    then have "va_product_tenant actor = pol_product_tenant (ab_policy (app_auth mem))"
      by (auto simp: verify_authorization_Ok_iff dest: verify_token_tenant)
    with t have "length_between 1 64 (va_product_tenant actor)" by simp
    with same_board_create [OF _ env] same
    have "fst (store_create lib (ae_store env) (app_store dbs) actor input) = fst (store_create lib (ae_store env) (app_store mem) actor input)"
      "same_board lib (snd (store_create lib (ae_store env) (app_store mem) actor input))
        (snd (store_create lib (ae_store env) (app_store dbs) actor input))" by (auto simp: same_app_def)
    with Inr same show ?thesis
      by (cases "store_create lib (ae_store env) (app_store mem) actor input"; cases "store_create lib (ae_store env) (app_store dbs) actor input";
          cases "validate input") (auto simp: create_alert_def same_app_def respond_def split: sum.split)
  qed
  with body same show ?thesis by (simp add: post_alerts_def case_prod_beta)
qed

lemma same_app_handle:
  assumes same: "same_app lib mem dbs" and env: "smooth (ae_store env) (app_store dbs)"
    and t: "length_between 1 64 (pol_product_tenant (ab_policy (app_auth mem)))"
  shows "same_response lib (fst (handle_request lib env mem req)) (fst (handle_request lib env dbs req))
    \<and> same_app lib (snd (handle_request lib env mem req)) (snd (handle_request lib env dbs req))"
proof -
  note list = same_app_list [OF same env, of "rq_headers req"]
  show ?thesis
  proof (cases "match_route (rq_path req)")
    case None
    with same show ?thesis by (simp add: handle_request_def)
  next
    case (Some route)
    show ?thesis
    proof (cases route)
      case Route_Alerts
      with Some same list same_app_post [OF same env t] show ?thesis
        by (auto simp: handle_request_def Let_def intro: same_response_get_route)
    next
      case Route_Web_Alerts
      with Some same list show ?thesis by (simp add: handle_request_def Let_def same_response_get_route)
    next
      case (Route_Alert segment)
      with Some same same_app_get [OF same env, of "rq_headers req"] show ?thesis
        by (auto simp: handle_request_def Let_def intro!: same_response_get_route split: option.split)
    next
      case Route_Ws
      with Some same show ?thesis
        by (auto simp: handle_request_def Let_def ws_upgrade_def same_app_def respond_def
            intro!: same_response_get_route split: sum.split)
    next
      case Route_Health
      with Some same show ?thesis
        by (simp add: handle_request_def Let_def same_response_get_route)
    next
      case Route_Capabilities
      with Some same show ?thesis by (simp add: handle_request_def Let_def same_response_get_route)
    qed
  qed
qed

text \<open>Every request of a run meets a smooth moment of the database server.\<close>

fun smooth_run :: "'x http_lib_scheme \<Rightarrow> app_state \<Rightarrow> (api_env \<times> request) list \<Rightarrow> bool" where
  "smooth_run lib app [] = True"
| "smooth_run lib app ((env, req) # reqs) =
     (smooth (ae_store env) (app_store app) \<and> smooth_run lib (snd (handle_request lib env app req)) reqs)"

lemma same_app_serve:
  assumes "same_app lib mem dbs" and "smooth_run lib dbs reqs"
    and "length_between 1 64 (pol_product_tenant (ab_policy (app_auth mem)))"
  shows "list_all2 (same_response lib) (serve lib mem reqs) (serve lib dbs reqs)"
  using assms
proof (induction reqs arbitrary: mem dbs)
  case (Cons r reqs)
  obtain env req where r: "r = (env, req)" by (cases r)
  let ?mem = "snd (handle_request lib env mem req)" and ?dbs = "snd (handle_request lib env dbs req)"
  from Cons.prems r same_app_handle [of lib mem dbs env req]
  have "same_response lib (fst (handle_request lib env mem req)) (fst (handle_request lib env dbs req))"
    "same_app lib ?mem ?dbs" by auto
  moreover have "length_between 1 64 (pol_product_tenant (ab_policy (app_auth ?mem)))"
    using Cons.prems(3) by (simp add: handle_request_auth)
  ultimately show ?case using Cons.IH [of ?mem ?dbs] Cons.prems(2) r by (simp add: case_prod_beta)
qed simp

section \<open>Properties\<close>

text \<open>
  C13. The backends cannot be told apart: two servers that start with no alerts, one on the in-memory
  map and one on the database, give corresponding answers to every sequence of requests, as long as
  the database answers, generated identifiers are new, the tenant fits the table and no owner has
  more than a hundred alerts: equal status codes, and the same alerts, where a stored alert has the
  timestamps as the database keeps them. Only the health answer says which backend it is.
\<close>

theorem backends_are_indistinguishable:
  assumes "store_laws lib" and "length_between 1 64 (pol_product_tenant (ab_policy (app_auth app)))"
    and "smooth_run lib (app\<lparr>app_store := new_store (Some empty_database)\<rparr>) reqs"
  shows "list_all2 (same_response lib) (serve lib (app\<lparr>app_store := new_store None\<rparr>) reqs)
    (serve lib (app\<lparr>app_store := new_store (Some empty_database)\<rparr>) reqs)"
proof (rule same_app_serve)
  have "store_owned lib (new_store None) actor = {}" "store_owned lib (new_store (Some empty_database)) actor = {}" for actor
    by (simp_all add: store_owned_def new_store_def fb_owned_def db_owned_def empty_database_def)
  then show "same_app lib (app\<lparr>app_store := new_store None\<rparr>) (app\<lparr>app_store := new_store (Some empty_database)\<rparr>)"
    using store_invar_new [OF assms(1)] by (simp add: same_app_def same_board_def) (simp add: new_store_def)
qed (use assms in simp_all)

theorem backends_are_indistinguishable_witness:
  "same_response sample_http_lib (201, Body_Alert (into_rule sample_input 7 42000))
     (serve sample_http_lib (sample_app\<lparr>app_store := new_store (Some empty_database)\<rparr>)
        [(sample_api_env, sample_get), (sample_api_env, sample_post)] ! 1)"
proof -
  let ?db = "sample_app\<lparr>app_store := new_store (Some empty_database)\<rparr>"
  let ?reqs = "[(sample_api_env, sample_get), (sample_api_env, sample_post)]"
  have get: "snd (handle_request sample_http_lib env app sample_get) = app" for env app
    by (simp add: handle_request_def sample_get_def match_route_def)
  have "smooth (ae_store sample_api_env) (app_store ?db)"
    using sample_env_up_ok by (simp add: smooth_def sample_api_env_def new_store_def empty_database_def owner_count_def)
  then have "smooth_run sample_http_lib ?db ?reqs" by (simp add: get)
  moreover have "length_between 1 64 (pol_product_tenant (ab_policy (app_auth sample_app)))"
    by (simp add: length_between_def sample_app_def sample_boundary_def sample_policy_def)
  ultimately have "list_all2 (same_response sample_http_lib)
      (serve sample_http_lib (sample_app\<lparr>app_store := new_store None\<rparr>) ?reqs) (serve sample_http_lib ?db ?reqs)"
    by (intro backends_are_indistinguishable [OF sample_http_laws])
  moreover have "sample_app\<lparr>app_store := new_store None\<rparr> = sample_app" by (simp add: sample_app_def)
  moreover have "serve sample_http_lib sample_app ?reqs ! 1 = (201, Body_Alert (into_rule sample_input 7 42000))"
    by (simp add: case_prod_beta get sample_posted)
  moreover have "1 < length (serve sample_http_lib sample_app ?reqs)" unfolding serve_length by simp
  ultimately show ?thesis by (metis list_all2_nthD)
qed

end
