(* ===== verification/Concurrency.thy ===== *)
theory Concurrency
  imports Process
begin

text \<open>
  Requests that are handled at the same time: the handlers of \<open>src/src/lib.rs\<close> cut at the points where
  they wait, so that any number of them can be interleaved, and can be dropped when a client goes
  away. It shows that what clients see is what the handlers would have answered one after the other,
  in an order that respects which request ended before which began, and what that order does not
  say about the announced events.
\<close>

section \<open>Handlers in three parts\<close>

text \<open>
  Before the store: routing, extractors, credentials and validation, with an answer or the call of
  the store that is due. At the store: one call, with the answer and the event it leads to. After
  it: the event is sent.
\<close>

datatype store_call =
    Call_List http_method verified_actor
  | Call_Get http_method verified_actor uuid
  | Call_Create verified_actor create_alert_rule

datatype progress = Answer response | Call store_call

definition authorised_read ::
  "'x http_lib_scheme \<Rightarrow> api_env \<Rightarrow> app_state \<Rightarrow> request \<Rightarrow> (verified_actor \<Rightarrow> store_call) \<Rightarrow> progress" where
  "authorised_read lib env app req call =
     (case verify_authorization lib (app_auth app) (ae_clock env) (rq_headers req) READ_SCOPE of
        Inl e \<Rightarrow> Answer (get_route (rq_method req) (into_response (api_of_auth_error e)))
      | Inr actor \<Rightarrow> Call (call actor))"

definition authorised_create ::
  "'x http_lib_scheme \<Rightarrow> api_env \<Rightarrow> app_state \<Rightarrow> request \<Rightarrow> progress" where
  "authorised_create lib env app req =
     (if \<not> json_content_type lib (rq_headers req) then Answer (415, Body_Empty)
      else if MAX_JSON_BODY_BYTES < length (rq_body req) then Answer (413, Body_Empty)
      else case json_body lib (rq_headers req) (rq_body req) of
             Inl status \<Rightarrow> Answer (status, Body_Empty)
           | Inr input \<Rightarrow>
               (case verify_authorization lib (app_auth app) (ae_clock env) (rq_headers req) WRITE_SCOPE of
                  Inl e \<Rightarrow> Answer (into_response (api_of_auth_error e))
                | Inr actor \<Rightarrow>
                    (case validate input of
                       Inl _ \<Rightarrow> Answer (into_response Api_InvalidRequest)
                     | Inr _ \<Rightarrow> Call (Call_Create actor input))))"

definition before_store :: "'x http_lib_scheme \<Rightarrow> api_env \<Rightarrow> app_state \<Rightarrow> request \<Rightarrow> progress" where
  "before_store lib env app req =
     (let m = rq_method req; reads = m \<in> {GET, HEAD}; not_allowed = Answer (405, Body_Empty) in
      case match_route (rq_path req) of
        None \<Rightarrow> Answer (404, Body_Empty)
      | Some Route_Health \<Rightarrow> Answer (get_route m (200, Body_Health (health_reply app)))
      | Some Route_Capabilities \<Rightarrow> Answer (get_route m (200, Body_Json (capabilities_json lib)))
      | Some Route_Alerts \<Rightarrow>
          (if m = POST then authorised_create lib env app req
           else if reads then authorised_read lib env app req (Call_List m) else not_allowed)
      | Some Route_Web_Alerts \<Rightarrow> if reads then authorised_read lib env app req (Call_List m) else not_allowed
      | Some (Route_Alert segment) \<Rightarrow>
          (if \<not> reads then not_allowed
           else case path_uuid lib segment of
                  None \<Rightarrow> Answer (get_route m (400, Body_Empty))
                | Some i \<Rightarrow> authorised_read lib env app req (\<lambda>actor. Call_Get m actor i))
      | Some Route_Ws \<Rightarrow>
          Answer (get_route m
            (case ws_handshake lib m (rq_headers req) of
               Inl status \<Rightarrow> (status, Body_Empty)
             | Inr _ \<Rightarrow> respond (\<lambda>_. (101, Body_Empty)) (ws_upgrade lib env app (rq_headers req)))))"

fun at_store ::
  "'x store_lib_scheme \<Rightarrow> store_env \<Rightarrow> alert_store \<Rightarrow> store_call
     \<Rightarrow> (response \<times> scoped_alert_event option) \<times> alert_store" where
  "at_store lib env st (Call_List m actor) =
     ((get_route m (respond (\<lambda>alerts. (200, Body_Alerts alerts))
        (map_err (\<lambda>_. Api_Unavailable) (store_list lib env st actor))), None), st)"
| "at_store lib env st (Call_Get m actor i) =
     ((get_route m (respond (\<lambda>alert. (200, Body_Alert alert))
        (and_then (map_err (\<lambda>_. Api_Unavailable) (store_get lib env st actor i)) (ok_or Api_NotFound))), None), st)"
| "at_store lib env st (Call_Create actor input) =
     (case store_create lib env st actor input of
        (Inl _, st') \<Rightarrow> ((into_response Api_Unavailable, None), st')
      | (Inr alert, st') \<Rightarrow> (((201, Body_Alert alert), Some (created_event actor alert)), st'))"

definition announce :: "scoped_alert_event option \<Rightarrow> app_state \<Rightarrow> app_state" where
  "announce e app = app\<lparr>app_events := app_events app @ (case e of None \<Rightarrow> [] | Some e \<Rightarrow> [e])\<rparr>"

text \<open>Without anything in between, the three parts are the handler.\<close>

lemma announce_None [simp]: "announce None app = app"
  by (simp add: announce_def)

lemma handle_request_parts:
  "handle_request lib env app req =
     (case before_store lib env app req of
        Answer r \<Rightarrow> (r, app)
      | Call c \<Rightarrow>
          (case at_store lib (ae_store env) (app_store app) c of
             ((r, e), st) \<Rightarrow> (r, announce e (app\<lparr>app_store := st\<rparr>))))"
proof -
  have read: "(case authorised_read lib env app req f of Answer r \<Rightarrow> (r, app) | Call c \<Rightarrow> g c)
      = (case verify_authorization lib (app_auth app) (ae_clock env) (rq_headers req) READ_SCOPE of
           Inl e \<Rightarrow> (get_route (rq_method req) (into_response (api_of_auth_error e)), app)
         | Inr actor \<Rightarrow> g (f actor))" for f g
    by (simp add: authorised_read_def split: sum.split)
  have post: "post_alerts lib env app req =
     (case authorised_create lib env app req of
        Answer r \<Rightarrow> (r, app)
      | Call c \<Rightarrow>
          (case at_store lib (ae_store env) (app_store app) c of
             ((r, e), st) \<Rightarrow> (r, announce e (app\<lparr>app_store := st\<rparr>))))"
    by (auto simp: post_alerts_def authorised_create_def create_alert_def respond_def announce_def
        split: sum.split prod.split)
  show ?thesis
    by (auto simp: handle_request_def before_store_def Let_def post read get_route_def list_alerts_def get_alert_def
        respond_def announce_def split: option.split api_route.split http_method.split sum.split)
qed


section \<open>Requests in flight\<close>

text \<open>
  A request waits for its turn, for the store, or for its event to be sent; it ends answered, or
  dropped when its client has gone.
\<close>

datatype flight_phase =
    Arrived
  | At_Store store_call
  | Sending response "scoped_alert_event option"
  | Answered response
  | Dropped

record flight =
  fl_env :: api_env
  fl_request :: request
  fl_phase :: flight_phase

text \<open>What an observer in front of the server sees, by the number of the request.\<close>

datatype observation = Came nat | Went nat

text \<open>
  The server with its requests, numbered as they arrive. Beside the state of the program it records
  the observations, the order in which requests were decided and the events that were dropped.
\<close>

record front =
  fr_app :: app_state
  fr_flights :: "flight list"
  fr_order :: "nat list"
  fr_lost :: "scoped_alert_event list"
  fr_log :: "observation list"

definition start_front :: "app_state \<Rightarrow> front" where
  "start_front app = \<lparr>fr_app = app, fr_flights = [], fr_order = [], fr_lost = [], fr_log = []\<rparr>"

definition phase_of :: "front \<Rightarrow> nat \<Rightarrow> flight_phase" where
  "phase_of f i = fl_phase (fr_flights f ! i)"

definition set_phase :: "nat \<Rightarrow> flight_phase \<Rightarrow> front \<Rightarrow> front" where
  "set_phase i p f = f\<lparr>fr_flights := (fr_flights f)[i := (fr_flights f ! i)\<lparr>fl_phase := p\<rparr>]\<rparr>"

definition decide :: "nat \<Rightarrow> response \<Rightarrow> scoped_alert_event option \<Rightarrow> front \<Rightarrow> front" where
  "decide i r e f = (set_phase i (Sending r e) f)\<lparr>fr_order := fr_order f @ [i]\<rparr>"

fun pending_event :: "flight_phase \<Rightarrow> scoped_alert_event list" where
  "pending_event (Sending r (Some e)) = [e]"
| "pending_event _ = []"

text \<open>
  A handler can be dropped where it waits. After a creation in memory it does not wait again
  before it sends the event; a creation in the database can have taken place when the handler is
  dropped while it waits for the answer.
\<close>

definition droppable :: "app_state \<Rightarrow> flight_phase \<Rightarrow> bool" where
  "droppable app p =
     (case p of Arrived \<Rightarrow> True | At_Store _ \<Rightarrow> True
      | Sending _ e \<Rightarrow> e = None \<or> database_configured (app_store app) | _ \<Rightarrow> False)"

inductive front_step :: "'x http_lib_scheme \<Rightarrow> front \<Rightarrow> front \<Rightarrow> bool" for lib where
  Arrive: "front_step lib f (f\<lparr>fr_flights := fr_flights f @ [\<lparr>fl_env = env, fl_request = req, fl_phase = Arrived\<rparr>],
      fr_log := fr_log f @ [Came (length (fr_flights f))]\<rparr>)"
| Authorise: "i < length (fr_flights f) \<Longrightarrow> phase_of f i = Arrived \<Longrightarrow>
    before_store lib (fl_env (fr_flights f ! i)) (fr_app f) (fl_request (fr_flights f ! i)) = Call c \<Longrightarrow>
    front_step lib f (set_phase i (At_Store c) f)"
| Refuse: "i < length (fr_flights f) \<Longrightarrow> phase_of f i = Arrived \<Longrightarrow>
    before_store lib (fl_env (fr_flights f ! i)) (fr_app f) (fl_request (fr_flights f ! i)) = Answer r \<Longrightarrow>
    front_step lib f (decide i r None f)"
| Access: "i < length (fr_flights f) \<Longrightarrow> phase_of f i = At_Store c \<Longrightarrow>
    at_store lib (ae_store (fl_env (fr_flights f ! i))) (app_store (fr_app f)) c = ((r, e), st) \<Longrightarrow>
    front_step lib f ((decide i r e f)\<lparr>fr_app := (fr_app f)\<lparr>app_store := st\<rparr>\<rparr>)"
| Finish: "i < length (fr_flights f) \<Longrightarrow> phase_of f i = Sending r e \<Longrightarrow>
    front_step lib f ((set_phase i (Answered r) f)\<lparr>fr_app := announce e (fr_app f), fr_log := fr_log f @ [Went i]\<rparr>)"
| Drop: "i < length (fr_flights f) \<Longrightarrow> droppable (fr_app f) (phase_of f i) \<Longrightarrow>
    front_step lib f ((set_phase i Dropped f)\<lparr>fr_lost := fr_lost f @ pending_event (phase_of f i)\<rparr>)"

section \<open>The sequential run\<close>

text \<open>The requests in the order in which they were decided, and the state without the events.\<close>

definition seq_requests :: "front \<Rightarrow> (api_env \<times> request) list" where
  "seq_requests f = map (\<lambda>i. (fl_env (fr_flights f ! i), fl_request (fr_flights f ! i))) (fr_order f)"

definition app_core :: "app_state \<Rightarrow> app_state" where
  "app_core app = app\<lparr>app_events := []\<rparr>"

definition pending_events :: "front \<Rightarrow> scoped_alert_event list" where
  "pending_events f = concat (map (\<lambda>fl. pending_event (fl_phase fl)) (fr_flights f))"

text \<open>The request was decided, with this answer in the sequential run.\<close>

definition decided_as :: "'x http_lib_scheme \<Rightarrow> app_state \<Rightarrow> front \<Rightarrow> nat \<Rightarrow> response \<Rightarrow> bool" where
  "decided_as lib app f i r \<longleftrightarrow>
     (\<exists>k < length (fr_order f). fr_order f ! k = i \<and> serve lib app (seq_requests f) ! k = r)"

definition phase_inv :: "'x http_lib_scheme \<Rightarrow> app_state \<Rightarrow> front \<Rightarrow> nat \<Rightarrow> bool" where
  "phase_inv lib app f i =
     (case phase_of f i of
        Arrived \<Rightarrow> i \<notin> set (fr_order f)
      | At_Store c \<Rightarrow> i \<notin> set (fr_order f)
          \<and> before_store lib (fl_env (fr_flights f ! i)) app (fl_request (fr_flights f ! i)) = Call c
      | Sending r _ \<Rightarrow> decided_as lib app f i r
      | Answered r \<Rightarrow> decided_as lib app f i r
      | Dropped \<Rightarrow> True)"

definition order_inv :: "front \<Rightarrow> bool" where
  "order_inv f \<longleftrightarrow>
     distinct (fr_order f) \<and> (\<forall>i \<in> set (fr_order f). i < length (fr_flights f))
     \<and> (\<forall>j. Came j \<in> set (fr_log f) \<longrightarrow> j < length (fr_flights f))
     \<and> (\<forall>i. Went i \<in> set (fr_log f) \<longrightarrow> i \<in> set (fr_order f))
     \<and> (\<forall>i j. subseq [Went i, Came j] (fr_log f) \<longrightarrow> j \<in> set (fr_order f) \<longrightarrow> subseq [i, j] (fr_order f))"

definition state_inv :: "'x http_lib_scheme \<Rightarrow> app_state \<Rightarrow> front \<Rightarrow> bool" where
  "state_inv lib app f \<longleftrightarrow>
     app_core (fr_app f) = app_core (run_server lib app (seq_requests f))
     \<and> mset (app_events (fr_app f)) + mset (fr_lost f) + mset (pending_events f)
       = mset (app_events (run_server lib app (seq_requests f)))
     \<and> (fr_lost f \<noteq> [] \<longrightarrow> (\<exists>i < length (fr_flights f). phase_of f i = Dropped))"

definition front_inv :: "'x http_lib_scheme \<Rightarrow> app_state \<Rightarrow> front \<Rightarrow> bool" where
  "front_inv lib app f \<longleftrightarrow> order_inv f \<and> state_inv lib app f \<and> (\<forall>i < length (fr_flights f). phase_inv lib app f i)"

section \<open>Facts about single steps\<close>

lemma before_store_core:
  assumes "app_core app = app_core app'"
  shows "before_store lib env app req = before_store lib env app' req"
proof -
  have eqs: "health_reply app = health_reply app'" "app_auth app = app_auth app'"
    using assms by (cases app; cases app'; simp add: app_core_def health_reply_def)+
  show ?thesis unfolding before_store_def authorised_read_def authorised_create_def ws_upgrade_def eqs ..
qed

lemma before_store_Call:
  assumes "before_store lib env app req = Call c" "app_auth app' = app_auth app"
  shows "before_store lib env app' req = Call c"
  using assms
  by (auto simp: before_store_def authorised_read_def authorised_create_def Let_def
      split: option.splits api_route.splits if_splits sum.splits)

lemma app_core_update:
  "app_core (app\<lparr>app_store := st\<rparr>) = (app_core app)\<lparr>app_store := st\<rparr>" "app_core (announce e app) = app_core app"
  "app_store (app_core app) = app_store app" "app_auth (app_core app) = app_auth app"
  by (simp_all add: app_core_def announce_def)

lemma app_core_fields:
  "app_core app = app_core app' \<Longrightarrow> app_store app = app_store app' \<and> app_auth app = app_auth app'"
  using app_core_update(3,4) by metis

lemma announce_events:
  "mset (app_events (announce e app)) = mset (app_events app) + mset (pending_event (Sending r e))"
  by (cases e) (simp_all add: announce_def)

lemma set_phase_simps [simp]:
  "length (fr_flights (set_phase i p f)) = length (fr_flights f)"
  "i < length (fr_flights f) \<Longrightarrow> phase_of (set_phase i p f) j = (if j = i then p else phase_of f j)"
  "fr_app (set_phase i p f) = fr_app f" "fr_order (set_phase i p f) = fr_order f"
  "fr_lost (set_phase i p f) = fr_lost f" "fr_log (set_phase i p f) = fr_log f"
  by (auto simp: set_phase_def phase_of_def nth_list_update)

lemma phase_of_update [simp]:
  "phase_of (f\<lparr>fr_app := a\<rparr>) i = phase_of f i" "phase_of (f\<lparr>fr_order := is\<rparr>) i = phase_of f i"
  "phase_of (f\<lparr>fr_lost := es\<rparr>) i = phase_of f i" "phase_of (f\<lparr>fr_log := log\<rparr>) i = phase_of f i"
  by (simp_all add: phase_of_def)

lemma set_phase_request [simp]:
  "fl_env (fr_flights (set_phase i p f) ! j) = fl_env (fr_flights f ! j)"
  "fl_request (fr_flights (set_phase i p f) ! j) = fl_request (fr_flights f ! j)"
  by (cases "i < length (fr_flights f)"; cases "j = i"; simp add: set_phase_def list_update_beyond)+

lemma seq_requests_set_phase [simp]: "seq_requests (set_phase i p f) = seq_requests f"
  by (simp add: seq_requests_def)

lemma pending_events_set_phase:
  assumes "i < length (fr_flights f)"
  shows "mset (pending_events (set_phase i p f)) + mset (pending_event (phase_of f i))
    = mset (pending_events f) + mset (pending_event p)"
proof -
  have "fr_flights f = take i (fr_flights f) @ fr_flights f ! i # drop (Suc i) (fr_flights f)"
    using assms by (rule id_take_nth_drop)
  then have "pending_events f = concat (map (\<lambda>fl. pending_event (fl_phase fl)) (take i (fr_flights f)))
      @ pending_event (phase_of f i) @ concat (map (\<lambda>fl. pending_event (fl_phase fl)) (drop (Suc i) (fr_flights f)))"
    unfolding pending_events_def phase_of_def by (metis concat.simps(2) concat_append list.simps(9) map_append)
  then show ?thesis using assms by (simp add: pending_events_def set_phase_def upd_conv_take_nth_drop)
qed

text \<open>One more request in the sequential run.\<close>

lemma run_server_append: "run_server lib app (xs @ [(env, req)]) = snd (handle_request lib env (run_server lib app xs) req)"
  by (induction lib app xs rule: run_server.induct) simp_all

lemma serve_append:
  "serve lib app (xs @ [(env, req)]) = serve lib app xs @ [fst (handle_request lib env (run_server lib app xs) req)]"
  by (induction lib app xs rule: serve.induct) (auto split: prod.split)

lemma subseq_pair_append:
  "subseq [a, b] (xs @ [c]) \<longleftrightarrow> subseq [a, b] xs \<or> b = c \<and> a \<in> set xs"
  by (induction xs) (auto simp: subseq_singleton_left)

section \<open>The invariant\<close>

lemma decided_as_grow:
  assumes "decided_as lib app f i r" "fr_order f' = fr_order f @ ks" "seq_requests f' = seq_requests f @ reqs"
  shows "decided_as lib app f' i r"
proof -
  obtain k where k: "k < length (fr_order f)" "fr_order f ! k = i" "serve lib app (seq_requests f) ! k = r"
    using assms(1) by (auto simp: decided_as_def)
  have "length (seq_requests f) = length (fr_order f)" by (simp add: seq_requests_def)
  with k(1,3) have "serve lib app (seq_requests f @ reqs) ! k = r" by (simp add: serve_nth nth_append)
  with k(1,2) assms(2,3) show ?thesis unfolding decided_as_def by (intro exI [of _ k]) (simp add: nth_append)
qed

lemma subseq_pair_in: "subseq [a, b] xs \<Longrightarrow> a \<in> set xs"
  by (induction xs) (auto split: if_splits)

text \<open>What a step does to the order, the log and the requests, for the part of the invariant on order.\<close>

lemma order_inv_log:
  assumes "order_inv f" "fr_order f' = fr_order f" "length (fr_flights f) \<le> length (fr_flights f')"
    and "fr_log f' = fr_log f @ [ob]"
    and "\<And>i. ob = Went i \<Longrightarrow> i \<in> set (fr_order f)"
    and "\<And>j. ob = Came j \<Longrightarrow> j \<notin> set (fr_order f) \<and> j < length (fr_flights f')"
  shows "order_inv f'"
  using assms unfolding order_inv_def by (auto simp: subseq_pair_append)

lemma order_inv_decide:
  assumes "order_inv f" "i < length (fr_flights f)" "i \<notin> set (fr_order f)"
  shows "order_inv (decide i r e f)"
proof -
  have "subseq [k, j] (fr_order f @ [i])"
    if "subseq [Went k, Came j] (fr_log f)" "j \<in> set (fr_order f @ [i])" for k j
    using assms(1) that subseq_pair_in [OF that(1)] by (auto simp: order_inv_def subseq_pair_append)
  with assms show ?thesis unfolding order_inv_def by (simp add: decide_def)
qed

lemma order_inv_same:
  assumes "order_inv f" "fr_order f' = fr_order f" "fr_log f' = fr_log f" "length (fr_flights f') = length (fr_flights f)"
  shows "order_inv f'"
  using assms by (simp add: order_inv_def)

lemma phase_inv_cong:
  assumes "phase_of f' j = phase_of f j" "fl_env (fr_flights f' ! j) = fl_env (fr_flights f ! j)"
    "fl_request (fr_flights f' ! j) = fl_request (fr_flights f ! j)"
    "fr_order f' = fr_order f" "seq_requests f' = seq_requests f"
  shows "phase_inv lib app f' j = phase_inv lib app f j"
  unfolding phase_inv_def decided_as_def assms ..

lemma waiting_undecided:
  assumes "front_inv lib app f" "i < length (fr_flights f)" "phase_of f i = Arrived \<or> phase_of f i = At_Store c"
  shows "i \<notin> set (fr_order f)" "pending_event (phase_of f i) = []"
  using assms by (auto simp: front_inv_def phase_inv_def)

lemma seq_requests_decide:
  "seq_requests ((decide i r e f)\<lparr>fr_app := a\<rparr>)
     = seq_requests f @ [(fl_env (fr_flights f ! i), fl_request (fr_flights f ! i))]"
  by (simp add: seq_requests_def decide_def)

lemma decide_phase:
  assumes "i < length (fr_flights f)"
  shows "phase_of ((decide i r e f)\<lparr>fr_app := a\<rparr>) j = (if j = i then Sending r e else phase_of f j)"
  using assms by (simp add: decide_def phase_of_def set_phase_def nth_list_update)

lemma state_inv_decide:
  assumes inv: "front_inv lib app f" and i: "i < length (fr_flights f)"
    and waiting: "phase_of f i = Arrived \<or> phase_of f i = At_Store c"
    and run: "run_server lib app (seq_requests ((decide i r e f)\<lparr>fr_app := a\<rparr>)) = announce e app'"
    and state: "app_core a = app_core app'" "app_events a = app_events (fr_app f)"
      "app_events app' = app_events (run_server lib app (seq_requests f))"
  shows "state_inv lib app ((decide i r e f)\<lparr>fr_app := a\<rparr>)"
proof -
  let ?f = "(decide i r e f)\<lparr>fr_app := a\<rparr>"
  have "mset (pending_events ?f) = mset (pending_events f) + mset (pending_event (Sending r e))"
    using pending_events_set_phase [OF i, of "Sending r e"] waiting_undecided(2) [OF inv i waiting]
    by (simp add: pending_events_def decide_def)
  moreover have "\<exists>j < length (fr_flights ?f). phase_of ?f j = Dropped" if dropped: "\<exists>j < length (fr_flights f). phase_of f j = Dropped"
  proof -
    obtain j where "j < length (fr_flights f)" "phase_of f j = Dropped" using dropped by blast
    with waiting show ?thesis unfolding decide_phase [OF i] by (intro exI [of _ j]) (auto simp: decide_def)
  qed
  ultimately show ?thesis
    using inv state announce_events [of e app' r]
    unfolding state_inv_def front_inv_def run app_core_update(2) by (simp add: decide_def add.assoc)
qed

lemma front_inv_decide:
  assumes inv: "front_inv lib app f" and i: "i < length (fr_flights f)"
    and waiting: "phase_of f i = Arrived \<or> phase_of f i = At_Store c"
    and handled: "handle_request lib (fl_env (fr_flights f ! i)) (run_server lib app (seq_requests f)) (fl_request (fr_flights f ! i))
      = (r, announce e app')"
    and state: "app_core a = app_core app'" "app_events a = app_events (fr_app f)"
      "app_events app' = app_events (run_server lib app (seq_requests f))"
  shows "front_inv lib app ((decide i r e f)\<lparr>fr_app := a\<rparr>)"
proof -
  let ?f = "(decide i r e f)\<lparr>fr_app := a\<rparr>"
  note seq = seq_requests_decide [where i = i and r = r and e = e and f = f and a = a]
  note phase = decide_phase [OF i, where r = r and e = e and a = a]
  have order: "fr_order ?f = fr_order f @ [i]" and len: "length (fr_flights ?f) = length (fr_flights f)"
    by (simp_all add: decide_def)
  have "order_inv ?f"
    using order_inv_decide [of f i r e] inv i waiting_undecided(1) [OF inv i waiting] by (simp add: front_inv_def order_inv_def)
  moreover have "state_inv lib app ?f"
    by (rule state_inv_decide [OF inv i waiting _ state]) (simp add: seq run_server_append handled)
  moreover have "decided_as lib app ?f i r"
    unfolding decided_as_def seq serve_append handled order
    by (intro exI [of _ "length (fr_order f)"]) (simp add: nth_append serve_length seq_requests_def)
  moreover have "phase_inv lib app ?f j" if "j < length (fr_flights f)" "j \<noteq> i" for j
  proof -
    have "phase_inv lib app f j" using inv that(1) by (simp add: front_inv_def)
    moreover have "decided_as lib app ?f j r'" if "decided_as lib app f j r'" for r'
      using that order seq by (rule decided_as_grow)
    ultimately show ?thesis
      using phase [of j] that(2) unfolding phase_inv_def by (cases "phase_of f j") (simp_all add: decide_def)
  qed
  moreover have "phase_inv lib app ?f i" if "decided_as lib app ?f i r" using that phase [of i] by (simp add: phase_inv_def)
  ultimately show ?thesis unfolding front_inv_def len by blast
qed

lemma mset_exchange:
  assumes "X' + q = X + p" and "E' + p = E + q"
  shows "E' + X' = E + (X :: 'a multiset)"
proof (rule multiset_eqI)
  fix x show "count (E' + X') x = count (E + X) x"
    using arg_cong [OF assms(1), of "\<lambda>M. count M x"] arg_cong [OF assms(2), of "\<lambda>M. count M x"] by simp
qed

lemma front_inv_phase:
  assumes inv: "front_inv lib app f" and i: "i < length (fr_flights f)" and live: "phase_of f i \<noteq> Dropped"
    and f': "order_inv f'" "fr_flights f' = fr_flights (set_phase i p f)" "fr_order f' = fr_order f"
      "app_core (fr_app f') = app_core (fr_app f)"
      "mset (app_events (fr_app f')) + mset (fr_lost f') + mset (pending_event p)
        = mset (app_events (fr_app f)) + mset (fr_lost f) + mset (pending_event (phase_of f i))"
      "fr_lost f' = fr_lost f \<or> p = Dropped" "phase_inv lib app f' i"
  shows "front_inv lib app f'"
proof -
  have seq: "seq_requests f' = seq_requests f" using f'(2,3) by (simp add: seq_requests_def)
  have phase: "phase_of f' j = (if j = i then p else phase_of f j)" for j
    using set_phase_simps(2) [OF i] f'(2) by (simp add: phase_of_def)
  have pending: "mset (pending_events f') + mset (pending_event (phase_of f i)) = mset (pending_events f) + mset (pending_event p)"
    using pending_events_set_phase [OF i, of p] f'(2) by (simp add: pending_events_def)
  have "mset (app_events (fr_app f')) + mset (fr_lost f') + mset (pending_events f')
      = mset (app_events (fr_app f)) + mset (fr_lost f) + mset (pending_events f)"
    using mset_exchange [OF pending f'(5)] by simp
  moreover have "\<exists>j < length (fr_flights f'). phase_of f' j = Dropped" if "fr_lost f' \<noteq> []"
  proof (cases "p = Dropped")
    case True
    with i f'(2) show ?thesis by (intro exI [of _ i]) (simp add: phase)
  next
    case False
    with that f'(6) inv obtain j where "j < length (fr_flights f)" "phase_of f j = Dropped"
      by (auto simp: front_inv_def state_inv_def)
    with live f'(2) show ?thesis by (intro exI [of _ j]) (auto simp: phase)
  qed
  ultimately have "state_inv lib app f'"
    using inv f'(4) unfolding front_inv_def state_inv_def seq by simp
  moreover have "phase_inv lib app f' j = phase_inv lib app f j" if "j \<noteq> i" for j
    by (rule phase_inv_cong) (use that f'(2,3) phase [of j] seq in simp_all)
  then have "phase_inv lib app f' j" if "j < length (fr_flights f')" "j \<noteq> i" for j
    using inv that f'(2) by (simp add: front_inv_def)
  ultimately show ?thesis using f'(1,7) unfolding front_inv_def by blast
qed

lemma front_inv_arrive:
  assumes inv: "front_inv lib app f"
    and f': "f' = f\<lparr>fr_flights := fr_flights f @ [\<lparr>fl_env = env, fl_request = req, fl_phase = Arrived\<rparr>],
      fr_log := fr_log f @ [Came (length (fr_flights f))]\<rparr>"
  shows "front_inv lib app f'"
proof -
  let ?n = "length (fr_flights f)"
  have old: "\<forall>i \<in> set (fr_order f). i < ?n" and fresh: "?n \<notin> set (fr_order f)"
    using inv by (auto simp: front_inv_def order_inv_def)
  have nth: "j < ?n \<Longrightarrow> fr_flights f' ! j = fr_flights f ! j" "fl_phase (fr_flights f' ! ?n) = Arrived" for j
    by (simp_all add: f' nth_append)
  have seq: "seq_requests f' = seq_requests f" and order: "fr_order f' = fr_order f"
    using old nth(1) by (simp_all add: seq_requests_def f')
  have "order_inv f'"
    by (rule order_inv_log [of f _ "Came ?n"]) (use inv fresh in \<open>simp_all add: f' front_inv_def\<close>)
  moreover have "state_inv lib app f'"
    using inv unfolding front_inv_def state_inv_def seq
    by (auto simp: f' pending_events_def phase_of_def nth_append)
  moreover have "phase_inv lib app f' j" if "j < length (fr_flights f')" for j
  proof (cases "j = ?n")
    case True
    with fresh nth(2) show ?thesis by (simp add: phase_inv_def phase_of_def order)
  next
    case False
    with that have "j < ?n" by (simp add: f')
    then have "phase_inv lib app f' j = phase_inv lib app f j"
      by (intro phase_inv_cong) (simp_all add: phase_of_def nth(1) seq order)
    with inv \<open>j < ?n\<close> show ?thesis by (simp add: front_inv_def)
  qed
  ultimately show ?thesis by (simp add: front_inv_def)
qed

lemma front_inv_core:
  assumes "front_inv lib app f"
  shows "app_core (fr_app f) = app_core (run_server lib app (seq_requests f))" "order_inv f" "app_auth (fr_app f) = app_auth app"
proof -
  show core: "app_core (fr_app f) = app_core (run_server lib app (seq_requests f))" and "order_inv f"
    using assms by (simp_all add: front_inv_def state_inv_def)
  show "app_auth (fr_app f) = app_auth app" using app_core_fields [OF core] run_server_auth [of lib app] by metis
qed

lemma front_inv_access:
  assumes inv: "front_inv lib app f" and i: "i < length (fr_flights f)" and phase: "phase_of f i = At_Store c"
    and st: "at_store lib (ae_store (fl_env (fr_flights f ! i))) (app_store (fr_app f)) c = ((r, e), st)"
  shows "front_inv lib app ((decide i r e f)\<lparr>fr_app := (fr_app f)\<lparr>app_store := st\<rparr>\<rparr>)"
proof -
  let ?run = "run_server lib app (seq_requests f)"
  note core = front_inv_core(1) [OF inv]
  have "before_store lib (fl_env (fr_flights f ! i)) ?run (fl_request (fr_flights f ! i)) = Call c"
    using before_store_Call [of lib _ app _ c ?run] inv i phase run_server_auth [of lib app]
    by (auto simp: front_inv_def phase_inv_def)
  then have "handle_request lib (fl_env (fr_flights f ! i)) ?run (fl_request (fr_flights f ! i))
      = (r, announce e (?run\<lparr>app_store := st\<rparr>))"
    using st app_core_fields [OF core] by (simp add: handle_request_parts)
  from front_inv_decide [OF inv i _ this, of c "(fr_app f)\<lparr>app_store := st\<rparr>"] phase core show ?thesis
    by (simp add: app_core_update)
qed

lemma front_inv_finish:
  assumes inv: "front_inv lib app f" and i: "i < length (fr_flights f)" and phase: "phase_of f i = Sending r e"
    and f': "f' = (set_phase i (Answered r) f)\<lparr>fr_app := announce e (fr_app f), fr_log := fr_log f @ [Went i]\<rparr>"
  shows "front_inv lib app f'"
proof -
  have decided: "decided_as lib app f i r" using inv i phase by (auto simp: front_inv_def phase_inv_def)
  then have "i \<in> set (fr_order f)" by (auto simp: decided_as_def)
  moreover have "decided_as lib app f' i r"
    using decided_as_grow [OF decided, of f' "[]" "[]"] f' by (simp add: seq_requests_def)
  ultimately show ?thesis
    using f' i phase announce_events [of e "fr_app f" r] app_core_update(2) order_inv_log [OF front_inv_core(2) [OF inv], of f' "Went i"]
    by (intro front_inv_phase [OF inv i, of f' "Answered r"]) (simp_all add: phase_inv_def)
qed

interpretation front: invariant_system "front_step lib" "front_inv lib app" for lib :: "'x http_lib_scheme" and app
proof
  fix f f' assume inv: "front_inv lib app f" and "front_step lib f f'"
  note same = order_inv_same [OF front_inv_core(2) [OF inv]]
  from \<open>front_step lib f f'\<close> show "front_inv lib app f'"
  proof cases
    case (Arrive env req)
    with inv show ?thesis by (rule front_inv_arrive)
  next
    case (Authorise i c)
    have "before_store lib (fl_env (fr_flights f ! i)) app (fl_request (fr_flights f ! i)) = Call c"
      using before_store_Call [OF Authorise(4)] front_inv_core(3) [OF inv] by simp
    with Authorise waiting_undecided [OF inv Authorise(2), of c] show ?thesis
      by (intro front_inv_phase [OF inv Authorise(2), of _ "At_Store c"]) (simp_all add: same phase_inv_def)
  next
    case (Refuse i r)
    have "handle_request lib (fl_env (fr_flights f ! i)) (run_server lib app (seq_requests f)) (fl_request (fr_flights f ! i))
        = (r, announce None (run_server lib app (seq_requests f)))"
      using Refuse(4) unfolding before_store_core [OF front_inv_core(1) [OF inv]] by (simp add: handle_request_parts)
    from front_inv_decide [OF inv Refuse(2) _ this front_inv_core(1) [OF inv]] Refuse show ?thesis
      by (simp add: decide_def set_phase_def)
  next
    case (Access i c r e st)
    with inv show ?thesis by (auto intro: front_inv_access)
  next
    case (Finish i r e)
    with inv show ?thesis by (auto intro: front_inv_finish)
  next
    case (Drop i)
    then show ?thesis
      using same [of f'] by (intro front_inv_phase [OF inv Drop(2), of f' Dropped]) (auto simp: phase_inv_def droppable_def)
  qed
qed

lemma front_inv_start: "front_inv lib app (start_front app)"
  by (simp add: front_inv_def order_inv_def state_inv_def start_front_def seq_requests_def pending_events_def)

text \<open>A request that waits can be answered without any other request, as if it were alone.\<close>

lemma request_can_finish:
  assumes i: "i < length (fr_flights f)" and arrived: "phase_of f i = Arrived"
  shows "\<exists>f'. (front_step lib)\<^sup>*\<^sup>* f f' \<and> length (fr_flights f') = length (fr_flights f)
    \<and> fr_app f' = snd (handle_request lib (fl_env (fr_flights f ! i)) (fr_app f) (fl_request (fr_flights f ! i)))
    \<and> (\<forall>j. phase_of f' j = (if j = i
         then Answered (fst (handle_request lib (fl_env (fr_flights f ! i)) (fr_app f) (fl_request (fr_flights f ! i))))
         else phase_of f j))"
proof -
  let ?env = "fl_env (fr_flights f ! i)" and ?req = "fl_request (fr_flights f ! i)"
  have finish: "\<exists>f''. front_step lib f' f'' \<and> length (fr_flights f'') = length (fr_flights f') \<and> fr_app f'' = announce e (fr_app f')
      \<and> (\<forall>j. phase_of f'' j = (if j = i then Answered r else phase_of f' j))"
    if "i < length (fr_flights f')" "phase_of f' i = Sending r e" for f' r e
    using front_step.Finish [OF that, of lib] that(1) by fastforce
  show ?thesis
  proof (cases "before_store lib ?env (fr_app f) ?req")
    case (Answer r)
    let ?f1 = "decide i r None f"
    have "front_step lib f ?f1" using i arrived Answer by (rule front_step.Refuse)
    moreover obtain f2 where "front_step lib ?f1 f2" "length (fr_flights f2) = length (fr_flights f)" "fr_app f2 = fr_app f"
      "\<forall>j. phase_of f2 j = (if j = i then Answered r else phase_of f j)"
      using finish [of ?f1 r None] i by (auto simp: decide_def)
    moreover from calculation have "(front_step lib)\<^sup>*\<^sup>* f f2" by (meson converse_rtranclp_into_rtranclp rtranclp.rtrancl_refl)
    ultimately show ?thesis using Answer by (intro exI [of _ f2]) (simp add: handle_request_parts)
  next
    case (Call c)
    let ?f1 = "set_phase i (At_Store c) f"
    obtain r e st where st: "at_store lib (ae_store ?env) (app_store (fr_app f)) c = ((r, e), st)" by (metis prod.collapse)
    let ?f2 = "(decide i r e ?f1)\<lparr>fr_app := (fr_app f)\<lparr>app_store := st\<rparr>\<rparr>"
    have "front_step lib f ?f1" using i arrived Call by (rule front_step.Authorise)
    moreover have "front_step lib ?f1 ?f2" using front_step.Access [of i ?f1 c lib r e st] i st by simp
    moreover obtain f3 where "front_step lib ?f2 f3" "length (fr_flights f3) = length (fr_flights f)"
      "fr_app f3 = announce e ((fr_app f)\<lparr>app_store := st\<rparr>)" "\<forall>j. phase_of f3 j = (if j = i then Answered r else phase_of f j)"
      using finish [of ?f2 r e] i by (auto simp: decide_def)
    moreover from calculation have "(front_step lib)\<^sup>*\<^sup>* f f3" by (meson converse_rtranclp_into_rtranclp rtranclp.rtrancl_refl)
    ultimately show ?thesis using Call st by (intro exI [of _ f3]) (simp add: handle_request_parts)
  qed
qed

text \<open>
  A client that goes away while its creation waits for the database: the alert is stored and its
  event is never announced.
\<close>

lemma store_create_configured:
  "store_create lib env st actor input = (r, st') \<Longrightarrow> database_configured st' = database_configured st"
  by (auto simp: store_create_def database_configured_def Let_def split: sum.splits option.splits if_splits)

lemma dropped_creation_is_silent:
  assumes "database_configured (app_store app)" and "before_store lib env app req = Call (Call_Create actor input)"
    and "store_create lib (ae_store env) (app_store app) actor input = (Ok alert, st)"
  shows "\<exists>f. (front_step lib)\<^sup>*\<^sup>* (start_front app) f \<and> phase_of f 0 = Dropped
    \<and> app_store (fr_app f) = st \<and> app_events (fr_app f) = app_events app"
proof -
  let ?f1 = "(start_front app)\<lparr>fr_flights := [\<lparr>fl_env = env, fl_request = req, fl_phase = Arrived\<rparr>], fr_log := [Came 0]\<rparr>"
  let ?f2 = "set_phase 0 (At_Store (Call_Create actor input)) ?f1"
  let ?f3 = "(decide 0 (201, Body_Alert alert) (Some (created_event actor alert)) ?f2)\<lparr>fr_app := app\<lparr>app_store := st\<rparr>\<rparr>"
  let ?f4 = "(set_phase 0 Dropped ?f3)\<lparr>fr_lost := [created_event actor alert]\<rparr>"
  have "front_step lib (start_front app) ?f1"
    using front_step.Arrive [of lib "start_front app" env req] by (simp add: start_front_def)
  moreover have "front_step lib ?f1 ?f2"
    by (rule front_step.Authorise) (use assms(2) in \<open>simp_all add: start_front_def phase_of_def\<close>)
  moreover have "front_step lib ?f2 ?f3"
    using front_step.Access [of 0 ?f2 "Call_Create actor input" lib "(201, Body_Alert alert)" "Some (created_event actor alert)" st] assms(3)
    by (simp add: start_front_def)
  moreover have "front_step lib ?f3 ?f4"
    using front_step.Drop [of 0 ?f3 lib] assms(1) store_create_configured [OF assms(3)]
    by (simp add: decide_def droppable_def start_front_def)
  ultimately have "(front_step lib)\<^sup>*\<^sup>* (start_front app) ?f4" by (meson converse_rtranclp_into_rtranclp rtranclp.rtrancl_refl)
  then show ?thesis by (intro exI [of _ ?f4]) (simp add: decide_def start_front_def)
qed

section \<open>Properties\<close>

text \<open>
  C12. Concurrent requests are linearizable: however the handlers of any number of requests are
  interleaved, and whichever of them are dropped, there is an order of the requests such that the
  store is what handling them one after the other gives, every answer is the answer of that run, and
  a request that was answered before another one arrived comes before it. The announced events are
  among the events of that run, in any order, and all of them once every request was answered.
\<close>

theorem concurrent_requests_are_linearizable:
  assumes "(front_step lib)\<^sup>*\<^sup>* (start_front app) f"
  shows "\<exists>order reqs. distinct order \<and> set order \<subseteq> {..<length (fr_flights f)}
    \<and> reqs = map (\<lambda>i. (fl_env (fr_flights f ! i), fl_request (fr_flights f ! i))) order
    \<and> app_store (fr_app f) = app_store (run_server lib app reqs)
    \<and> (\<forall>i r. i < length (fr_flights f) \<and> phase_of f i = Answered r \<longrightarrow>
         (\<exists>k < length order. order ! k = i \<and> serve lib app reqs ! k = r))
    \<and> (\<forall>i j. subseq [Went i, Came j] (fr_log f) \<and> j \<in> set order \<longrightarrow> subseq [i, j] order)
    \<and> mset (app_events (fr_app f)) \<subseteq># mset (app_events (run_server lib app reqs))
    \<and> ((\<forall>i < length (fr_flights f). \<exists>r. phase_of f i = Answered r) \<longrightarrow>
         mset (app_events (fr_app f)) = mset (app_events (run_server lib app reqs)))"
proof -
  have inv: "front_inv lib app f" using assms front_inv_start by (rule front.run_inv)
  then have order: "order_inv f" and state: "state_inv lib app f" by (simp_all add: front_inv_def)
  let ?reqs = "seq_requests f"
  have "app_store (fr_app f) = app_store (run_server lib app ?reqs)"
    using state app_core_fields [of "fr_app f" "run_server lib app ?reqs"] by (simp add: state_inv_def)
  moreover have "\<exists>k < length (fr_order f). fr_order f ! k = i \<and> serve lib app ?reqs ! k = r"
    if "i < length (fr_flights f)" "phase_of f i = Answered r" for i r
    using inv that by (auto simp: front_inv_def phase_inv_def decided_as_def)
  moreover have sum: "mset (app_events (fr_app f)) + mset (fr_lost f) + mset (pending_events f)
      = mset (app_events (run_server lib app ?reqs))"
    using state by (simp add: state_inv_def)
  moreover have "mset (app_events (fr_app f)) = mset (app_events (run_server lib app ?reqs))"
    if "\<forall>i < length (fr_flights f). \<exists>r. phase_of f i = Answered r"
  proof -
    have "fr_lost f = []" using state that by (auto simp: state_inv_def)
    moreover have "pending_events f = []"
      using that by (fastforce simp: pending_events_def phase_of_def in_set_conv_nth)
    ultimately show ?thesis using sum by simp
  qed
  moreover have "mset (app_events (fr_app f)) \<subseteq># mset (app_events (run_server lib app ?reqs))"
    unfolding sum [symmetric] by (simp add: add.assoc)
  ultimately show ?thesis
    using order unfolding order_inv_def seq_requests_def
    by (intro exI [of _ "fr_order f"] exI [of _ "seq_requests f"]) (auto simp: seq_requests_def)
qed

definition two_arrived :: front where
  "two_arrived = (start_front sample_app)\<lparr>
     fr_flights := [\<lparr>fl_env = sample_api_env, fl_request = sample_get, fl_phase = Arrived\<rparr>,
                    \<lparr>fl_env = sample_api_env, fl_request = sample_post, fl_phase = Arrived\<rparr>],
     fr_log := [Came 0, Came 1]\<rparr>"

lemma two_arrived_reached: "(front_step lib)\<^sup>*\<^sup>* (start_front sample_app) two_arrived"
proof -
  let ?f = "(start_front sample_app)\<lparr>
     fr_flights := [\<lparr>fl_env = sample_api_env, fl_request = sample_get, fl_phase = Arrived\<rparr>], fr_log := [Came 0]\<rparr>"
  have "front_step lib (start_front sample_app) ?f"
    using front_step.Arrive [of lib "start_front sample_app" sample_api_env sample_get] by (simp add: start_front_def)
  moreover have "front_step lib ?f two_arrived"
    using front_step.Arrive [of lib ?f sample_api_env sample_post] by (simp add: start_front_def two_arrived_def)
  ultimately show ?thesis by (meson converse_rtranclp_into_rtranclp rtranclp.rtrancl_refl)
qed

theorem concurrent_requests_are_linearizable_witness:
  "\<exists>(f :: front) order k. length (fr_flights f) = 2 \<and> distinct order \<and> k < length order \<and> order ! k = 1
     \<and> serve sample_http_lib sample_app
         (map (\<lambda>i. (fl_env (fr_flights f ! i), fl_request (fr_flights f ! i))) order) ! k
       = (201, Body_Alert (into_rule sample_input 7 42000))"
proof -
  have two: "1 < length (fr_flights two_arrived)" "phase_of two_arrived 1 = Arrived"
    "fl_env (fr_flights two_arrived ! 1) = sample_api_env" "fl_request (fr_flights two_arrived ! 1) = sample_post"
    "fr_app two_arrived = sample_app" "length (fr_flights two_arrived) = 2"
    by (simp_all add: two_arrived_def phase_of_def start_front_def)
  obtain f where f: "(front_step sample_http_lib)\<^sup>*\<^sup>* two_arrived f" "length (fr_flights f) = 2"
    and phases: "\<forall>j. phase_of f j = (if j = 1 then Answered (201, Body_Alert (into_rule sample_input 7 42000)) else phase_of two_arrived j)"
    using request_can_finish [OF two(1,2), of sample_http_lib] unfolding two(3-6) sample_posted fst_conv by blast
  have "(front_step sample_http_lib)\<^sup>*\<^sup>* (start_front sample_app) f" using two_arrived_reached f(1) by (rule rtranclp_trans)
  from concurrent_requests_are_linearizable [OF this] obtain order where
    "distinct order" "\<forall>i r. i < length (fr_flights f) \<and> phase_of f i = Answered r \<longrightarrow> (\<exists>k < length order. order ! k = i
       \<and> serve sample_http_lib sample_app (map (\<lambda>i. (fl_env (fr_flights f ! i), fl_request (fr_flights f ! i))) order) ! k = r)"
    by blast
  moreover have "1 < length (fr_flights f)" "phase_of f 1 = Answered (201, Body_Alert (into_rule sample_input 7 42000))"
    using f(2) phases by simp_all
  ultimately show ?thesis using f(2) by blast
qed

end
