(* ===== verification/Sockets.thy ===== *)
theory Sockets
  imports Api
begin

text \<open>
  Web sockets beside the requests: the upgrade, the subscription to the broadcast channel and the loop
  of \<open>websocket\<close> in \<open>src/src/lib.rs\<close>, for any number of sockets, as one step relation. It shows
  what an open socket has sent, in which order and from when on, that a socket which keeps up sends
  everything, and that a socket outlives the credentials it was opened with.
\<close>

section \<open>State\<close>

text \<open>The number of events that the channel keeps for a slow receiver.\<close>

definition EVENT_CAPACITY :: nat where "EVENT_CAPACITY = 512"

text \<open>
  A socket: its actor, what its loop has selected so far, the number of events that had been sent
  when it subscribed (none before that), and the number of the event it receives next.
\<close>

record socket =
  so_actor :: verified_actor
  so_inputs :: "ws_input list"
  so_from :: "nat option"
  so_next :: nat

record hub =
  hb_app :: app_state
  hb_sockets :: "socket list"

definition new_socket :: "verified_actor \<Rightarrow> socket" where
  "new_socket actor = \<lparr>so_actor = actor, so_inputs = [], so_from = None, so_next = 0\<rparr>"

definition hub_events :: "hub \<Rightarrow> scoped_alert_event list" where
  "hub_events h = app_events (hb_app h)"

text \<open>Whether the loop has not been left.\<close>

definition ws_running :: "'x http_lib_scheme \<Rightarrow> verified_actor \<Rightarrow> ws_input list \<Rightarrow> bool" where
  "ws_running lib actor is \<longleftrightarrow> list_all (\<lambda>i. snd (ws_turn lib actor i)) is"

lemma ws_running_simps [simp]:
  "ws_running lib actor []" "ws_running lib actor (i # is) \<longleftrightarrow> snd (ws_turn lib actor i) \<and> ws_running lib actor is"
  by (simp_all add: ws_running_def)

definition socket_sent :: "'x http_lib_scheme \<Rightarrow> socket \<Rightarrow> rstring list" where
  "socket_sent lib so = websocket lib (so_actor so) (so_inputs so)"

definition socket_open :: "'x http_lib_scheme \<Rightarrow> socket \<Rightarrow> bool" where
  "socket_open lib so \<longleftrightarrow> so_from so \<noteq> None \<and> ws_running lib (so_actor so) (so_inputs so)"

section \<open>Steps\<close>

definition subscribe :: "hub \<Rightarrow> socket \<Rightarrow> socket" where
  "subscribe h so = so\<lparr>so_from := Some (length (hub_events h)), so_next := length (hub_events h)\<rparr>"

definition select_input :: "ws_input \<Rightarrow> socket \<Rightarrow> socket" where
  "select_input i so = so\<lparr>so_inputs := so_inputs so @ [i]\<rparr>"

definition receive_event :: "hub \<Rightarrow> bool \<Rightarrow> socket \<Rightarrow> socket" where
  "receive_event h sent so =
     (select_input (Event (hub_events h ! so_next so) sent) so)\<lparr>so_next := Suc (so_next so)\<rparr>"

text \<open>A receiver that lags behind is moved to the oldest event that the channel still keeps.\<close>

definition lag_behind :: "hub \<Rightarrow> socket \<Rightarrow> socket" where
  "lag_behind h so = (select_input Event_Lagged so)\<lparr>so_next := length (hub_events h) - EVENT_CAPACITY\<rparr>"

definition set_socket :: "nat \<Rightarrow> socket \<Rightarrow> hub \<Rightarrow> hub" where
  "set_socket i so h = h\<lparr>hb_sockets := (hb_sockets h)[i := so]\<rparr>"

text \<open>
  A receiver of the channel gets the event after its last one while no more than the capacity lie
  ahead of it; otherwise it is told that it lags behind, and goes on with the oldest event that is
  kept if it asks again. Whether the loop asks again is its own decision. The channel does not close while a loop
  runs, since the loop itself holds a sender with the shared state.
\<close>

inductive hub_step :: "'x http_lib_scheme \<Rightarrow> hub \<Rightarrow> hub \<Rightarrow> bool" for lib where
  Handle: "hub_step lib h (h\<lparr>hb_app := snd (handle_request lib env (hb_app h) req)\<rparr>)"
| Upgrade: "rq_method (req :: request) = GET \<Longrightarrow> match_route (rq_path req) = Some Route_Ws \<Longrightarrow>
    ws_handshake lib (rq_method req) (rq_headers req) = Inr () \<Longrightarrow>
    ws_upgrade lib env (hb_app h) (rq_headers req) = Inr actor \<Longrightarrow>
    hub_step lib h (h\<lparr>hb_sockets := hb_sockets h @ [new_socket actor]\<rparr>)"
| Subscribe: "i < length (hb_sockets h) \<Longrightarrow> so = hb_sockets h ! i \<Longrightarrow> so_from so = None \<Longrightarrow>
    hub_step lib h (set_socket i (subscribe h so) h)"
| Client: "i < length (hb_sockets h) \<Longrightarrow> so = hb_sockets h ! i \<Longrightarrow> socket_open lib so \<Longrightarrow>
    c \<in> {Client_Close, Client_Message, Client_Gone, Client_Error} \<Longrightarrow>
    hub_step lib h (set_socket i (select_input c so) h)"
| Receive: "i < length (hb_sockets h) \<Longrightarrow> so = hb_sockets h ! i \<Longrightarrow> socket_open lib so \<Longrightarrow>
    so_next so < length (hub_events h) \<Longrightarrow> length (hub_events h) - so_next so \<le> EVENT_CAPACITY \<Longrightarrow>
    hub_step lib h (set_socket i (receive_event h sent so) h)"
| Lag: "i < length (hb_sockets h) \<Longrightarrow> so = hb_sockets h ! i \<Longrightarrow> socket_open lib so \<Longrightarrow>
    EVENT_CAPACITY < length (hub_events h) - so_next so \<Longrightarrow>
    hub_step lib h (set_socket i (lag_behind h so) h)"

inductive_cases hub_stepE: "hub_step lib h h'"

definition start_hub :: "app_state \<Rightarrow> hub" where
  "start_hub app = \<lparr>hb_app = app, hb_sockets = []\<rparr>"

section \<open>The invariant\<close>

text \<open>
  What a socket has received are the first events from its subscription on; while its loop runs,
  they are all events up to its position.
\<close>

definition socket_inv :: "'x http_lib_scheme \<Rightarrow> scoped_alert_event list \<Rightarrow> socket \<Rightarrow> bool" where
  "socket_inv lib events so \<longleftrightarrow>
     (case so_from so of
        None \<Rightarrow> so_inputs so = []
      | Some k \<Rightarrow> k \<le> so_next so \<and> so_next so \<le> length events
          \<and> prefix (received_events (so_inputs so)) (drop k events)
          \<and> (ws_running lib (so_actor so) (so_inputs so) \<longrightarrow>
               received_events (so_inputs so) = take (so_next so - k) (drop k events)))"

definition hub_inv :: "'x http_lib_scheme \<Rightarrow> hub \<Rightarrow> bool" where
  "hub_inv lib h \<longleftrightarrow> (\<forall>so \<in> set (hb_sockets h). socket_inv lib (hub_events h) so)"

lemma received_events_append [simp]:
  "received_events [] = []"
  "received_events (is @ [i]) = received_events is @ (case i of Event e _ \<Rightarrow> [e] | _ \<Rightarrow> [])"
  by (simp_all add: received_events_def)

lemma handle_request_events:
  "\<exists>new. app_events (snd (handle_request lib env app req)) = app_events app @ new"
proof -
  obtain resp app' where h: "handle_request lib env app req = (resp, app')" by fastforce
  then have "\<exists>new. app_events app' = app_events app @ new" by (cases rule: handle_request_state) auto
  with h show ?thesis by simp
qed

lemma socket_inv_grow:
  assumes "socket_inv lib events so"
  shows "socket_inv lib (events @ new) so"
  using assms by (auto simp: socket_inv_def intro: prefix_prefix split: option.splits)

lemma ws_running_append:
  "ws_running lib actor (is @ [i]) \<longleftrightarrow> ws_running lib actor is \<and> snd (ws_turn lib actor i)"
  by (simp add: ws_running_def)

lemma socket_inv_receive:
  assumes "socket_inv lib (hub_events h) so" "socket_open lib so" "so_next so < length (hub_events h)"
  shows "socket_inv lib (hub_events h) (receive_event h sent so)"
proof -
  obtain k where k: "so_from so = Some k" using assms(2) by (auto simp: socket_open_def)
  with assms(1,2) have le: "k \<le> so_next so"
    and got: "received_events (so_inputs so) = take (so_next so - k) (drop k (hub_events h))"
    by (simp_all add: socket_inv_def socket_open_def)
  have "take (so_next so - k) (drop k (hub_events h)) @ [hub_events h ! so_next so]
      = take (Suc (so_next so) - k) (drop k (hub_events h))"
    using assms(3) le by (simp add: Suc_diff_le take_Suc_conv_app_nth)
  with k le got assms(3) show ?thesis
    by (simp add: socket_inv_def receive_event_def select_input_def take_is_prefix)
qed

lemma socket_inv_select:
  assumes "socket_inv lib events so" "socket_open lib so" "\<forall>e s. c \<noteq> Event e s"
  shows "socket_inv lib events (select_input c so)"
  using assms by (auto simp: socket_inv_def socket_open_def select_input_def split: ws_input.splits)

lemma socket_inv_lag:
  assumes "socket_inv lib (hub_events h) so" "socket_open lib so" "EVENT_CAPACITY < length (hub_events h) - so_next so"
  shows "socket_inv lib (hub_events h) (lag_behind h so)"
  using assms
  by (auto simp: socket_inv_def socket_open_def lag_behind_def select_input_def ws_running_append)

lemma hub_inv_set:
  assumes "hub_inv lib h" "socket_inv lib (hub_events h) so"
  shows "hub_inv lib (set_socket i so h)"
  using assms set_update_subset_insert [of "hb_sockets h" i so] by (auto simp: hub_inv_def set_socket_def hub_events_def)

lemma hub_inv_nth: "hub_inv lib h \<Longrightarrow> i < length (hb_sockets h) \<Longrightarrow> socket_inv lib (hub_events h) (hb_sockets h ! i)"
  by (simp add: hub_inv_def)

interpretation sockets: invariant_system "hub_step lib" "hub_inv lib" for lib :: "'x http_lib_scheme"
proof
  fix h h' assume inv: "hub_inv lib h" and "hub_step lib h h'"
  from this(2) show "hub_inv lib h'"
  proof cases
    case (Handle env req)
    obtain new where "app_events (snd (handle_request lib env (hb_app h) req)) = app_events (hb_app h) @ new"
      using handle_request_events by blast
    with inv Handle show ?thesis by (auto simp: hub_inv_def hub_events_def intro: socket_inv_grow)
  next
    case (Upgrade req env actor)
    with inv show ?thesis by (auto simp: hub_inv_def hub_events_def socket_inv_def new_socket_def)
  next
    case (Subscribe i so)
    with hub_inv_nth [OF inv, of i] have "socket_inv lib (hub_events h) (subscribe h so)"
      by (simp add: socket_inv_def subscribe_def)
    with inv Subscribe show ?thesis by (simp add: hub_inv_set)
  next
    case (Client i so c)
    with inv hub_inv_nth [OF inv] show ?thesis by (auto intro!: hub_inv_set socket_inv_select)
  next
    case (Receive i so sent)
    with inv hub_inv_nth [OF inv] show ?thesis by (auto intro!: hub_inv_set socket_inv_receive)
  next
    case (Lag i so)
    with inv hub_inv_nth [OF inv] show ?thesis by (auto intro!: hub_inv_set socket_inv_lag)
  qed
qed

section \<open>What a socket has sent\<close>

text \<open>The text a socket sends for an event.\<close>

definition event_text :: "'x http_lib_scheme \<Rightarrow> scoped_alert_event \<Rightarrow> rstring" where
  "event_text lib e = the (event_json lib (sv_kind e) (sv_alert e))"

lemma websocket_sent:
  "prefix (websocket lib actor is) (map (event_text lib) (filter (event_for actor) (received_events is)))"
  "ws_running lib actor is \<Longrightarrow>
     websocket lib actor is = map (event_text lib) (filter (event_for actor) (received_events is))"
proof -
  have "prefix (websocket lib actor is) (map (event_text lib) (filter (event_for actor) (received_events is)))
    \<and> (ws_running lib actor is \<longrightarrow>
        websocket lib actor is = map (event_text lib) (filter (event_for actor) (received_events is)))"
  proof (induction "is")
    case (Cons i "is")
    have "received_events (Event e b # is) = e # received_events is" for e b by (simp add: received_events_def)
    moreover have "received_events (Client_Message # is) = received_events is" by (simp add: received_events_def)
    ultimately show ?case using Cons by (cases i) (auto simp: event_text_def Let_def split: option.splits)
  qed (simp add: received_events_def)
  then show "prefix (websocket lib actor is) (map (event_text lib) (filter (event_for actor) (received_events is)))"
    "ws_running lib actor is \<Longrightarrow>
       websocket lib actor is = map (event_text lib) (filter (event_for actor) (received_events is))" by blast+
qed

text \<open>The alerts of a socket's actor that were announced from its subscription on.\<close>

definition own_events :: "hub \<Rightarrow> socket \<Rightarrow> scoped_alert_event list" where
  "own_events h so =
     (case so_from so of None \<Rightarrow> [] | Some k \<Rightarrow> filter (event_for (so_actor so)) (drop k (hub_events h)))"

lemma socket_sent_inv:
  assumes "socket_inv lib (hub_events h) so"
  shows "prefix (socket_sent lib so) (map (event_text lib) (own_events h so))"
    and "socket_open lib so \<Longrightarrow> so_from so = Some k \<Longrightarrow> socket_sent lib so
      = map (event_text lib) (filter (event_for (so_actor so)) (take (so_next so - k) (drop k (hub_events h))))"
proof -
  show "prefix (socket_sent lib so) (map (event_text lib) (own_events h so))"
  proof (cases "so_from so")
    case None
    with assms show ?thesis by (simp add: socket_inv_def socket_sent_def)
  next
    case (Some k)
    with assms have "prefix (received_events (so_inputs so)) (drop k (hub_events h))"
      by (simp add: socket_inv_def)
    then have "prefix (filter (event_for (so_actor so)) (received_events (so_inputs so))) (own_events h so)"
      using Some by (simp add: own_events_def filter_mono_prefix)
    then show ?thesis using websocket_sent(1) map_mono_prefix prefix_order.trans unfolding socket_sent_def by metis
  qed
  assume "socket_open lib so" "so_from so = Some k"
  with assms websocket_sent(2) [of lib "so_actor so" "so_inputs so"]
  show "socket_sent lib so
      = map (event_text lib) (filter (event_for (so_actor so)) (take (so_next so - k) (drop k (hub_events h))))"
    by (simp add: socket_inv_def socket_sent_def socket_open_def)
qed

text \<open>One more event for an open socket.\<close>

lemma socket_open_receive:
  assumes "socket_open lib so" "so_next so < length (hub_events h)"
    and "event_json lib (sv_kind (hub_events h ! so_next so)) (sv_alert (hub_events h ! so_next so)) \<noteq> None"
  shows "socket_open lib (receive_event h True so)"
  using assms by (auto simp: socket_open_def receive_event_def select_input_def ws_running_append)

lemma set_socket_simps [simp]:
  "hub_events (set_socket i so h) = hub_events h" "hb_app (set_socket i so h) = hb_app h"
  "length (hb_sockets (set_socket i so h)) = length (hb_sockets h)"
  "i < length (hb_sockets h) \<Longrightarrow> hb_sockets (set_socket i so h) ! i = so"
  by (simp_all add: set_socket_def hub_events_def)

lemma socket_catches_up:
  assumes "i < length (hb_sockets h)" "socket_open lib (hb_sockets h ! i)"
    and "so_next (hb_sockets h ! i) \<le> length (hub_events h)"
    and "length (hub_events h) - so_next (hb_sockets h ! i) \<le> EVENT_CAPACITY"
    and "\<forall>e \<in> set (hub_events h). event_json lib (sv_kind e) (sv_alert e) \<noteq> None"
  shows "\<exists>h'. (hub_step lib)\<^sup>*\<^sup>* h h' \<and> hb_app h' = hb_app h \<and> length (hb_sockets h') = length (hb_sockets h)
    \<and> so_actor (hb_sockets h' ! i) = so_actor (hb_sockets h ! i) \<and> so_from (hb_sockets h' ! i) = so_from (hb_sockets h ! i)
    \<and> socket_open lib (hb_sockets h' ! i) \<and> so_next (hb_sockets h' ! i) = length (hub_events h)"
  using assms
proof (induction "length (hub_events h) - so_next (hb_sockets h ! i)" arbitrary: h)
  case 0
  then show ?case by (intro exI [of _ h]) simp
next
  case (Suc n)
  let ?so = "hb_sockets h ! i"
  let ?so' = "receive_event h True ?so"
  let ?h = "set_socket i ?so' h"
  have lt: "so_next ?so < length (hub_events h)" using Suc.hyps(2) by simp
  have step: "hub_step lib h ?h" using Suc.prems(1,2,4) lt by (intro hub_step.Receive) auto
  have "event_json lib (sv_kind (hub_events h ! so_next ?so)) (sv_alert (hub_events h ! so_next ?so)) \<noteq> None"
    using Suc.prems(5) lt by simp
  then have open': "socket_open lib ?so'" using Suc.prems(2) lt socket_open_receive by blast
  have "so_next ?so' = Suc (so_next ?so)" "so_actor ?so' = so_actor ?so" "so_from ?so' = so_from ?so"
    by (simp_all add: receive_event_def select_input_def)
  moreover have "n = length (hub_events h) - Suc (so_next ?so)" "length (hub_events h) - Suc (so_next ?so) \<le> EVENT_CAPACITY"
    using Suc.hyps(2) Suc.prems(4) by simp_all
  ultimately obtain h' where "(hub_step lib)\<^sup>*\<^sup>* ?h h'"
    "hb_app h' = hb_app h" "length (hb_sockets h') = length (hb_sockets h)"
    "so_actor (hb_sockets h' ! i) = so_actor ?so" "so_from (hb_sockets h' ! i) = so_from ?so"
    "socket_open lib (hb_sockets h' ! i)" "so_next (hb_sockets h' ! i) = length (hub_events h)"
    using Suc.hyps(1) [of ?h] Suc.prems open' lt by auto
  with step show ?case by (intro exI [of _ h']) (simp add: converse_rtranclp_into_rtranclp)
qed

text \<open>The first socket of a server, subscribed before a request creates an alert of its actor.\<close>

lemma first_socket_receives:
  assumes "rq_method (up :: request) = GET" and "match_route (rq_path up) = Some Route_Ws"
    and "ws_handshake lib (rq_method up) (rq_headers up) = Inr ()"
    and "verify_authorization lib (app_auth app) (ae_clock (env :: api_env)) (rq_headers up) READ_SCOPE = Inr actor"
    and "app_events (snd (handle_request lib env' app req)) = app_events app @ [e]"
    and "event_for actor e" and "event_json lib (sv_kind e) (sv_alert e) = Some m"
  shows "\<exists>h. (hub_step lib)\<^sup>*\<^sup>* (start_hub app) h \<and> hb_app h = snd (handle_request lib env' app req)
    \<and> length (hb_sockets h) = 1 \<and> socket_sent lib (hb_sockets h ! 0) = [m]"
proof -
  let ?h = "start_hub app"
  let ?n = "length (app_events app)"
  let ?so = "\<lparr>so_actor = actor, so_inputs = [], so_from = Some ?n, so_next = ?n\<rparr>"
  let ?app = "snd (handle_request lib env' app req)"
  let ?h1 = "\<lparr>hb_app = app, hb_sockets = [new_socket actor]\<rparr>"
  let ?h2 = "\<lparr>hb_app = app, hb_sockets = [?so]\<rparr>"
  let ?h3 = "\<lparr>hb_app = ?app, hb_sockets = [?so]\<rparr>"
  have "hub_step lib ?h ?h1"
    using hub_step.Upgrade [OF assms(1-3), where h = ?h and env = env and actor = actor] assms(4)
    by (simp add: start_hub_def ws_upgrade_def)
  moreover have "hub_step lib ?h1 ?h2"
    using hub_step.Subscribe [of 0 ?h1 "new_socket actor" lib]
    by (simp add: new_socket_def set_socket_def subscribe_def hub_events_def)
  moreover have "hub_step lib ?h2 ?h3" using hub_step.Handle [of lib ?h2 env' req] by simp
  moreover have "hub_step lib ?h3 (set_socket 0 (receive_event ?h3 True ?so) ?h3)"
    using assms(5) by (intro hub_step.Receive) (auto simp: socket_open_def hub_events_def EVENT_CAPACITY_def)
  ultimately have "(hub_step lib)\<^sup>*\<^sup>* ?h (set_socket 0 (receive_event ?h3 True ?so) ?h3)"
    by (meson converse_rtranclp_into_rtranclp r_into_rtranclp)
  moreover have "socket_sent lib (receive_event ?h3 True ?so) = [m]"
    using assms(5-7) by (simp add: socket_sent_def receive_event_def select_input_def hub_events_def)
  ultimately show ?thesis by (intro exI conjI) (assumption, simp_all)
qed

section \<open>Sample data\<close>

definition sample_ws :: request where
  "sample_ws = \<lparr>rq_method = GET, rq_path = rs ''/v1/ws'', rq_headers = sample_headers, rq_body = []\<rparr>"

lemma sample_ws_route: "rq_method sample_ws = GET" "match_route (rq_path sample_ws) = Some Route_Ws"
  "rq_headers sample_ws = sample_headers"
  by (simp_all add: sample_ws_def match_route_def)

definition sample_event :: scoped_alert_event where
  "sample_event = created_event sample_actor (into_rule sample_input 7 42000)"

lemma sample_socket:
  "\<exists>h. (hub_step sample_http_lib)\<^sup>*\<^sup>* (start_hub sample_app) h \<and> hub_events h = [sample_event]
    \<and> length (hb_sockets h) = 1 \<and> socket_sent sample_http_lib (hb_sockets h ! 0) = [event_text sample_http_lib sample_event]"
proof -
  have "event_json sample_http_lib (sv_kind sample_event) (sv_alert sample_event) = Some (event_text sample_http_lib sample_event)"
    by (simp add: event_text_def sample_http_lib_def)
  moreover have "app_events (snd (handle_request sample_http_lib sample_api_env sample_app sample_post))
      = app_events sample_app @ [sample_event]"
    unfolding sample_posted by (simp add: sample_event_def sample_app_def)
  moreover have "event_for sample_actor sample_event" by (simp add: sample_event_def event_for_created)
  moreover have "verify_authorization sample_http_lib (app_auth sample_app) (ae_clock sample_api_env) (rq_headers sample_ws)
      READ_SCOPE = Inr sample_actor"
    using sample_http_verified [OF bounded_identifier_scopes(1)]
    by (simp add: sample_app_def sample_api_env_def sample_ws_route)
  moreover have "ws_handshake sample_http_lib (rq_method sample_ws) (rq_headers sample_ws) = Inr ()"
    by (simp add: sample_http_lib_def sample_ws_route)
  ultimately show ?thesis
    using first_socket_receives [OF sample_ws_route(1,2), of sample_http_lib sample_app sample_api_env sample_actor]
    by (fastforce simp: hub_events_def sample_app_def)
qed

section \<open>Properties\<close>

text \<open>
  C23. Web sockets deliver in order and without gaps: however requests, upgrades, clients and sockets
  interleave, what a socket has sent are the first of its own actor's alerts announced from its
  subscription on, each once and in the order of their announcement; while it is open, it has sent
  every one of them up to its position. Although the channel drops the oldest events of a slow
  receiver and moves it past them, no socket sends anything after such a gap. Alerts created
  between the answer to the upgrade and the subscription are not among them.
\<close>

theorem sockets_deliver_in_order:
  assumes "(hub_step lib)\<^sup>*\<^sup>* (start_hub app) h" and "so \<in> set (hb_sockets h)" and "so_from so = Some k"
  shows "prefix (socket_sent lib so)
      (map (event_text lib) (filter (event_for (so_actor so)) (drop k (hub_events h))))
    \<and> (socket_open lib so \<longrightarrow> socket_sent lib so
        = map (event_text lib) (filter (event_for (so_actor so)) (take (so_next so - k) (drop k (hub_events h)))))
    \<and> broadcast_delivery (hub_events h) (so_inputs so)"
proof -
  have "hub_inv lib (start_hub app)" by (simp add: hub_inv_def start_hub_def)
  with assms(1) have "hub_inv lib h" by (rule sockets.run_inv)
  with assms(2) have inv: "socket_inv lib (hub_events h) so" by (simp add: hub_inv_def)
  have "broadcast_delivery (hub_events h) (so_inputs so)"
    unfolding broadcast_delivery_def
    by (rule exI [of _ k]) (use inv assms(3) in \<open>simp add: socket_inv_def take_is_prefix\<close>)
  with socket_sent_inv [OF inv] assms(3) show ?thesis by (simp add: own_events_def)
qed

theorem sockets_deliver_in_order_witness:
  "\<exists>h so. so \<in> set (hb_sockets h) \<and> socket_sent sample_http_lib so \<noteq> []
     \<and> (\<exists>k. prefix (socket_sent sample_http_lib so)
          (map (event_text sample_http_lib) (filter (event_for (so_actor so)) (drop k (hub_events h)))))"
proof -
  obtain h where h: "(hub_step sample_http_lib)\<^sup>*\<^sup>* (start_hub sample_app) h" "length (hb_sockets h) = 1"
    "socket_sent sample_http_lib (hb_sockets h ! 0) = [event_text sample_http_lib sample_event]"
    using sample_socket by blast
  have "hub_inv sample_http_lib h" using sockets.run_inv [OF h(1)] by (simp add: hub_inv_def start_hub_def)
  with h(2,3) hub_inv_nth [of sample_http_lib h 0] obtain k where "so_from (hb_sockets h ! 0) = Some k"
    by (cases "so_from (hb_sockets h ! 0)") (auto simp: socket_inv_def socket_sent_def)
  with sockets_deliver_in_order [OF h(1), of "hb_sockets h ! 0" k] h(2,3)
  have "hb_sockets h ! 0 \<in> set (hb_sockets h) \<and> socket_sent sample_http_lib (hb_sockets h ! 0) \<noteq> []
     \<and> (\<exists>k. prefix (socket_sent sample_http_lib (hb_sockets h ! 0))
          (map (event_text sample_http_lib) (filter (event_for (so_actor (hb_sockets h ! 0))) (drop k (hub_events h)))))"
    by auto
  then show ?thesis by blast
qed

text \<open>
  C24. A socket that keeps up sends everything: from every reachable state, an open socket that is at
  most 512 events behind can, without any further request, send all its actor's alerts announced
  since its subscription, and stays open; the server's state does not change by it. It relies on
  events having a JSON text.
\<close>

theorem open_socket_catches_up:
  assumes "(hub_step lib)\<^sup>*\<^sup>* (start_hub app) h" and "i < length (hb_sockets h)" and "socket_open lib (hb_sockets h ! i)"
    and "length (hub_events h) - so_next (hb_sockets h ! i) \<le> 512"
    and "\<forall>e \<in> set (hub_events h). event_json lib (sv_kind e) (sv_alert e) \<noteq> None"
  shows "\<exists>h'. (hub_step lib)\<^sup>*\<^sup>* h h' \<and> hb_app h' = hb_app h \<and> socket_open lib (hb_sockets h' ! i)
    \<and> socket_sent lib (hb_sockets h' ! i) = map (event_text lib) (own_events h (hb_sockets h ! i))"
proof -
  have inv: "hub_inv lib h" using sockets.run_inv [OF assms(1)] by (simp add: hub_inv_def start_hub_def)
  obtain k where k: "so_from (hb_sockets h ! i) = Some k" using assms(3) by (auto simp: socket_open_def)
  with hub_inv_nth [OF inv assms(2)] have "so_next (hb_sockets h ! i) \<le> length (hub_events h)" by (simp add: socket_inv_def)
  with socket_catches_up [OF assms(2,3) this _ assms(5)] assms(4) obtain h' where
    h': "(hub_step lib)\<^sup>*\<^sup>* h h'" "hb_app h' = hb_app h" "length (hb_sockets h') = length (hb_sockets h)"
      "so_actor (hb_sockets h' ! i) = so_actor (hb_sockets h ! i)" "so_from (hb_sockets h' ! i) = Some k"
      "socket_open lib (hb_sockets h' ! i)" "so_next (hb_sockets h' ! i) = length (hub_events h)"
    by (auto simp: EVENT_CAPACITY_def k)
  have "hub_inv lib h'" using h'(1) inv by (rule sockets.run_inv)
  from socket_sent_inv(2) [OF hub_inv_nth [OF this] h'(6,5)] h' assms(2) k
  have "socket_sent lib (hb_sockets h' ! i) = map (event_text lib) (own_events h (hb_sockets h ! i))"
    by (simp add: own_events_def hub_events_def)
  with h' show ?thesis by blast
qed

theorem open_socket_catches_up_witness:
  "\<exists>h'. hub_events h' = [sample_event]
     \<and> socket_sent sample_http_lib (hb_sockets h' ! 0) = [event_text sample_http_lib sample_event]"
proof -
  let ?so = "\<lparr>so_actor = sample_actor, so_inputs = [], so_from = Some 0, so_next = 0\<rparr>"
  let ?h1 = "\<lparr>hb_app = sample_app, hb_sockets = [new_socket sample_actor]\<rparr>"
  let ?h2 = "\<lparr>hb_app = sample_app, hb_sockets = [?so]\<rparr>"
  let ?h3 = "\<lparr>hb_app = snd (handle_request sample_http_lib sample_api_env sample_app sample_post), hb_sockets = [?so]\<rparr>"
  have no_events: "app_events sample_app = []" by (simp add: sample_app_def)
  have "ws_upgrade sample_http_lib sample_api_env sample_app sample_headers = Inr sample_actor"
    using sample_http_verified [OF bounded_identifier_scopes(1)]
    by (simp add: ws_upgrade_def sample_app_def sample_api_env_def)
  then have "hub_step sample_http_lib (start_hub sample_app) ?h1"
    using hub_step.Upgrade [OF sample_ws_route(1,2), of sample_http_lib sample_api_env "start_hub sample_app" sample_actor]
    by (simp add: start_hub_def sample_ws_route sample_http_lib_def)
  moreover have "hub_step sample_http_lib ?h1 ?h2"
    using hub_step.Subscribe [of 0 ?h1 "new_socket sample_actor" sample_http_lib]
    by (simp add: new_socket_def set_socket_def subscribe_def hub_events_def no_events)
  moreover have "hub_step sample_http_lib ?h2 ?h3"
    using hub_step.Handle [of sample_http_lib ?h2 sample_api_env sample_post] by simp
  ultimately have run: "(hub_step sample_http_lib)\<^sup>*\<^sup>* (start_hub sample_app) ?h3"
    by (meson converse_rtranclp_into_rtranclp r_into_rtranclp)
  have events: "hub_events ?h3 = [sample_event]"
    unfolding hub_events_def sample_posted by (simp add: sample_event_def)
  have json: "\<forall>e \<in> set (hub_events ?h3). event_json sample_http_lib (sv_kind e) (sv_alert e) \<noteq> None"
    by (simp add: sample_http_lib_def)
  have own: "own_events ?h3 ?so = [sample_event]"
    unfolding own_events_def events by (simp add: sample_event_def event_for_created)
  have "0 < length (hb_sockets ?h3)" "socket_open sample_http_lib (hb_sockets ?h3 ! 0)"
    "length (hub_events ?h3) - so_next (hb_sockets ?h3 ! 0) \<le> 512"
    unfolding events by (simp_all add: socket_open_def)
  from open_socket_catches_up [OF run this json] obtain h' :: hub where "hb_app h' = hb_app ?h3"
    "socket_sent sample_http_lib (hb_sockets h' ! 0) = map (event_text sample_http_lib) (own_events ?h3 (hb_sockets ?h3 ! 0))"
    by blast
  with own events show ?thesis by (intro exI [of _ h']) (simp add: hub_events_def)
qed

text \<open>
  C25. A socket outlives its credentials: they are checked at the upgrade only. When the token with
  which a socket was opened is refused later on, so that the same headers get an error from the
  listing, an alert that the owner creates then with a new token is still sent to the socket.
\<close>

theorem socket_outlives_its_credentials:
  assumes "rq_method (up :: request) = GET" and "match_route (rq_path up) = Some Route_Ws"
    and "ws_handshake lib (rq_method up) (rq_headers up) = Ok ()"
    and "verify_authorization lib (app_auth app) (ae_clock (env :: api_env)) (rq_headers up) READ_SCOPE = Ok actor"
    and "verify_authorization lib (app_auth app) (ae_clock later) (rq_headers up) READ_SCOPE = Err e"
    and "handle_request lib later app req = ((201, Body_Alert a), app')"
    and "verify_authorization lib (app_auth app) (ae_clock later) (rq_headers req) WRITE_SCOPE = Ok actor"
    and "event_json lib (rs ''created'') a = Some m"
  shows "list_alerts lib later app' (rq_headers up) = Err (api_of_auth_error e)
    \<and> (\<exists>h. (hub_step lib)\<^sup>*\<^sup>* (start_hub app) h \<and> hb_app h = app' \<and> socket_sent lib (hb_sockets h ! 0) = [m])"
proof -
  from assms(6) have app': "app_events app' = app_events app @ [created_event actor a]"
  proof (cases rule: handle_request_state)
    case (failed actor input e st)
    then show ?thesis by (simp add: into_response_def)
  next
    case (created actor input alert st)
    with assms(7) show ?thesis by simp
  qed simp
  have "app_auth app' = app_auth app" using handle_request_auth [of lib later app req] assms(6) by simp
  with assms(5) have "list_alerts lib later app' (rq_headers up) = Inl (api_of_auth_error e)" by (simp add: list_alerts_def)
  moreover have "event_json lib (sv_kind (created_event actor a)) (sv_alert (created_event actor a)) = Some m"
    using assms(8) by (simp add: created_event_def)
  ultimately show ?thesis
    using first_socket_receives [OF assms(1-4), of later req "created_event actor a" m] app' assms(6)
    by (auto simp: event_for_created)
qed

text \<open>A token that expires, and one that is valid longer.\<close>

definition renewing_lib :: http_lib where
  "renewing_lib = sample_http_lib\<lparr>introspect_with_requirements := (\<lambda>_ _ t _ _.
     Inr (if t = rs ''renewed-token-value'' then sample_claims\<lparr>in_exp := Some 5000000000\<rparr> else sample_claims))\<rparr>"

definition later_env :: api_env where
  "later_env = sample_api_env\<lparr>ae_clock := 4500000000000000000\<rparr>"

definition renewed_headers :: header_map where
  "renewed_headers = [(rs ''authorization'', rs ''Bearer renewed-token-value'')]"

lemma renewing_bearers:
  "bearer_from_headers renewing_lib sample_headers = Inr (rs ''valid-token-value'')"
  "bearer_from_headers renewing_lib renewed_headers = Inr (rs ''renewed-token-value'')"
  unfolding bearer_from_headers_Ok_iff strict_credential_iff
  by (simp_all add: renewing_lib_def sample_http_lib_def sample_headers_def renewed_headers_def is_whitespace_def is_control_def)

lemma renewing_verified:
  assumes "bounded_identifier scope" and "bearer_from_headers renewing_lib headers = Inr t"
    and "unix_seconds clock = Inr now" and "x = (if t = rs ''renewed-token-value'' then 5000000000 else 4000000000)"
  shows "verify_authorization renewing_lib sample_boundary clock headers scope = Inr a \<longleftrightarrow>
    1 \<le> now \<and> now < x \<and> a = sample_actor"
proof -
  have claims: "introspect_with_requirements renewing_lib m c t au sc = Inr (sample_claims\<lparr>in_exp := Some x\<rparr>)" for m c au sc
    using assms(4) by (simp add: renewing_lib_def sample_claims_def del: rs_simps)
  have "authorize_introspection renewing_lib (sample_claims\<lparr>in_exp := Some x\<rparr>) sample_policy scope now = Inr a \<longleftrightarrow>
      1 \<le> now \<and> now < x \<and> a = sample_actor"
    unfolding authorize_introspection_Ok_iff claim_string_eq_Some
    by (cases a) (auto simp: sample_claims_def sample_policy_def renewing_lib_def sample_http_lib_def sample_actor_def
        uuid_parse_str_ref_inverse bounded_identifier_def is_ascii_alphanumeric_def)
  moreover have "strict_credential t" using assms(2) bearer_from_headers_Ok_iff by blast
  ultimately show ?thesis
    using assms(1-3) claims sample_boundary_policy unfolding verify_authorization_Ok_iff verify_token_Ok_iff by auto
qed

lemma renewing_clocks: "unix_seconds sample_clock = Inr 2000000002" "unix_seconds (ae_clock later_env) = Inr 4500000000"
  by (simp_all add: unix_seconds_def duration_since_epoch_def sample_clock_def later_env_def nat_div_distrib)

lemma renewing_tokens:
  "verify_authorization renewing_lib sample_boundary sample_clock sample_headers READ_SCOPE = Inr sample_actor"
  "\<exists>e. verify_authorization renewing_lib sample_boundary (ae_clock later_env) sample_headers READ_SCOPE = Inl e"
  "verify_authorization renewing_lib sample_boundary (ae_clock later_env) renewed_headers WRITE_SCOPE = Inr sample_actor"
proof -
  show "verify_authorization renewing_lib sample_boundary sample_clock sample_headers READ_SCOPE = Inr sample_actor"
    by (subst renewing_verified [OF bounded_identifier_scopes(1) renewing_bearers(1) renewing_clocks(1) refl]) simp
  show "verify_authorization renewing_lib sample_boundary (ae_clock later_env) renewed_headers WRITE_SCOPE = Inr sample_actor"
    by (subst renewing_verified [OF bounded_identifier_scopes(2) renewing_bearers(2) renewing_clocks(2) refl]) simp
  have "verify_authorization renewing_lib sample_boundary (ae_clock later_env) sample_headers READ_SCOPE \<noteq> Inr a" for a
    by (subst renewing_verified [OF bounded_identifier_scopes(1) renewing_bearers(1) renewing_clocks(2) refl]) simp
  then show "\<exists>e. verify_authorization renewing_lib sample_boundary (ae_clock later_env) sample_headers READ_SCOPE = Inl e"
    by (cases "verify_authorization renewing_lib sample_boundary (ae_clock later_env) sample_headers READ_SCOPE") auto
qed

lemma renewed_post:
  "\<exists>a app'. handle_request renewing_lib later_env sample_app (sample_post\<lparr>rq_headers := renewed_headers\<rparr>)
    = ((201, Body_Alert a), app')"
proof -
  let ?req = "sample_post\<lparr>rq_headers := renewed_headers\<rparr>"
  have "verify_authorization renewing_lib (app_auth sample_app) (ae_clock later_env) (rq_headers ?req) WRITE_SCOPE = Inr sample_actor"
    using renewing_tokens(3) by (simp add: sample_app_def)
  moreover have "json_content_type renewing_lib (rq_headers ?req)" "json_body renewing_lib (rq_headers ?req) (rq_body ?req) = Inr sample_input"
    by (simp_all add: renewing_lib_def sample_http_lib_def sample_post_def)
  moreover have "rq_method ?req = POST" "match_route (rq_path ?req) = Some Route_Alerts"
    "length (rq_body ?req) \<le> MAX_JSON_BODY_BYTES"
    by (simp_all add: sample_post_def match_route_def MAX_JSON_BODY_BYTES_def)
  moreover have "\<exists>st. store_create renewing_lib (ae_store later_env) (app_store sample_app) sample_actor sample_input
      = (Inr (into_rule sample_input 7 42000), st)"
    by (simp add: store_create_def sample_input_valid new_store_def sample_app_def sample_api_env_def later_env_def
        sample_env_up_def Let_def)
  ultimately show ?thesis
    by (auto simp: handle_request_def post_alerts_def create_alert_def sample_input_valid respond_def)
qed

theorem socket_outlives_its_credentials_witness:
  "\<exists>h app' m e. (hub_step renewing_lib)\<^sup>*\<^sup>* (start_hub sample_app) h \<and> hb_app h = app'
     \<and> list_alerts renewing_lib later_env app' sample_headers = Err e \<and> socket_sent renewing_lib (hb_sockets h ! 0) = [m]"
proof -
  obtain a app' where post: "handle_request renewing_lib later_env sample_app (sample_post\<lparr>rq_headers := renewed_headers\<rparr>)
    = ((201, Body_Alert a), app')" using renewed_post by blast
  obtain e where refused: "verify_authorization renewing_lib (app_auth sample_app) (ae_clock later_env) (rq_headers sample_ws)
      READ_SCOPE = Inl e"
    using renewing_tokens(2) by (auto simp: sample_app_def sample_ws_route)
  have "verify_authorization renewing_lib (app_auth sample_app) (ae_clock sample_api_env) (rq_headers sample_ws) READ_SCOPE
      = Inr sample_actor"
    using renewing_tokens(1) by (simp add: sample_app_def sample_ws_route sample_api_env_def)
  moreover have "verify_authorization renewing_lib (app_auth sample_app) (ae_clock later_env)
      (rq_headers (sample_post\<lparr>rq_headers := renewed_headers\<rparr>)) WRITE_SCOPE = Inr sample_actor"
    using renewing_tokens(3) by (simp add: sample_app_def)
  moreover have "ws_handshake renewing_lib (rq_method sample_ws) (rq_headers sample_ws) = Inr ()"
    "event_json renewing_lib (rs ''created'') a = Some (rs ''created'' @ rs '':'' @ ar_name a)"
    by (simp_all add: renewing_lib_def sample_http_lib_def sample_ws_route)
  ultimately show ?thesis
    using socket_outlives_its_credentials [OF sample_ws_route(1,2) _ _ refused post] sample_ws_route(3) by metis
qed

end
