(* ===== verification/Row_Security.thy ===== *)
theory Row_Security
  imports Store
begin

text \<open>
  Direct reads of the web tier: the role \<open>__eal_web_ro\<close> of \<open>migrations/0001_four_mode_transport.sql\<close>,
  with its privileges and the row-level policy \<open>eal_web_owner_read\<close>, and the statement
  \<open>DIRECT_ALERTS_SQL\<close> run in a session of that role.
\<close>

section \<open>Definitions\<close>

datatype db_role = Table_Owner | Eal_Web_Ro

datatype db_table = Alert_Rules | Transport_Inbox | Transport_Outbox | Transport_Status

datatype privilege = Select_Priv | Insert_Priv | Update_Priv | Delete_Priv

text \<open>
  The owner of the tables has every privilege and is not subject to the policy. The role has what
  the last two statements leave it; on the other tables nothing is granted.
\<close>

definition role_privileges :: "db_role \<Rightarrow> db_table \<Rightarrow> privilege set" where
  "role_privileges role t =
     (case role of
        Table_Owner \<Rightarrow> {Select_Priv, Insert_Priv, Update_Priv, Delete_Priv}
      | Eal_Web_Ro \<Rightarrow> (if t = Alert_Rules then {Select_Priv} else {}))"

text \<open>
  A session: its role and its settings. \<open>current_setting(name, true)\<close> is null when the setting does
  not exist. The conversion of text to a UUID is a parameter; it fails on other text.
\<close>

record db_session =
  ss_role :: db_role
  ss_settings :: "string \<rightharpoonup> rstring"

text \<open>
  The policy on one row: a comparison with null is not true. The order in which a conjunction is
  evaluated is the planner's choice, so a failing conversion raises an error on a row of the
  session's tenant, and elsewhere only if the planner evaluates it first.
\<close>

definition owner_policy :: "(rstring \<rightharpoonup> uuid) \<Rightarrow> db_session \<Rightarrow> alert_row \<Rightarrow> bool" where
  "owner_policy uuid_in s r \<longleftrightarrow>
     ss_settings s ''eal.product_tenant'' = Some (al_product_tenant r) \<and>
     Option.bind (ss_settings s ''eal.owner_subject'') uuid_in = Some (al_owner_subject r)"

definition policy_error :: "(rstring \<rightharpoonup> uuid) \<Rightarrow> bool \<Rightarrow> db_session \<Rightarrow> database \<Rightarrow> bool" where
  "policy_error uuid_in eager s db \<longleftrightarrow>
     (\<exists>t. ss_settings s ''eal.owner_subject'' = Some t \<and> uuid_in t = None) \<and>
     (eager \<or> (\<exists>r \<in> set (db_alert_rules db). ss_settings s ''eal.product_tenant'' = Some (al_product_tenant r)))"

definition visible_alerts :: "(rstring \<rightharpoonup> uuid) \<Rightarrow> bool \<Rightarrow> db_session \<Rightarrow> database \<Rightarrow> database option" where
  "visible_alerts uuid_in eager s db =
     (case ss_role s of
        Table_Owner \<Rightarrow> Some db
      | Eal_Web_Ro \<Rightarrow>
          if policy_error uuid_in eager s db then None
          else Some (db\<lparr>db_alert_rules := filter (owner_policy uuid_in s) (db_alert_rules db)\<rparr>))"

datatype sql_outcome = Permission_Denied | Query_Error | Sql_Rows "alert_row list"

definition session_direct_alerts ::
  "(rstring \<rightharpoonup> uuid) \<Rightarrow> bool \<Rightarrow> db_session \<Rightarrow> rstring \<Rightarrow> uuid \<Rightarrow> database \<Rightarrow> sql_outcome" where
  "session_direct_alerts uuid_in eager s tenant owner db =
     (if Select_Priv \<notin> role_privileges (ss_role s) Alert_Rules then Permission_Denied
      else case visible_alerts uuid_in eager s db of
             None \<Rightarrow> Query_Error
           | Some db' \<Rightarrow> Sql_Rows (direct_alerts tenant owner db'))"

definition session_insert_alert :: "db_session \<Rightarrow> alert_row \<Rightarrow> database \<Rightarrow> (nat \<times> database) option" where
  "session_insert_alert s r db =
     (if Insert_Priv \<in> role_privileges (ss_role s) Alert_Rules then insert_alert r db else None)"

section \<open>Facts\<close>

text \<open>The policy removes nothing that the statement asks for, or all of it.\<close>

lemma direct_alerts_filter:
  "direct_alerts tenant owner (db\<lparr>db_alert_rules := filter P (db_alert_rules db)\<rparr>) =
     take 100 (sort_key (\<lambda>r. (- al_updated_at r, al_id r))
       (filter (\<lambda>r. P r \<and> al_product_tenant r = tenant \<and> al_owner_subject r = owner) (db_alert_rules db)))"
  by (simp add: direct_alerts_def conj_commute conj_left_commute)

lemma direct_alerts_policy:
  "direct_alerts tenant owner (db\<lparr>db_alert_rules := filter (owner_policy uuid_in s) (db_alert_rules db)\<rparr>) =
     (if ss_settings s ''eal.product_tenant'' = Some tenant
        \<and> Option.bind (ss_settings s ''eal.owner_subject'') uuid_in = Some owner
      then direct_alerts tenant owner db else [])"
proof -
  have "owner_policy uuid_in s r \<and> al_product_tenant r = tenant \<and> al_owner_subject r = owner \<longleftrightarrow>
      (ss_settings s ''eal.product_tenant'' = Some tenant
        \<and> Option.bind (ss_settings s ''eal.owner_subject'') uuid_in = Some owner)
      \<and> al_product_tenant r = tenant \<and> al_owner_subject r = owner" for r
    by (auto simp: owner_policy_def)
  then show ?thesis unfolding direct_alerts_filter
    by (cases "ss_settings s ''eal.product_tenant'' = Some tenant
        \<and> Option.bind (ss_settings s ''eal.owner_subject'') uuid_in = Some owner")
      (simp_all add: direct_alerts_def del: de_Morgan_conj)
qed

text \<open>The session that the web tier opens for an actor.\<close>

definition actor_session :: "'x uuid_lib_scheme \<Rightarrow> verified_actor \<Rightarrow> db_session" where
  "actor_session lib actor =
     \<lparr>ss_role = Eal_Web_Ro, ss_settings = [''eal.product_tenant'' \<mapsto> va_product_tenant actor,
        ''eal.owner_subject'' \<mapsto> uuid_to_string lib (va_subject actor)]\<rparr>"

lemma direct_read_rows:
  assumes "uuid_in (uuid_to_string lib (va_subject actor)) = Some (va_subject actor)"
    and "read_alerts lib True db actor = Inr alerts"
  shows "\<exists>rows. session_direct_alerts uuid_in eager (actor_session lib actor) (va_product_tenant actor) (va_subject actor) db
      = Sql_Rows rows \<and> map (\<lambda>r. decode_alert lib (alert_columns r)) rows = map Inr alerts"
proof -
  let ?rows = "direct_alerts (va_product_tenant actor) (va_subject actor) db"
  have "session_direct_alerts uuid_in eager (actor_session lib actor) (va_product_tenant actor) (va_subject actor) db
      = Sql_Rows ?rows"
    using assms(1)
    by (simp add: session_direct_alerts_def role_privileges_def visible_alerts_def actor_session_def direct_alerts_policy
        policy_error_def)
  moreover have "map (\<lambda>r. decode_alert lib (alert_columns r)) ?rows = map Inr alerts"
    using assms(2) by (simp add: read_alerts_def collect_results_Inr_iff)
  ultimately show ?thesis by blast
qed

section \<open>Properties\<close>

text \<open>
  C19. The read-only role is confined to one owner: whatever tenant and owner a session of the role
  asks for, and whatever the planner does, it gets an error, nothing, or exactly the alerts of the
  tenant and owner of its own settings; without settings it gets nothing; and it cannot insert.
\<close>

theorem web_role_is_confined:
  assumes "ss_role s = Eal_Web_Ro"
  shows "session_direct_alerts uuid_in eager s tenant owner db \<in>
      {Query_Error, Sql_Rows [], Sql_Rows (direct_alerts tenant owner db)}
    \<and> (\<forall>rows r. session_direct_alerts uuid_in eager s tenant owner db = Sql_Rows rows \<and> r \<in> set rows \<longrightarrow>
         ss_settings s ''eal.product_tenant'' = Some (al_product_tenant r)
         \<and> Option.bind (ss_settings s ''eal.owner_subject'') uuid_in = Some (al_owner_subject r))
    \<and> (ss_settings s ''eal.owner_subject'' = None \<longrightarrow>
         session_direct_alerts uuid_in eager s tenant owner db = Sql_Rows [])
    \<and> session_insert_alert s row db = None"
proof -
  have "r \<in> set (direct_alerts tenant owner db) \<Longrightarrow> al_product_tenant r = tenant \<and> al_owner_subject r = owner" for r
    using direct_alerts_subset by blast
  then show ?thesis
    using assms
    by (auto simp: session_direct_alerts_def session_insert_alert_def role_privileges_def visible_alerts_def
        direct_alerts_policy policy_error_def)
qed

theorem web_role_is_confined_witness:
  "session_direct_alerts uuid_parse_str_ref True \<lparr>ss_role = Eal_Web_Ro, ss_settings = Map.empty\<rparr>
     (rs ''embedded-alerts'') 1 (sample_db sample_store_lib 2) = Sql_Rows []"
  using web_role_is_confined [of "\<lparr>ss_role = Eal_Web_Ro, ss_settings = Map.empty\<rparr>"] by simp

text \<open>
  C20. A direct read agrees with the server: in a session of the read-only role with an actor's own
  settings the statement returns exactly the rows behind the listing that the server gives the same
  actor, in the same order. The database is assumed to read the text of a UUID back.
\<close>

theorem direct_read_agrees_with_the_server:
  assumes "uuid_in (uuid_to_string lib (va_subject actor)) = Some (va_subject actor)"
    and "as_database st = Some db" and "db_invar lib db" and "se_db_up env"
  shows "\<exists>rows alerts.
    session_direct_alerts uuid_in eager (actor_session lib actor) (va_product_tenant actor) (va_subject actor) db = Sql_Rows rows
    \<and> store_list lib env st actor = Ok alerts
    \<and> map (\<lambda>r. decode_alert lib (alert_columns r)) rows = map Ok alerts"
proof -
  from read_alerts_succeeds [OF assms(3)] obtain alerts where alerts: "read_alerts lib True db actor = Inr alerts" by blast
  moreover from this have "store_list lib env st actor = Inr alerts" using assms(2,4) by (simp add: store_list_def)
  ultimately show ?thesis using direct_read_rows [of uuid_in lib actor db alerts eager, OF assms(1) alerts] by blast
qed

theorem direct_read_agrees_with_the_server_witness:
  "\<exists>rows alerts. session_direct_alerts uuid_parse_str_ref False (actor_session sample_store_lib sample_actor)
        (rs ''embedded-alerts'') 1 (sample_db sample_store_lib 2) = Sql_Rows rows
     \<and> store_list sample_store_lib sample_env_up (new_store (Some (sample_db sample_store_lib 2))) sample_actor = Ok alerts
     \<and> length alerts = length rows"
proof -
  have "uuid_parse_str_ref (uuid_to_string sample_store_lib (va_subject sample_actor)) = Some (va_subject sample_actor)"
    using store_sample_lib by (simp add: store_sample_def auth_sample_def uuid_parse_str_ref_inverse)
  moreover have "as_database (new_store (Some (sample_db sample_store_lib 2))) = Some (sample_db sample_store_lib 2)"
    by (simp add: new_store_def)
  moreover have "db_invar sample_store_lib (sample_db sample_store_lib 2)"
    using sample_db_invar(1) [OF store_sample_lib] by simp
  ultimately obtain rows alerts where
    "session_direct_alerts uuid_parse_str_ref False (actor_session sample_store_lib sample_actor)
        (va_product_tenant sample_actor) (va_subject sample_actor) (sample_db sample_store_lib 2) = Sql_Rows rows"
    "store_list sample_store_lib sample_env_up (new_store (Some (sample_db sample_store_lib 2))) sample_actor = Ok alerts"
    "map (\<lambda>r. decode_alert sample_store_lib (alert_columns r)) rows = map Ok alerts"
    using direct_read_agrees_with_the_server [OF _ _ _ sample_env_up_ok(2)] by blast
  then show ?thesis using map_eq_imp_length_eq by (fastforce simp: sample_actor_def)
qed

end
