(* ===== verification/Transaction.thy ===== *)
theory Transaction
  imports Ledger
begin

text \<open>
  The handling of a delivered command one statement at a time: the transaction of
  \<open>process_command\<close> in \<open>src/src/transport.rs\<close> as a small state machine that can be interleaved with
  other work on the database. Each statement sees the tables as they are when it runs, with the
  transaction's own rows added; the rows become visible to others at the commit. The theorem at the
  end says that without interleaving this is exactly \<open>handle_message\<close>.
\<close>

section \<open>An open transaction\<close>

text \<open>
  What the transaction has done so far: nothing, recorded the command, made the reply, stored the
  reply, or come to its commit. A command that was recorded before goes straight to the commit.
\<close>

datatype txn_phase = Opened | Recorded | Answered operation_reply | Enqueued operation_reply | Finished

text \<open>The rows it has written; \<open>now()\<close> is the time at which the transaction began.\<close>

record open_txn =
  ot_payload :: "u8 list"
  ot_command :: async_command
  ot_now :: datetime
  ot_inbox :: "inbox_row option"
  ot_outbox :: "outbox_row option"
  ot_status :: "status_row option"
  ot_phase :: txn_phase

definition open_transaction :: "u8 list \<Rightarrow> async_command \<Rightarrow> datetime \<Rightarrow> open_txn" where
  "open_transaction payload command now =
     \<lparr>ot_payload = payload, ot_command = command, ot_now = now, ot_inbox = None, ot_outbox = None,
      ot_status = None, ot_phase = Opened\<rparr>"

definition opt_list :: "'a option \<Rightarrow> 'a list" where
  "opt_list x = (case x of None \<Rightarrow> [] | Some a \<Rightarrow> [a])"

lemma opt_list_simps [simp]: "opt_list None = []" "opt_list (Some a) = [a]"
  by (simp_all add: opt_list_def)

definition apply_status :: "status_row \<Rightarrow> database \<Rightarrow> database" where
  "apply_status q db = (case upsert_status q db of None \<Rightarrow> db | Some (_, db') \<Rightarrow> db')"

text \<open>The tables as the transaction sees them, which are also the tables after its commit.\<close>

definition txn_view :: "open_txn \<Rightarrow> database \<Rightarrow> database" where
  "txn_view tx db =
     (let db2 = db\<lparr>db_inbox := db_inbox db @ opt_list (ot_inbox tx),
                   db_outbox := db_outbox db @ opt_list (ot_outbox tx)\<rparr>
      in case ot_status tx of None \<Rightarrow> db2 | Some q \<Rightarrow> apply_status q db2)"

section \<open>Statements\<close>

definition txn_statement ::
  "'x wire_lib_scheme \<Rightarrow> txn_env \<Rightarrow> database \<Rightarrow> open_txn \<Rightarrow> (open_txn, string) result" where
  "txn_statement lib stmt_env db tx =
     (let command = ot_command tx;
          subject_text = oe_actor_subject (ac_operation command);
          env = stmt_env\<lparr>te_now := ot_now tx\<rparr>;
          view = txn_view tx db
      in case ot_phase tx of
           Opened \<Rightarrow>
             and_then
               (ok_or ''persist JetStream inbox failed''
                  (if te_inbox env
                   then Option.bind (text_as_uuid lib subject_text) (\<lambda>subject.
                          let row = inbox_values env command subject
                          in map_option (\<lambda>(rows_affected, _). (rows_affected, row)) (insert_inbox row view))
                   else None))
               (\<lambda>(rows_affected, row).
                  Ok (if rows_affected = 1 then tx\<lparr>ot_inbox := Some row, ot_phase := Recorded\<rparr>
                      else tx\<lparr>ot_phase := Finished\<rparr>))
         | Recorded \<Rightarrow>
             and_then (ok_or ''JetStream actor subject is invalid'' (uuid_parse_str lib subject_text)) (\<lambda>subject.
             let actor = \<lparr>va_subject = subject, va_product_tenant = ac_product_tenant command\<rparr>
             in Ok (tx\<lparr>ot_phase := Answered (query_reply lib env view actor (ac_correlation_id command))\<rparr>))
         | Answered reply \<Rightarrow>
             let envelope = reply_envelope (te_new_id env) command reply in
             and_then (ok_or ''serialize JetStream reply failed'' (event_to_value lib envelope)) (\<lambda>payload.
             and_then
               (ok_or ''persist JetStream outbox failed''
                  (if te_outbox env
                   then Option.bind (jsonb_value lib payload) (\<lambda>stored.
                          let row = outbox_values env command envelope stored
                          in map_option (\<lambda>(rows_affected, _). (rows_affected, row)) (insert_outbox row view))
                   else None))
               (\<lambda>(rows_affected, row).
                  Ok (tx\<lparr>ot_outbox := if rows_affected = 1 then Some row else None, ot_phase := Enqueued reply\<rparr>)))
         | Enqueued reply \<Rightarrow>
             and_then
               (ok_or ''persist JetStream status failed''
                  (if te_status env
                   then Option.bind (text_as_uuid lib subject_text) (\<lambda>subject.
                          let row = status_values env command subject reply
                          in map_option (\<lambda>_. row) (upsert_status row view))
                   else None))
               (\<lambda>row. Ok (tx\<lparr>ot_status := Some row, ot_phase := Finished\<rparr>))
         | Finished \<Rightarrow> Ok tx)"

text \<open>Up to a number of statements in a row, on tables that nothing else changes.\<close>

fun run_statements ::
  "'x wire_lib_scheme \<Rightarrow> txn_env \<Rightarrow> database \<Rightarrow> nat \<Rightarrow> open_txn \<Rightarrow> (open_txn, string) result" where
  "run_statements lib env db 0 tx = Ok tx"
| "run_statements lib env db (Suc n) tx = and_then (txn_statement lib env db tx) (run_statements lib env db n)"

section \<open>The consumer between its statements\<close>

text \<open>
  The consumer waits for a message, is in the transaction of a command, has committed and is about
  to acknowledge, or was halted by an error.
\<close>

datatype consumer = Idle | In_Transaction open_txn | Committed "u8 list" | Halted string

definition after_disposition :: "disposition \<Rightarrow> consumer" where
  "after_disposition d = (case d of Stopped e \<Rightarrow> Halted e | _ \<Rightarrow> Idle)"

definition receive_message ::
  "'x wire_lib_scheme \<Rightarrow> rstring \<Rightarrow> u8 list \<Rightarrow> message_env \<Rightarrow> u8 list \<Rightarrow> consumer" where
  "receive_message lib product_tenant key env payload =
     (if MAX_NATS_PAYLOAD_BYTES < length payload then after_disposition (terminate_message env)
      else case command_from_slice lib payload of
        None \<Rightarrow> after_disposition (terminate_message env)
      | Some command \<Rightarrow>
          (case unix_ms (me_clock env) of
             None \<Rightarrow> Halted ''system clock is unavailable''
           | Some now \<Rightarrow>
               if command_refused lib product_tenant key now command
               then after_disposition (terminate_message env)
               else if te_begin (me_txn env)
               then In_Transaction (open_transaction payload command (te_now (me_txn env)))
               else Halted ''begin JetStream inbox transaction failed''))"

definition commit_txn :: "commit_outcome \<Rightarrow> open_txn \<Rightarrow> database \<Rightarrow> consumer \<times> database" where
  "commit_txn outcome tx db =
     (case outcome of
        Commit_Done \<Rightarrow> (Committed (ot_payload tx), txn_view tx db)
      | Commit_Lost \<Rightarrow> (Halted ''commit JetStream inbox transaction failed'', txn_view tx db)
      | Commit_Fails \<Rightarrow> (Halted ''commit JetStream inbox transaction failed'', db))"

definition acknowledge :: "bool \<Rightarrow> consumer" where
  "acknowledge acked = (if acked then Idle else Halted ''JetStream explicit acknowledgement failed'')"

text \<open>
  One message from its delivery to its acknowledgement, with nothing in between: the composition
  that ties the steps of this theory to \<open>handle_message\<close>.
\<close>

definition deliver_alone ::
  "'x wire_lib_scheme \<Rightarrow> rstring \<Rightarrow> u8 list \<Rightarrow> message_env \<Rightarrow> database \<Rightarrow> u8 list \<Rightarrow> consumer \<times> database" where
  "deliver_alone lib product_tenant key env db payload =
     (case receive_message lib product_tenant key env payload of
        In_Transaction tx \<Rightarrow>
          (case run_statements lib (me_txn env) db 4 tx of
             Inl e \<Rightarrow> (Halted e, db)
           | Inr tx' \<Rightarrow>
               (case commit_txn (te_commit (me_txn env)) tx' db of
                  (Committed _, db') \<Rightarrow> (acknowledge (me_ack env), db')
                | halted \<Rightarrow> halted))
      | c \<Rightarrow> (c, db))"

section \<open>Without interleaving the statements are the transaction\<close>

lemma txn_env_clock [simp]: "env\<lparr>te_now := te_now env\<rparr> = (env :: txn_env)"
  by simp

lemma txn_statement_finished [simp]: "ot_phase tx = Finished \<Longrightarrow> txn_statement lib env db tx = Inr tx"
  by (simp add: txn_statement_def Let_def)

lemma run_statements_4:
  "run_statements lib env db 4 tx =
     and_then (txn_statement lib env db tx) (\<lambda>tx. and_then (txn_statement lib env db tx) (\<lambda>tx.
     and_then (txn_statement lib env db tx) (txn_statement lib env db)))"
proof -
  have "and_then r Inr = r" for r :: "(open_txn, string) result" by (cases r) simp_all
  moreover have "run_statements lib env db 0 = Inr" by auto
  ultimately have "run_statements lib env db (Suc 0) = txn_statement lib env db" by auto
  moreover have "run_statements lib env db (Suc n) = (\<lambda>tx. and_then (txn_statement lib env db tx) (run_statements lib env db n))" for n
    by auto
  ultimately show ?thesis by (simp add: numeral_eq_Suc)
qed

text \<open>Each statement does to the view of the transaction what it does to the tables when they are threaded through.\<close>

lemma insert_inbox_view:
  "insert_inbox r db = Some (n, db') \<Longrightarrow> db' = (if n = 1 then db\<lparr>db_inbox := db_inbox db @ [r]\<rparr> else db)"
  by (auto simp: insert_inbox_def split: if_splits)

lemma insert_outbox_view:
  "insert_outbox r db = Some (n, db') \<Longrightarrow>
     db' = db\<lparr>db_outbox := db_outbox db @ opt_list (if n = 1 then Some r else None)\<rparr>"
  by (auto simp: insert_outbox_def split: if_splits)

lemma upsert_status_view: "upsert_status q db = Some (n, db') \<Longrightarrow> apply_status q db = db'"
  by (simp add: apply_status_def)

lemma status_statement_alone:
  assumes "ot_phase tx = Enqueued reply" and "ot_command tx = c" and "ot_now tx = te_now env" and "ot_status tx = None"
  shows "and_then (txn_statement lib env db tx) (\<lambda>tx. Ok (txn_view tx db)) =
    and_then
      (ok_or ''persist JetStream status failed''
         (if te_status env
          then Option.bind (text_as_uuid lib (oe_actor_subject (ac_operation c))) (\<lambda>subject.
                 upsert_status (status_values env c subject reply) (txn_view tx db))
          else None))
      (\<lambda>(_, db3). Ok db3)"
  using assms
  by (cases "text_as_uuid lib (oe_actor_subject (ac_operation c))")
     (auto simp: txn_statement_def txn_view_def Let_def apply_status_def ok_or_def split: option.splits)

lemma enqueue_statement_alone:
  assumes "ot_phase tx = Answered reply" and "ot_command tx = c" and "ot_now tx = te_now env"
    and "ot_status tx = None" and "ot_outbox tx = None"
  shows "and_then (txn_statement lib env db tx) (\<lambda>tx. and_then (txn_statement lib env db tx) (\<lambda>tx. Ok (txn_view tx db))) =
    and_then (enqueue_reply lib env (txn_view tx db) c reply) (\<lambda>db2.
    and_then
      (ok_or ''persist JetStream status failed''
         (if te_status env
          then Option.bind (text_as_uuid lib (oe_actor_subject (ac_operation c))) (\<lambda>subject.
                 upsert_status (status_values env c subject reply) db2)
          else None))
      (\<lambda>(_, db3). Ok db3))"
proof -
  let ?envelope = "reply_envelope (te_new_id env) c reply"
  show ?thesis
  proof (cases "event_to_value lib ?envelope")
    case None
    with assms show ?thesis by (simp add: txn_statement_def enqueue_reply_def Let_def)
  next
    case (Some payload)
    show ?thesis
    proof (cases "if te_outbox env then Option.bind (jsonb_value lib payload)
        (\<lambda>stored. insert_outbox (outbox_values env c ?envelope stored) (txn_view tx db)) else None")
      case None
      with assms Some show ?thesis
        by (cases "jsonb_value lib payload") (auto simp: txn_statement_def enqueue_reply_def Let_def split: if_splits)
    next
      case ins: (Some p)
      then obtain stored n db2 where p: "te_outbox env" "jsonb_value lib payload = Some stored"
        "insert_outbox (outbox_values env c ?envelope stored) (txn_view tx db) = Some (n, db2)"
        by (cases p) (auto simp: Option.bind_eq_Some_conv split: if_splits)
      let ?row = "outbox_values env c ?envelope stored"
      let ?tx = "tx\<lparr>ot_outbox := if n = 1 then Some ?row else None, ot_phase := Enqueued reply\<rparr>"
      from p have "txn_statement lib env db tx = Inr ?tx" "enqueue_reply lib env (txn_view tx db) c reply = Inr db2"
        "txn_view ?tx db = db2"
        using assms Some insert_outbox_view [of ?row "txn_view tx db" n db2]
        by (simp_all add: txn_statement_def enqueue_reply_def Let_def txn_view_def)
      then show ?thesis using status_statement_alone [of ?tx reply c env lib db] assms by simp
    qed
  qed
qed

lemma open_transaction_alone:
  "txn_view (open_transaction payload c t) db = db" "ot_phase (open_transaction payload c t) = Opened"
  "ot_command (open_transaction payload c t) = c" "ot_now (open_transaction payload c t) = t"
  by (simp_all add: txn_view_def open_transaction_def)

lemma recorded_statements_alone:
  fixes payload :: "u8 list"
  assumes "te_inbox env" and "text_as_uuid lib (oe_actor_subject (ac_operation c)) = Some s"
    and ins: "insert_inbox (inbox_values env c s) db = Some (1, db1)"
  shows "and_then (run_statements lib env db 4 (open_transaction payload c (te_now env))) (\<lambda>tx. Ok (txn_view tx db))
     = command_statements lib env db c"
proof -
  let ?tx = "open_transaction payload c (te_now env)"
  note tx = open_transaction_alone [of payload c "te_now env"]
  have assoc: "and_then (and_then r f) g = and_then r (\<lambda>a. and_then (f a) g)" for r :: "(open_txn, string) result" and f g
    by (cases r) simp_all
  let ?tx1 = "?tx\<lparr>ot_inbox := Some (inbox_values env c s), ot_phase := Recorded\<rparr>"
  have stmt1: "txn_statement lib env db ?tx = Inr ?tx1" and view1: "txn_view ?tx1 db = db1"
    using tx assms insert_inbox_view [OF ins]
    by (simp_all add: txn_statement_def Let_def txn_view_def open_transaction_def)
  show ?thesis
  proof (cases "uuid_parse_str lib (oe_actor_subject (ac_operation c))")
    case None
    with stmt1 tx assms show ?thesis
      by (simp add: run_statements_4 command_statements_def Let_def) (simp add: txn_statement_def Let_def)
  next
    case (Some u)
    let ?reply = "query_reply lib env db1 \<lparr>va_subject = u, va_product_tenant = ac_product_tenant c\<rparr> (ac_correlation_id c)"
    let ?tx2 = "?tx1\<lparr>ot_phase := Answered ?reply\<rparr>"
    have "txn_statement lib env db ?tx1 = Inr ?tx2"
      using Some tx view1 by (simp add: txn_statement_def Let_def)
    moreover have "txn_view ?tx2 db = db1" using view1 by (simp add: txn_view_def)
    ultimately show ?thesis
      using stmt1 assms Some tx(3,4) enqueue_statement_alone [of ?tx2 ?reply c env lib db]
      by (simp add: run_statements_4 assoc command_statements_def Let_def open_transaction_def)
  qed
qed

lemma run_statements_alone:
  "and_then (run_statements lib env db 4 (open_transaction payload c (te_now env))) (\<lambda>tx. Ok (txn_view tx db))
     = command_statements lib env db c"
proof -
  let ?tx = "open_transaction payload c (te_now env)" and ?s = "oe_actor_subject (ac_operation c)"
  note tx = open_transaction_alone [of payload c "te_now env"]
  show ?thesis
  proof (cases "if te_inbox env then Option.bind (text_as_uuid lib ?s) (\<lambda>s. insert_inbox (inbox_values env c s) db) else None")
    case None
    then have "txn_statement lib env db ?tx = Inl ''persist JetStream inbox failed''"
      using tx by (auto simp: txn_statement_def Let_def split: if_splits) (cases "text_as_uuid lib ?s"; simp)
    with None show ?thesis by (simp add: run_statements_4 command_statements_def Let_def)
  next
    case (Some p)
    then obtain s n db1 where s: "te_inbox env" "text_as_uuid lib ?s = Some s"
      and ins: "insert_inbox (inbox_values env c s) db = Some (n, db1)"
      by (cases p) (auto simp: Option.bind_eq_Some_conv split: if_splits)
    show ?thesis
    proof (cases "n = 1")
      case False
      then have "txn_statement lib env db ?tx = Inr (?tx\<lparr>ot_phase := Finished\<rparr>)" "db1 = db"
        using tx s ins insert_inbox_view [OF ins] by (simp_all add: txn_statement_def Let_def)
      with False s ins tx(1) show ?thesis
        by (simp add: run_statements_4 command_statements_def Let_def) (simp add: txn_view_def open_transaction_def)
    next
      case True
      with recorded_statements_alone [OF s] ins show ?thesis by simp
    qed
  qed
qed

section \<open>Transactions end\<close>

definition phase_number :: "txn_phase \<Rightarrow> nat" where
  "phase_number p = (case p of Opened \<Rightarrow> 0 | Recorded \<Rightarrow> 1 | Answered _ \<Rightarrow> 2 | Enqueued _ \<Rightarrow> 3 | Finished \<Rightarrow> 4)"

lemma phase_number_4: "4 \<le> phase_number p \<longleftrightarrow> p = Finished"
  by (cases p) (simp_all add: phase_number_def)

text \<open>Every statement brings the transaction closer to its commit, so there are at most four.\<close>

lemma txn_statement_advances:
  assumes "txn_statement lib env db tx = Inr tx'"
  shows "min 4 (Suc (phase_number (ot_phase tx))) \<le> phase_number (ot_phase tx')" and "ot_payload tx' = ot_payload tx"
  using assms by (auto simp: txn_statement_def Let_def phase_number_def split: txn_phase.splits if_splits)

lemma run_statements_phase:
  assumes "run_statements lib env db n tx = Inr tx'"
  shows "min 4 (n + phase_number (ot_phase tx)) \<le> phase_number (ot_phase tx') \<and> ot_payload tx' = ot_payload tx"
  using assms
proof (induction n arbitrary: tx)
  case (Suc n)
  then obtain tx1 where t: "txn_statement lib env db tx = Inr tx1" "run_statements lib env db n tx1 = Inr tx'" by auto
  from Suc.IH [OF t(2)] txn_statement_advances [OF t(1)] show ?case by auto
qed auto

lemma run_statements_finished:
  assumes "run_statements lib env db 4 tx = Inr tx'"
  shows "ot_phase tx' = Finished" and "ot_payload tx' = ot_payload tx"
proof -
  have "4 \<le> phase_number (ot_phase tx')" using run_statements_phase [OF assms] by simp
  then show "ot_phase tx' = Finished" by (simp only: phase_number_4)
  show "ot_payload tx' = ot_payload tx" using run_statements_phase [OF assms] by blast
qed

section \<open>Property\<close>

text \<open>
  The statements are the transaction: a message that is received, worked on statement by
  statement, committed and acknowledged with nothing in between leaves the consumer and the tables
  exactly as \<open>handle_message\<close> does, on every path: refusals, failing statements, lost and failed
  commits and failed acknowledgements included.
\<close>

theorem statements_alone_are_the_transaction:
  "deliver_alone lib tenant key env db payload =
     (case handle_message lib tenant key env db payload of (d, db') \<Rightarrow> (after_disposition d, db'))"
proof (cases "\<exists>tx. receive_message lib tenant key env payload = In_Transaction tx")
  case True
  then obtain c now where c: "length payload \<le> MAX_NATS_PAYLOAD_BYTES" "command_from_slice lib payload = Some c"
    "unix_ms (me_clock env) = Some now" "\<not> command_refused lib tenant key now c" "te_begin (me_txn env)"
    by (auto simp: receive_message_def after_disposition_def split: if_splits option.splits disposition.splits)
  let ?tx = "open_transaction payload c (te_now (me_txn env))"
  have rec: "receive_message lib tenant key env payload = In_Transaction ?tx" using c by (simp add: receive_message_def)
  note stmts = run_statements_alone [of lib "me_txn env" db payload c]
  show ?thesis
  proof (cases "run_statements lib (me_txn env) db 4 ?tx")
    case (Inl e)
    with stmts have "command_statements lib (me_txn env) db c = Inl e" by simp
    with Inl rec c show ?thesis
      by (simp add: deliver_alone_def handle_message_def process_command_def after_disposition_def)
  next
    case (Inr tx)
    with stmts have "command_statements lib (me_txn env) db c = Inr (txn_view tx db)" by simp
    with Inr rec c show ?thesis
      by (simp add: deliver_alone_def handle_message_def process_command_def after_disposition_def commit_txn_def
          acknowledge_def split: commit_outcome.split)
  qed
next
  case False
  then show ?thesis
    by (auto simp: deliver_alone_def receive_message_def handle_message_def process_command_def after_disposition_def
        terminate_message_def split: option.splits if_splits)
qed

end
