(* ===== verification/Cluster.thy ===== *)
theory Cluster
  imports Transaction Server_System
begin

text \<open>
  Several server processes on one database and one durable consumer, interleaved statement by
  statement: requests, open transactions, commits, acknowledgements, publishers and restarts. The
  durable name of the consumer, the unique keys of the inbox and \<open>ON CONFLICT\<close> are how the code
  prepares for this. The cluster implements the same ledger as a single server, and a transaction
  never waits for one that waits.
\<close>

section \<open>State\<close>

text \<open>
  A process has its state, its consumer and what its publisher still has to send of its round. The
  database of its store is the shared one.
\<close>

record replica =
  rp_app :: app_state
  rp_consumer :: consumer
  rp_batch :: "outbox_row list"

record cluster =
  cl_db :: database
  cl_replicas :: "nat \<Rightarrow> replica"
  cl_log :: "published list"
  cl_acked :: "u8 list list"

definition set_replica :: "nat \<Rightarrow> replica \<Rightarrow> cluster \<Rightarrow> cluster" where
  "set_replica i r s = s\<lparr>cl_replicas := (cl_replicas s)(i := r)\<rparr>"

definition set_consumer :: "nat \<Rightarrow> consumer \<Rightarrow> cluster \<Rightarrow> cluster" where
  "set_consumer i c s = set_replica i ((cl_replicas s i)\<lparr>rp_consumer := c\<rparr>) s"

definition consumer_at :: "cluster \<Rightarrow> nat \<Rightarrow> consumer" where
  "consumer_at s i = rp_consumer (cl_replicas s i)"

definition attach_db :: "database \<Rightarrow> app_state \<Rightarrow> app_state" where
  "attach_db db app = app\<lparr>app_store := (app_store app)\<lparr>as_database := Some db\<rparr>\<rparr>"

section \<open>Waiting\<close>

text \<open>
  A statement that would write a key which another open transaction has written waits for that
  transaction to end; only a failing statement does not wait. The other transaction's rows are not
  visible before its commit, the unique indexes know them.
\<close>

definition waits_for :: "txn_env \<Rightarrow> open_txn \<Rightarrow> open_txn \<Rightarrow> bool" where
  "waits_for env tx other =
     (case ot_phase tx of
        Opened \<Rightarrow>
          (case ot_inbox other of
             None \<Rightarrow> False
           | Some r \<Rightarrow> ib_event_id r = ac_event_id (ot_command tx) \<or> ib_correlation_id r = ac_correlation_id (ot_command tx)
               \<or> ib_dedupe_key r = ac_dedupe_key (ot_command tx))
      | Answered _ \<Rightarrow>
          (case ot_outbox other of
             None \<Rightarrow> False
           | Some r \<Rightarrow> ob_event_id r = te_new_id env \<or> ob_dedupe_key r = rs ''reply:'' @ ac_dedupe_key (ot_command tx))
      | Enqueued _ \<Rightarrow>
          (case ot_status other of
             None \<Rightarrow> False
           | Some q \<Rightarrow> st_correlation_id q = ac_correlation_id (ot_command tx))
      | _ \<Rightarrow> False)"

definition statement_answered :: "txn_env \<Rightarrow> open_txn \<Rightarrow> bool" where
  "statement_answered env tx =
     (case ot_phase tx of Opened \<Rightarrow> te_inbox env | Answered _ \<Rightarrow> te_outbox env | Enqueued _ \<Rightarrow> te_status env | _ \<Rightarrow> True)"

definition blocked :: "txn_env \<Rightarrow> cluster \<Rightarrow> nat \<Rightarrow> open_txn \<Rightarrow> bool" where
  "blocked env s i tx \<longleftrightarrow> (\<exists>j other. j \<noteq> i \<and> consumer_at s j = In_Transaction other \<and> waits_for env tx other)"

section \<open>Steps\<close>

definition cluster_http :: "'x http_lib_scheme \<Rightarrow> api_env \<Rightarrow> request \<Rightarrow> nat \<Rightarrow> cluster \<Rightarrow> cluster" where
  "cluster_http lib env req i s =
     (let app' = snd (handle_request lib env (attach_db (cl_db s) (rp_app (cl_replicas s i))) req)
      in (set_replica i ((cl_replicas s i)\<lparr>rp_app := app'\<rparr>) s)
           \<lparr>cl_db := case as_database (app_store app') of Some db \<Rightarrow> db | None \<Rightarrow> cl_db s\<rparr>)"

definition after_statement :: "(open_txn, string) result \<Rightarrow> consumer" where
  "after_statement r = (case r of Inl e \<Rightarrow> Halted e | Inr tx \<Rightarrow> In_Transaction tx)"

definition cluster_commit :: "commit_outcome \<Rightarrow> open_txn \<Rightarrow> nat \<Rightarrow> cluster \<Rightarrow> cluster" where
  "cluster_commit outcome tx i s =
     (case commit_txn outcome tx (cl_db s) of (c, db) \<Rightarrow> (set_consumer i c s)\<lparr>cl_db := db\<rparr>)"

definition cluster_ack :: "bool \<Rightarrow> u8 list \<Rightarrow> nat \<Rightarrow> cluster \<Rightarrow> cluster" where
  "cluster_ack acked payload i s =
     (set_consumer i (acknowledge acked) s)\<lparr>cl_acked := if acked then payload # cl_acked s else cl_acked s\<rparr>"

definition cluster_publish ::
  "'x wire_lib_scheme \<Rightarrow> (uuid \<Rightarrow> publish_env) \<Rightarrow> outbox_row \<Rightarrow> outbox_row list \<Rightarrow> nat \<Rightarrow> cluster \<Rightarrow> cluster" where
  "cluster_publish lib env row rows i s =
     (case publish_row lib env row (cl_db s, cl_log s) of
        (r, db, log) \<Rightarrow>
          (set_replica i ((cl_replicas s i)\<lparr>rp_batch := if is_ok r then rows else []\<rparr>) s)\<lparr>cl_db := db, cl_log := log\<rparr>)"

definition cluster_restart :: "nat \<Rightarrow> cluster \<Rightarrow> cluster" where
  "cluster_restart i s =
     set_replica i \<lparr>rp_app = (rp_app (cl_replicas s i))\<lparr>app_events := []\<rparr>, rp_consumer = Idle, rp_batch = []\<rparr> s"

inductive cluster_step :: "'x http_lib_scheme \<Rightarrow> u8 list \<Rightarrow> cluster \<Rightarrow> cluster \<Rightarrow> bool" for lib key where
  Request: "cluster_step lib key s (cluster_http lib env req i s)"
| Receive: "consumer_at s i = Idle \<Longrightarrow>
    tenant = pol_product_tenant (ab_policy (app_auth (rp_app (cl_replicas s i)))) \<Longrightarrow>
    cluster_step lib key s (set_consumer i (receive_message lib tenant key env payload) s)"
| Delivery_Ends: "consumer_at s i = Idle \<Longrightarrow>
    e \<in> {''JetStream command delivery failed'', ''JetStream command delivery ended''} \<Longrightarrow>
    cluster_step lib key s (set_consumer i (Halted e) s)"
| Statement: "consumer_at s i = In_Transaction tx \<Longrightarrow> ot_phase tx \<noteq> Finished \<Longrightarrow>
    \<not> (statement_answered env tx \<and> blocked env s i tx) \<Longrightarrow>
    cluster_step lib key s (set_consumer i (after_statement (txn_statement lib env (cl_db s) tx)) s)"
| Commit: "consumer_at s i = In_Transaction tx \<Longrightarrow> ot_phase tx = Finished \<Longrightarrow>
    cluster_step lib key s (cluster_commit outcome tx i s)"
| Ack: "consumer_at s i = Committed payload \<Longrightarrow> cluster_step lib key s (cluster_ack acked payload i s)"
| Read_Pending: "cluster_step lib key s
    (set_replica i ((cl_replicas s i)\<lparr>rp_batch := select_outbox (cl_db s)\<rparr>) s)"
| Publish_One: "rp_batch (cl_replicas s i) = row # rows \<Longrightarrow>
    cluster_step lib key s (cluster_publish lib env row rows i s)"
| Crash: "cluster_step lib key s (cluster_restart i s)"

inductive_cases cluster_stepE: "cluster_step lib key s t"

definition start_cluster :: "(nat \<Rightarrow> auth_boundary) \<Rightarrow> cluster" where
  "start_cluster ab =
     \<lparr>cl_db = empty_database,
      cl_replicas = (\<lambda>i. \<lparr>rp_app = \<lparr>app_store = new_store (Some empty_database), app_auth = ab i, app_events = [],
                            app_mtls_configured = False, app_jetstream_configured = True\<rparr>,
                          rp_consumer = Idle, rp_batch = []\<rparr>),
      cl_log = [], cl_acked = []\<rparr>"

lemmas consumer_updates = consumer_at_def set_consumer_def set_replica_def

lemma consumer_at_set [simp]:
  "consumer_at (set_consumer i c s) j = (if j = i then c else consumer_at s j)"
  "cl_db (set_consumer i c s) = cl_db s" "cl_log (set_consumer i c s) = cl_log s"
  "cl_acked (set_consumer i c s) = cl_acked s"
  "rp_batch (cl_replicas (set_consumer i c s) j) = rp_batch (cl_replicas s j)"
  by (simp_all add: consumer_updates)

lemma consumer_at_cong [simp]:
  "consumer_at (s\<lparr>cl_db := db\<rparr>) j = consumer_at s j" "consumer_at (s\<lparr>cl_log := log\<rparr>) j = consumer_at s j"
  "consumer_at (s\<lparr>cl_acked := acked\<rparr>) j = consumer_at s j"
  by (simp_all add: consumer_updates)

section \<open>Invariant\<close>

text \<open>
  What an open transaction has written, relative to the committed tables: rows of its own command,
  which is not recorded yet, within the constraints; and at its commit either everything or, for a
  command that others have recorded, nothing.
\<close>

definition row_of_command :: "async_command \<Rightarrow> inbox_row \<Rightarrow> bool" where
  "row_of_command c r \<longleftrightarrow> ib_event_id r = ac_event_id c \<and> ib_correlation_id r = ac_correlation_id c
     \<and> ib_dedupe_key r = ac_dedupe_key c \<and> ib_product_tenant r = ac_product_tenant c \<and> inbox_check r"

definition txn_writes_ok :: "database \<Rightarrow> open_txn \<Rightarrow> bool" where
  "txn_writes_ok db tx \<longleftrightarrow>
     (\<forall>r. ot_inbox tx = Some r \<longrightarrow> row_of_command (ot_command tx) r \<and> \<not> command_recorded (ot_command tx) db) \<and>
     (\<forall>o'. ot_outbox tx = Some o' \<longrightarrow> (\<exists>r. ot_inbox tx = Some r \<and> answers r o') \<and> outbox_check o'
        \<and> ob_event_id o' \<notin> ob_event_id ` set (db_outbox db)) \<and>
     (\<forall>q. ot_status tx = Some q \<longrightarrow> ot_inbox tx \<noteq> None \<and> st_correlation_id q = ac_correlation_id (ot_command tx)
        \<and> status_check q)"

definition txn_phase_ok :: "database \<Rightarrow> open_txn \<Rightarrow> bool" where
  "txn_phase_ok db tx =
     (case ot_phase tx of
        Opened \<Rightarrow> ot_inbox tx = None \<and> ot_outbox tx = None \<and> ot_status tx = None
      | Recorded \<Rightarrow> ot_inbox tx \<noteq> None \<and> ot_outbox tx = None \<and> ot_status tx = None
      | Answered _ \<Rightarrow> ot_inbox tx \<noteq> None \<and> ot_outbox tx = None \<and> ot_status tx = None
      | Enqueued _ \<Rightarrow> ot_inbox tx \<noteq> None \<and> ot_outbox tx \<noteq> None \<and> ot_status tx = None
      | Finished \<Rightarrow> ot_inbox tx \<noteq> None \<and> ot_outbox tx \<noteq> None \<and> ot_status tx \<noteq> None
          \<or> ot_inbox tx = None \<and> ot_outbox tx = None \<and> ot_status tx = None \<and> command_recorded (ot_command tx) db)"

definition txn_ok :: "'x wire_lib_scheme \<Rightarrow> database \<Rightarrow> open_txn \<Rightarrow> bool" where
  "txn_ok lib db tx \<longleftrightarrow> command_from_slice lib (ot_payload tx) = Some (ot_command tx)
     \<and> txn_writes_ok db tx \<and> txn_phase_ok db tx"

definition txns_apart :: "open_txn \<Rightarrow> open_txn \<Rightarrow> bool" where
  "txns_apart tx tx' \<longleftrightarrow>
     (\<forall>r r'. ot_inbox tx = Some r \<and> ot_inbox tx' = Some r' \<longrightarrow>
        ib_event_id r \<noteq> ib_event_id r' \<and> ib_correlation_id r \<noteq> ib_correlation_id r' \<and> ib_dedupe_key r \<noteq> ib_dedupe_key r') \<and>
     (\<forall>o1 o2. ot_outbox tx = Some o1 \<and> ot_outbox tx' = Some o2 \<longrightarrow> ob_event_id o1 \<noteq> ob_event_id o2)"

definition consumer_ok :: "'x wire_lib_scheme \<Rightarrow> database \<Rightarrow> consumer \<Rightarrow> bool" where
  "consumer_ok lib db c =
     (case c of
        In_Transaction tx \<Rightarrow> txn_ok lib db tx
      | Committed p \<Rightarrow> (\<exists>c. command_from_slice lib p = Some c \<and> command_recorded c db)
      | _ \<Rightarrow> True)"

definition cluster_inv :: "'x http_lib_scheme \<Rightarrow> cluster \<Rightarrow> bool" where
  "cluster_inv lib s \<longleftrightarrow>
     store_laws lib \<and> db_invar lib (cl_db s) \<and> jet_inv (cl_db s) \<and>
     (\<forall>i. replies_kept (rp_batch (cl_replicas s i)) (db_outbox (cl_db s))) \<and>
     (\<forall>i. consumer_ok lib (cl_db s) (consumer_at s i)) \<and>
     (\<forall>i j tx tx'. i \<noteq> j \<longrightarrow> consumer_at s i = In_Transaction tx \<longrightarrow> consumer_at s j = In_Transaction tx' \<longrightarrow>
        txns_apart tx tx')"

definition cluster_ledger :: "cluster \<Rightarrow> ledger" where
  "cluster_ledger s = ledger_of (cl_db s) (cl_log s) (cl_acked s)"

lemma txns_apart_sym: "txns_apart tx tx' \<Longrightarrow> txns_apart tx' tx"
  unfolding txns_apart_def by metis

lemma cluster_inv_start: "store_laws lib \<Longrightarrow> cluster_inv lib (start_cluster ab)"
  using jet_inv_empty db_invar_empty [of lib]
  by (simp add: cluster_inv_def start_cluster_def consumer_at_def consumer_ok_def replies_kept_def)

lemma cluster_invD:
  assumes "cluster_inv lib s"
  shows "db_invar lib (cl_db s)" and "jet_inv (cl_db s)" and "replies_kept (rp_batch (cl_replicas s i)) (db_outbox (cl_db s))"
    and "consumer_ok lib (cl_db s) (consumer_at s i)"
    and "consumer_at s i = In_Transaction tx \<Longrightarrow> txn_ok lib (cl_db s) tx"
    and "i \<noteq> j \<Longrightarrow> consumer_at s i = In_Transaction tx \<Longrightarrow> consumer_at s j = In_Transaction tx' \<Longrightarrow> txns_apart tx tx'"
proof -
  show ok: "consumer_ok lib (cl_db s) (consumer_at s i)" using assms by (simp add: cluster_inv_def)
  then show "consumer_at s i = In_Transaction tx \<Longrightarrow> txn_ok lib (cl_db s) tx" by (simp add: consumer_ok_def)
  show "i \<noteq> j \<Longrightarrow> consumer_at s i = In_Transaction tx \<Longrightarrow> consumer_at s j = In_Transaction tx' \<Longrightarrow> txns_apart tx tx'"
    using assms unfolding cluster_inv_def by blast
qed (use assms in \<open>simp_all add: cluster_inv_def\<close>)

subsection \<open>Frames\<close>

text \<open>
  The consumers depend on the inbox and on the identifiers of the replies only; the messages sent
  and the acknowledgements are not part of the invariant.
\<close>

lemma cluster_inv_log:
  "cluster_inv lib (s\<lparr>cl_log := log\<rparr>) = cluster_inv lib s" "cluster_inv lib (s\<lparr>cl_acked := acked\<rparr>) = cluster_inv lib s"
  by (simp_all add: cluster_inv_def)

lemma cluster_inv_consumer:
  assumes "cluster_inv lib s" and "consumer_ok lib (cl_db s) c"
    and "\<And>tx j tx'. c = In_Transaction tx \<Longrightarrow> j \<noteq> i \<Longrightarrow> consumer_at s j = In_Transaction tx' \<Longrightarrow> txns_apart tx tx'"
  shows "cluster_inv lib (set_consumer i c s)"
  using assms txns_apart_sym unfolding cluster_inv_def by (simp split: if_splits) metis

lemma cluster_inv_replica:
  assumes "cluster_inv lib s" and "rp_consumer r = consumer_at s i"
    and "replies_kept (rp_batch r) (db_outbox (cl_db s))"
  shows "cluster_inv lib (set_replica i r s)"
proof -
  have "consumer_at (set_replica i r s) = consumer_at s"
    using assms(2) by (auto simp: consumer_updates)
  moreover have "cl_db (set_replica i r s) = cl_db s" by (simp add: set_replica_def)
  moreover have "replies_kept (rp_batch (cl_replicas (set_replica i r s) j)) (db_outbox (cl_db s))" for j
    using assms(1,3) by (simp add: set_replica_def cluster_inv_def)
  ultimately show ?thesis using assms(1) unfolding cluster_inv_def by simp
qed

lemma consumer_ok_tables:
  assumes "consumer_ok lib db c" and "db_inbox db' = db_inbox db"
    and "map ob_event_id (db_outbox db') = map ob_event_id (db_outbox db)"
  shows "consumer_ok lib db' c"
proof -
  have "ob_event_id ` set (db_outbox db') = ob_event_id ` set (db_outbox db)" using assms(3) by (metis list.set_map)
  moreover have "command_recorded c' db' \<longleftrightarrow> command_recorded c' db" for c' using assms(2) by (simp add: command_recorded_def)
  moreover from this have "txn_phase_ok db' tx = txn_phase_ok db tx" for tx
    by (simp add: txn_phase_ok_def split: txn_phase.split)
  ultimately show ?thesis
    using assms(1) by (cases c) (simp_all add: consumer_ok_def txn_ok_def txn_writes_ok_def)
qed

lemma cluster_inv_tables:
  assumes "cluster_inv lib s" and "db_invar lib db'" and "jet_inv db'"
    and "replies_kept (db_outbox (cl_db s)) (db_outbox db')" and "db_inbox db' = db_inbox (cl_db s)"
    and "map ob_event_id (db_outbox db') = map ob_event_id (db_outbox (cl_db s))"
  shows "cluster_inv lib (s\<lparr>cl_db := db'\<rparr>)"
  using assms(1-3) consumer_ok_tables [OF _ assms(5,6), of lib] replies_kept_trans [OF _ assms(4)]
  unfolding cluster_inv_def by auto

subsection \<open>Statements\<close>

lemma txn_ok_phase:
  assumes "txn_ok lib db tx"
  shows "ot_phase tx = Opened \<Longrightarrow> txn_view tx db = db"
    and "ot_phase tx = Answered reply \<Longrightarrow> \<exists>r. ot_inbox tx = Some r \<and> ot_outbox tx = None \<and> row_of_command (ot_command tx) r
      \<and> \<not> command_recorded (ot_command tx) db \<and> txn_view tx db = db\<lparr>db_inbox := db_inbox db @ [r]\<rparr>"
  using assms by (auto simp: txn_ok_def txn_phase_ok_def txn_writes_ok_def txn_view_def)

text \<open>
  A statement that succeeds keeps the transaction's writes in order, and a key it adds is one it
  would have waited for.
\<close>

lemma txn_statement_ok:
  assumes ok: "txn_ok lib db tx" and inv: "jet_inv db" and stmt: "txn_statement lib env db tx = Inr tx'"
  shows "txn_ok lib db tx' \<and> statement_answered env tx \<and> ot_command tx' = ot_command tx \<and>
    (ot_inbox tx' = ot_inbox tx \<or> ot_phase tx = Opened \<and> ot_outbox tx' = None) \<and>
    (ot_outbox tx' = ot_outbox tx \<or> (\<exists>reply r. ot_phase tx = Answered reply \<and> ot_outbox tx' = Some r \<and> ob_event_id r = te_new_id env))"
proof (cases "ot_phase tx")
  case Opened
  let ?row = "inbox_values (env\<lparr>te_now := ot_now tx\<rparr>) (ot_command tx)"
  obtain s n db1 where ins: "te_inbox env" "insert_inbox (?row s) db = Some (n, db1)"
    and tx': "tx' = (if n = 1 then tx\<lparr>ot_inbox := Some (?row s), ot_phase := Recorded\<rparr> else tx\<lparr>ot_phase := Finished\<rparr>)"
    using stmt Opened txn_ok_phase(1) [OF ok Opened]
    by (auto simp: txn_statement_def Let_def Option.bind_eq_Some_conv simp del: One_nat_def split: if_split_asm)
  from ins(2) have row: "inbox_check (?row s)" and n: "n = (if command_recorded (ot_command tx) db then 0 else 1)"
    by (auto simp: insert_inbox_values split: if_splits)
  have "row_of_command (ot_command tx) (?row s)" using row by (simp add: row_of_command_def) (simp add: inbox_values_def)
  with ok Opened ins(1) show ?thesis
    unfolding tx' n by (simp add: txn_ok_def txn_phase_ok_def txn_writes_ok_def statement_answered_def)
next
  case Recorded
  with stmt ok show ?thesis
    by (auto simp: txn_statement_def Let_def statement_answered_def txn_ok_def txn_phase_ok_def txn_writes_ok_def)
next
  case (Answered reply)
  obtain r where r: "ot_inbox tx = Some r" "ot_outbox tx = None" "row_of_command (ot_command tx) r"
    "\<not> command_recorded (ot_command tx) db" "txn_view tx db = db\<lparr>db_inbox := db_inbox db @ [r]\<rparr>"
    using txn_ok_phase(2) [OF ok Answered] by blast
  let ?c = "ot_command tx" let ?env = "env\<lparr>te_now := ot_now tx\<rparr>"
  let ?envelope = "reply_envelope (te_new_id env) ?c reply"
  obtain payload n db2 where p: "te_outbox env"
    and ins: "insert_outbox (outbox_values ?env ?c ?envelope payload) (txn_view tx db) = Some (n, db2)"
    and tx': "tx' = tx\<lparr>ot_outbox := if n = 1 then Some (outbox_values ?env ?c ?envelope payload) else None, ot_phase := Enqueued reply\<rparr>"
    using stmt Answered by (auto simp: txn_statement_def Let_def Option.bind_eq_Some_conv split: if_splits)
  let ?row = "outbox_values ?env ?c ?envelope payload"
  have "ob_dedupe_key ?row \<notin> ob_dedupe_key ` set (db_outbox db)"
    using jet_inv_fresh(1) [OF inv r(4)] by (simp add: outbox_values_def reply_envelope_def)
  with ins r(5) have "n = 1" "outbox_check ?row" "ob_event_id ?row \<notin> ob_event_id ` set (db_outbox db)"
    by (auto simp: insert_outbox_def split: if_splits)
  moreover have "answers r ?row"
    using r(3) by (simp add: answers_def row_of_command_def outbox_values_def reply_envelope_def)
  ultimately show ?thesis
    using ok r Answered p tx'
    by (simp add: txn_ok_def txn_phase_ok_def txn_writes_ok_def statement_answered_def) (simp add: outbox_values_def)
next
  case (Enqueued reply)
  with stmt ok show ?thesis
    by (auto simp: txn_statement_def Let_def Option.bind_eq_Some_conv statement_answered_def upsert_status_def
        txn_ok_def txn_phase_ok_def txn_writes_ok_def split: if_splits)
       (simp_all add: status_values_def)
next
  case Finished
  with stmt ok show ?thesis by (simp add: statement_answered_def)
qed

lemma txn_statement_apart:
  assumes ok: "txn_ok lib db tx" and inv: "jet_inv db" and stmt: "txn_statement lib env db tx = Inr tx'"
    and apart: "txns_apart tx other" and other: "txn_writes_ok db other"
    and free: "\<not> (statement_answered env tx \<and> waits_for env tx other)"
  shows "txns_apart tx' other"
proof -
  note st = txn_statement_ok [OF ok inv stmt]
  have free': "\<not> waits_for env tx other" using st free by blast
  have row: "row_of_command (ot_command tx) r" if "ot_inbox tx' = Some r" for r
    using that st by (auto simp: txn_ok_def txn_writes_ok_def)
  have "ib_event_id r \<noteq> ib_event_id r' \<and> ib_correlation_id r \<noteq> ib_correlation_id r' \<and> ib_dedupe_key r \<noteq> ib_dedupe_key r'"
    if r: "ot_inbox tx' = Some r" "ot_inbox other = Some r'" for r r'
  proof (cases "ot_inbox tx' = ot_inbox tx")
    case True
    with apart r show ?thesis by (simp add: txns_apart_def)
  next
    case False
    with st have "ot_phase tx = Opened" by blast
    with free' r row [OF r(1)] show ?thesis by (auto simp: waits_for_def row_of_command_def)
  qed
  moreover have "ob_event_id o1 \<noteq> ob_event_id o2" if r: "ot_outbox tx' = Some o1" "ot_outbox other = Some o2" for o1 o2
  proof (cases "ot_outbox tx' = ot_outbox tx")
    case True
    with apart r show ?thesis by (simp add: txns_apart_def)
  next
    case False
    with st r(1) obtain reply where "ot_phase tx = Answered reply" "ob_event_id o1 = te_new_id env" by auto
    with free' r(2) show ?thesis by (auto simp: waits_for_def)
  qed
  ultimately show ?thesis unfolding txns_apart_def by blast
qed

subsection \<open>Commits\<close>

text \<open>
  A commit changes nothing, for a command that is recorded, or adds the command, its reply and its
  status, which is answering it on the ledger.
\<close>

lemma txn_view_commit:
  assumes ok: "txn_ok lib db tx" and inv: "jet_inv db" and fin: "ot_phase tx = Finished"
  obtains (known) "txn_view tx db = db" "command_recorded (ot_command tx) db"
  | (new) r o' where "ot_inbox tx = Some r" "ot_outbox tx = Some o'" "jet_inv (txn_view tx db)"
      "db_inbox (txn_view tx db) = db_inbox db @ [r]" "db_outbox (txn_view tx db) = db_outbox db @ [o']"
      "db_alert_rules (txn_view tx db) = db_alert_rules db" "command_recorded (ot_command tx) (txn_view tx db)"
      "row_of_command (ot_command tx) r" "answers r o'" "\<not> command_recorded (ot_command tx) db"
      "ob_event_id o' \<notin> ob_event_id ` set (db_outbox db)"
proof (cases "ot_inbox tx")
  case None
  with ok fin have "txn_view tx db = db" "command_recorded (ot_command tx) db"
    by (auto simp: txn_ok_def txn_phase_ok_def txn_view_def)
  then show ?thesis by (rule known)
next
  case (Some r)
  let ?c = "ot_command tx"
  from Some ok fin obtain o' q where oq: "ot_outbox tx = Some o'" "ot_status tx = Some q"
    by (auto simp: txn_ok_def txn_phase_ok_def)
  have row: "row_of_command ?c r" "\<not> command_recorded ?c db" and out: "answers r o'" "outbox_check o'"
    "ob_event_id o' \<notin> ob_event_id ` set (db_outbox db)" and q: "st_correlation_id q = ac_correlation_id ?c" "status_check q"
    using ok Some oq by (auto simp: txn_ok_def txn_writes_ok_def)
  let ?db1 = "db\<lparr>db_inbox := db_inbox db @ [r]\<rparr>" let ?db2 = "?db1\<lparr>db_outbox := db_outbox db @ [o']\<rparr>"
  let ?db3 = "?db2\<lparr>db_status := db_status db @ [q]\<rparr>"
  have key: "rs ''reply:'' @ ac_dedupe_key ?c \<notin> ob_dedupe_key ` set (db_outbox db)"
    "ac_correlation_id ?c \<notin> st_correlation_id ` set (db_status db)"
    using jet_inv_fresh [OF inv row(2)] by blast+
  have "insert_inbox r db = Some (1, ?db1)"
    using row by (simp add: insert_inbox_def inbox_conflict_def row_of_command_def command_recorded_def)
  then have wf1: "db_wf ?db1" using insert_inbox_wf inv by (auto simp: jet_inv_def)
  have "insert_outbox o' ?db1 = Some (1, ?db2)"
    using out key(1) row(1) by (simp add: insert_outbox_def answers_def row_of_command_def)
  then have wf2: "db_wf ?db2" using insert_outbox_wf wf1 by blast
  have up: "upsert_status q ?db2 = Some (1, ?db3)" using q key(2) by (simp add: upsert_status_def)
  then have wf3: "db_wf ?db3" using upsert_status_wf wf2 by blast
  have view: "txn_view tx db = ?db3" using Some oq up by (simp add: txn_view_def apply_status_def)
  have "jet_inv ?db3"
    using inv wf3 out(1) row(1) q(1) by (simp add: jet_inv_def answers_def row_of_command_def)
  with Some oq view row out show ?thesis
    by (intro new [of r o']) (simp_all add: command_recorded_def row_of_command_def)
qed

lemma command_recorded_append:
  "db_inbox db' = db_inbox db @ [r] \<Longrightarrow> command_recorded c db' \<longleftrightarrow> command_recorded c db
     \<or> ib_event_id r = ac_event_id c \<or> ib_correlation_id r = ac_correlation_id c \<or> ib_dedupe_key r = ac_dedupe_key c"
  by (auto simp: command_recorded_def)

lemma consumer_ok_commit:
  assumes ok: "consumer_ok lib db c" and grow: "db_inbox db' = db_inbox db @ [r]" "db_outbox db' = db_outbox db @ [o']"
    and apart: "\<And>tx'. c = In_Transaction tx' \<Longrightarrow> txns_apart tx tx'"
    and tx: "ot_inbox tx = Some r" "ot_outbox tx = Some o'"
  shows "consumer_ok lib db' c"
proof (cases c)
  case (In_Transaction tx')
  note rec = command_recorded_append [OF grow(1)]
  have ok': "txn_ok lib db tx'" and ap: "txns_apart tx tx'" using ok apart In_Transaction by (simp_all add: consumer_ok_def)
  have "\<not> command_recorded (ot_command tx') db'" if "ot_inbox tx' = Some r'" for r'
    using that ok' ap tx by (auto simp: rec txn_ok_def txn_writes_ok_def txns_apart_def row_of_command_def)
  moreover have "ob_event_id o2 \<notin> ob_event_id ` set (db_outbox db')" if "ot_outbox tx' = Some o2" for o2
    using that ok' ap tx by (auto simp: grow(2) txn_ok_def txn_writes_ok_def txns_apart_def)
  ultimately have "txn_writes_ok db' tx'" using ok' by (auto simp: txn_ok_def txn_writes_ok_def)
  moreover have "txn_phase_ok db' tx'" using ok' rec by (auto simp: txn_ok_def txn_phase_ok_def split: txn_phase.splits)
  ultimately show ?thesis using ok' In_Transaction by (simp add: consumer_ok_def txn_ok_def)
next
  case (Committed p)
  with ok command_recorded_append [OF grow(1)] show ?thesis by (auto simp: consumer_ok_def)
qed (simp_all add: consumer_ok_def)

lemma cluster_inv_commit_new:
  assumes inv: "cluster_inv lib s" and tx: "consumer_at s i = In_Transaction tx" "ot_inbox tx = Some r" "ot_outbox tx = Some o'"
    and db': "jet_inv db'" "db_alert_rules db' = db_alert_rules (cl_db s)"
    and grow: "db_inbox db' = db_inbox (cl_db s) @ [r]" "db_outbox db' = db_outbox (cl_db s) @ [o']"
    and c: "consumer_ok lib db' c" "\<forall>tx. c \<noteq> In_Transaction tx"
  shows "cluster_inv lib ((set_consumer i c s)\<lparr>cl_db := db'\<rparr>)"
proof -
  have "db_invar lib db'" using inv db' by (simp add: cluster_inv_def db_invar_def jet_inv_def)
  moreover have "replies_kept (rp_batch (cl_replicas s j)) (db_outbox db')" for j
    using inv replies_kept_trans replies_kept_append grow(2) by (metis cluster_inv_def)
  moreover have "consumer_ok lib db' (consumer_at s j)" if "j \<noteq> i" for j
  proof (rule consumer_ok_commit [OF _ grow _ tx(2,3)])
    show "consumer_ok lib (cl_db s) (consumer_at s j)" using inv by (rule cluster_invD)
    show "txns_apart tx tx'" if "consumer_at s j = In_Transaction tx'" for tx'
      using cluster_invD(6) [OF inv _ tx(1) that] \<open>j \<noteq> i\<close> by simp
  qed
  ultimately show ?thesis using inv c db'(1) unfolding cluster_inv_def by simp
qed

lemma cluster_commit_step:
  assumes inv: "cluster_inv lib s" and tx: "consumer_at s i = In_Transaction tx" "ot_phase tx = Finished"
  shows "cluster_inv lib (cluster_commit outcome tx i s)"
    and "(ledger_step lib)\<^sup>*\<^sup>* (cluster_ledger s) (cluster_ledger (cluster_commit outcome tx i s))"
proof -
  note ok = cluster_invD(5) [OF inv tx(1)] and jet = cluster_invD(2) [OF inv]
  have slice: "command_from_slice lib (ot_payload tx) = Some (ot_command tx)" using ok by (simp add: txn_ok_def)
  obtain c db' where com: "commit_txn outcome tx (cl_db s) = (c, db')" by fastforce
  have c: "\<forall>tx. c \<noteq> In_Transaction tx" "db' = cl_db s \<and> (\<exists>e. c = Halted e) \<or> db' = txn_view tx (cl_db s)"
    "c = Committed p \<Longrightarrow> p = ot_payload tx \<and> db' = txn_view tx (cl_db s)" for p
    using com by (auto simp: commit_txn_def split: commit_outcome.splits)
  have "cluster_inv lib ((set_consumer i c s)\<lparr>cl_db := db'\<rparr>)
    \<and> (ledger_step lib)\<^sup>*\<^sup>* (cluster_ledger s) (ledger_of db' (cl_log s) (cl_acked s))"
  proof (cases "db' = cl_db s")
    case True
    have "command_recorded (ot_command tx) (cl_db s)" if "c = Committed p" for p
    proof (cases rule: txn_view_commit [OF ok jet tx(2)])
      case (2 r o')
      with c(3) [OF that] True show ?thesis by simp
    qed
    then have "consumer_ok lib (cl_db s) c" using slice c by (cases c) (auto simp: consumer_ok_def)
    then have "cluster_inv lib (set_consumer i c s)" using inv c(1) by (intro cluster_inv_consumer) auto
    moreover have "(set_consumer i c s)\<lparr>cl_db := db'\<rparr> = set_consumer i c s" using True by (simp add: consumer_updates)
    ultimately show ?thesis by (simp only:) (simp add: True cluster_ledger_def)
  next
    case False
    with c(2) have db': "db' = txn_view tx (cl_db s)" by blast
    show ?thesis
    proof (cases rule: txn_view_commit [OF ok jet tx(2)])
      case 1
      with False db' show ?thesis by simp
    next
      case (2 r o')
      have "consumer_ok lib db' c" using slice 2(7) c db' by (cases c) (auto simp: consumer_ok_def)
      with 2 inv tx(1) c(1) have "cluster_inv lib ((set_consumer i c s)\<lparr>cl_db := db'\<rparr>)"
        unfolding db' by (intro cluster_inv_commit_new) auto
      moreover have "ledger_step lib (cluster_ledger s) (ledger_of db' (cl_log s) (cl_acked s))"
        unfolding cluster_ledger_def
        by (rule ledger_of_answer [OF jet 2(9)]) (use 2(4,5,8,10,11) db' in \<open>auto simp: command_recorded_def row_of_command_def\<close>)
      ultimately show ?thesis by blast
    qed
  qed
  then show "cluster_inv lib (cluster_commit outcome tx i s)"
    "(ledger_step lib)\<^sup>*\<^sup>* (cluster_ledger s) (cluster_ledger (cluster_commit outcome tx i s))"
    by (simp_all add: cluster_commit_def com cluster_ledger_def)
qed

subsection \<open>The other steps\<close>

lemma cluster_http_step:
  assumes inv: "cluster_inv lib s"
  shows "cluster_inv lib (cluster_http lib env req i s)" and "cluster_ledger (cluster_http lib env req i s) = cluster_ledger s"
proof -
  let ?app = "attach_db (cl_db s) (rp_app (cl_replicas s i))"
  obtain resp app' where h: "handle_request lib env ?app req = (resp, app')" by fastforce
  have st: "as_database (app_store ?app) = Some (cl_db s)" "store_invar lib (app_store ?app)"
    using inv by (simp_all add: attach_db_def cluster_inv_def store_invar_def)
  have "\<exists>rows. as_database (app_store app') = Some ((cl_db s)\<lparr>db_alert_rules := rows\<rparr>)
      \<and> db_invar lib ((cl_db s)\<lparr>db_alert_rules := rows\<rparr>)"
  proof -
    have stored: ?thesis if c: "store_create lib (ae_store env) (app_store ?app) actor input = (r, app_store app')" for r actor input
      using store_create_tables [OF c st(1)] store_create_frame(1) [OF st(2), of "ae_store env" actor input] c
      by (auto simp: store_invar_def)
    from h show ?thesis
    proof (cases rule: handle_request_state)
      case unchanged
      with st inv show ?thesis by (intro exI [of _ "db_alert_rules (cl_db s)"]) (simp add: cluster_inv_def)
    next
      case (failed actor input e st')
      with stored show ?thesis by simp
    next
      case (created actor input alert st')
      with stored show ?thesis by simp
    qed
  qed
  then obtain rows where rows: "as_database (app_store app') = Some ((cl_db s)\<lparr>db_alert_rules := rows\<rparr>)"
    "db_invar lib ((cl_db s)\<lparr>db_alert_rules := rows\<rparr>)" by blast
  let ?r = "(cl_replicas s i)\<lparr>rp_app := app'\<rparr>"
  have "cluster_inv lib (set_replica i ?r s)"
    using inv by (intro cluster_inv_replica) (auto simp: consumer_at_def cluster_inv_def)
  moreover have "jet_inv ((cl_db s)\<lparr>db_alert_rules := rows\<rparr>)"
    using inv rows(2) jet_inv_tables(1) by (auto simp: cluster_inv_def db_invar_def)
  ultimately have "cluster_inv lib ((set_replica i ?r s)\<lparr>cl_db := (cl_db s)\<lparr>db_alert_rules := rows\<rparr>\<rparr>)"
    using rows(2) by (intro cluster_inv_tables) (auto simp: set_replica_def intro: replies_kept_subset)
  then show "cluster_inv lib (cluster_http lib env req i s)"
    using h rows(1) by (simp add: cluster_http_def)
  show "cluster_ledger (cluster_http lib env req i s) = cluster_ledger s"
    using h rows(1) by (simp add: cluster_http_def cluster_ledger_def set_replica_def ledger_of_alerts)
qed

lemma cluster_publish_step:
  assumes inv: "cluster_inv lib s" and batch: "rp_batch (cl_replicas s i) = row # rows"
  shows "cluster_inv lib (cluster_publish lib env row rows i s)"
    and "(ledger_step lib)\<^sup>*\<^sup>* (cluster_ledger s) (cluster_ledger (cluster_publish lib env row rows i s))"
proof -
  obtain r db' log' where run: "publish_row lib env row (cl_db s, cl_log s) = (r, db', log')" using prod_cases3 by blast
  obtain q where q: "q \<in> set (db_outbox (cl_db s))" "same_reply row q" and rest: "replies_kept rows (db_outbox (cl_db s))"
    using cluster_invD(3) [OF inv, of i] batch by (auto simp: replies_kept_def)
  let ?r = "(cl_replicas s i)\<lparr>rp_batch := if is_ok r then rows else []\<rparr>"
  have rep: "cluster_inv lib (set_replica i ?r s)"
    using inv rest by (intro cluster_inv_replica) (auto simp: consumer_at_def replies_kept_def)
  have "\<exists>ids. db' = mark_rows env ids (cl_db s)"
    using run
  proof (cases rule: publish_row_cases)
    case (sent m)
    then have "db' = mark_rows env {ob_event_id row} (cl_db s)" using mark_rows_step [of env "{}" "ob_event_id row" "cl_db s"] by simp
    then show ?thesis by blast
  qed (metis mark_rows_empty)+
  then obtain ids where db': "db' = mark_rows env ids (cl_db s)" by blast
  have "jet_inv db'" using cluster_invD(2) [OF inv] db' mark_rows_inv by simp
  moreover from this have "db_invar lib db'"
    using cluster_invD(1) [OF inv] by (simp add: db_invar_def jet_inv_def db' mark_rows_keeps)
  ultimately have "cluster_inv lib ((set_replica i ?r s)\<lparr>cl_db := db'\<rparr>)"
    using rep by (intro cluster_inv_tables) (simp_all add: set_replica_def db' mark_rows_keeps replies_kept_mark)
  then have "cluster_inv lib (((set_replica i ?r s)\<lparr>cl_db := db'\<rparr>)\<lparr>cl_log := log'\<rparr>)" by (simp only: cluster_inv_log)
  then show "cluster_inv lib (cluster_publish lib env row rows i s)" using run by (simp add: cluster_publish_def)
  show "(ledger_step lib)\<^sup>*\<^sup>* (cluster_ledger s) (cluster_ledger (cluster_publish lib env row rows i s))"
    using ledger_of_publish [OF cluster_invD(2) [OF inv] q run] run
    by (simp add: cluster_publish_def cluster_ledger_def set_replica_def)
qed

lemma receive_message_cases:
  obtains (plain) "receive_message lib tenant key env payload = Idle \<or> (\<exists>e. receive_message lib tenant key env payload = Halted e)"
  | (opened) c now where "command_from_slice lib payload = Some c"
      "receive_message lib tenant key env payload = In_Transaction (open_transaction payload c now)"
proof (cases "\<exists>tx. receive_message lib tenant key env payload = In_Transaction tx")
  case True
  with opened show ?thesis
    by (auto simp: receive_message_def after_disposition_def split: if_splits option.splits disposition.splits)
next
  case False
  with plain show ?thesis
    by (fastforce simp: receive_message_def after_disposition_def split: if_splits option.splits disposition.splits)
qed

lemma open_transaction_ok:
  "command_from_slice lib payload = Some c \<Longrightarrow> txn_ok lib db (open_transaction payload c now)"
  "txns_apart (open_transaction payload c now) tx"
  by (simp_all add: txn_ok_def txn_writes_ok_def txn_phase_ok_def open_transaction_def txns_apart_def)

lemma cluster_receive_inv:
  assumes "cluster_inv lib s"
  shows "cluster_inv lib (set_consumer i (receive_message lib tenant key env payload) s)"
proof (rule cluster_inv_consumer [OF assms])
  show "consumer_ok lib (cl_db s) (receive_message lib tenant key env payload)"
    by (cases rule: receive_message_cases [of lib tenant key env payload]) (auto simp: consumer_ok_def open_transaction_ok)
  show "txns_apart tx tx'" if "receive_message lib tenant key env payload = In_Transaction tx" for tx tx'
    using that open_transaction_ok(2)
    by (cases rule: receive_message_cases [of lib tenant key env payload]) auto
qed

lemma cluster_statement_inv:
  assumes inv: "cluster_inv lib s" and tx: "consumer_at s i = In_Transaction tx"
    and free: "\<not> (statement_answered env tx \<and> blocked env s i tx)"
  shows "cluster_inv lib (set_consumer i (after_statement (txn_statement lib env (cl_db s) tx)) s)"
proof (cases "txn_statement lib env (cl_db s) tx")
  case (Inl e)
  then show ?thesis using inv by (intro cluster_inv_consumer) (simp_all add: after_statement_def consumer_ok_def)
next
  case (Inr tx')
  note ok = cluster_invD(5) [OF inv tx] and jet = cluster_invD(2) [OF inv]
  show ?thesis unfolding Inr after_statement_def sum.case
  proof (rule cluster_inv_consumer [OF inv])
    show "consumer_ok lib (cl_db s) (In_Transaction tx')" using txn_statement_ok [OF ok jet Inr] by (simp add: consumer_ok_def)
    fix t j other
    assume t: "In_Transaction tx' = In_Transaction t" "j \<noteq> i" "consumer_at s j = In_Transaction other"
    have "txns_apart tx' other"
    proof (rule txn_statement_apart [OF ok jet Inr])
      show "txns_apart tx other" using cluster_invD(6) [OF inv _ tx t(3)] t(2) by simp
      show "txn_writes_ok (cl_db s) other" using cluster_invD(5) [OF inv t(3)] by (simp add: txn_ok_def)
      show "\<not> (statement_answered env tx \<and> waits_for env tx other)" using free t(2,3) by (auto simp: blocked_def)
    qed
    with t(1) show "txns_apart t other" by simp
  qed
qed

lemma cluster_ack_step:
  assumes inv: "cluster_inv lib s" and c: "consumer_at s i = Committed payload"
  shows "cluster_inv lib (cluster_ack acked payload i s)"
    and "(ledger_step lib)\<^sup>*\<^sup>* (cluster_ledger s) (cluster_ledger (cluster_ack acked payload i s))"
proof -
  have "cluster_inv lib (set_consumer i (acknowledge acked) s)"
    using inv by (intro cluster_inv_consumer) (simp_all add: acknowledge_def consumer_ok_def split: if_splits)
  then show "cluster_inv lib (cluster_ack acked payload i s)" by (simp add: cluster_ack_def cluster_inv_log)
  obtain c where "command_from_slice lib payload = Some c" "command_recorded c (cl_db s)"
    using cluster_invD(4) [OF inv, of i] c by (auto simp: consumer_ok_def)
  from ledger_of_acknowledge [OF cluster_invD(2) [OF inv] this]
  show "(ledger_step lib)\<^sup>*\<^sup>* (cluster_ledger s) (cluster_ledger (cluster_ack acked payload i s))"
    by (auto simp: cluster_ack_def cluster_ledger_def)
qed

lemma cluster_restart_inv:
  assumes "cluster_inv lib s"
  shows "cluster_inv lib (cluster_restart i s)"
proof -
  let ?s = "set_consumer i Idle s"
  let ?r = "\<lparr>rp_app = (rp_app (cl_replicas s i))\<lparr>app_events := []\<rparr>, rp_consumer = Idle, rp_batch = []\<rparr>"
  have "cluster_inv lib ?s" using assms by (intro cluster_inv_consumer) (simp_all add: consumer_ok_def)
  then have "cluster_inv lib (set_replica i ?r ?s)" by (intro cluster_inv_replica) (simp_all add: replies_kept_def)
  then show ?thesis by (simp add: cluster_restart_def set_consumer_def set_replica_def)
qed

section \<open>The cluster implements the ledger\<close>

lemma cluster_step_inv [step_intros]: "cluster_inv lib s \<Longrightarrow> cluster_step lib key s t \<Longrightarrow> cluster_inv lib t"
proof (erule cluster_stepE)
  fix i
  assume s: "cluster_inv lib s" "t = set_replica i ((cl_replicas s i)\<lparr>rp_batch := select_outbox (cl_db s)\<rparr>) s"
  have "replies_kept (select_outbox (cl_db s)) (db_outbox (cl_db s))"
    by (rule replies_kept_subset) (use select_outbox_pending in blast)
  with s show "cluster_inv lib t" by (auto intro!: cluster_inv_replica simp: consumer_at_def)
next
  fix i e
  assume "cluster_inv lib s" "t = set_consumer i (Halted e) s"
  then show "cluster_inv lib t" by (auto intro!: cluster_inv_consumer simp: consumer_ok_def)
qed (simp_all add: cluster_http_step cluster_receive_inv cluster_statement_inv cluster_commit_step cluster_ack_step
      cluster_publish_step cluster_restart_inv)

lemma cluster_step_simulated:
  "cluster_inv lib s \<Longrightarrow> cluster_step lib key s t \<Longrightarrow> (ledger_step lib)\<^sup>*\<^sup>* (cluster_ledger s) (cluster_ledger t)"
  by (erule cluster_stepE)
     (simp_all add: cluster_http_step cluster_commit_step cluster_ack_step cluster_publish_step,
      simp_all add: cluster_ledger_def cluster_restart_def set_replica_def)

interpretation replicas: simulation "cluster_step lib key" "cluster_inv lib" cluster_ledger "ledger_step lib"
  for lib :: "'x http_lib_scheme" and key
  by unfold_locales (rule cluster_step_inv, assumption+, rule cluster_step_simulated)

section \<open>Waiting is short\<close>

text \<open>
  The identifiers of replies are fresh random numbers: no two open transactions choose the same.
\<close>

definition fresh_reply_id :: "txn_env \<Rightarrow> cluster \<Rightarrow> bool" where
  "fresh_reply_id env s \<longleftrightarrow>
     (\<forall>j tx r. consumer_at s j = In_Transaction tx \<longrightarrow> ot_outbox tx = Some r \<longrightarrow> ob_event_id r \<noteq> te_new_id env)"

lemma recorded_never_waits:
  assumes inv: "cluster_inv lib s" and i: "consumer_at s i = In_Transaction tx" "ot_inbox tx \<noteq> None"
    and fresh: "fresh_reply_id env s"
  shows "\<not> blocked env s i tx"
proof
  assume "blocked env s i tx"
  then obtain j other where j: "j \<noteq> i" "consumer_at s j = In_Transaction other" and w: "waits_for env tx other"
    by (auto simp: blocked_def)
  note ok = cluster_invD(5) [OF inv i(1)] and ok' = cluster_invD(5) [OF inv j(2)]
  have apart: "txns_apart tx other" using cluster_invD(6) [OF inv _ i(1) j(2)] j(1) by simp
  from i(2) obtain r where r: "ot_inbox tx = Some r" by blast
  then have row: "row_of_command (ot_command tx) r" using ok by (simp add: txn_ok_def txn_writes_ok_def)
  have not_opened: "ot_phase tx \<noteq> Opened" using ok r by (auto simp: txn_ok_def txn_phase_ok_def)
  have "False" if o': "ot_outbox other = Some o'" "ob_dedupe_key o' = rs ''reply:'' @ ac_dedupe_key (ot_command tx)" for o'
  proof -
    obtain r' where "ot_inbox other = Some r'" "answers r' o'" using ok' o'(1) by (auto simp: txn_ok_def txn_writes_ok_def)
    with o'(2) row r apart show False by (auto simp: answers_def txns_apart_def row_of_command_def)
  qed
  moreover have "False" if q: "ot_status other = Some q" "st_correlation_id q = ac_correlation_id (ot_command tx)" for q
  proof -
    obtain r' where "ot_inbox other = Some r'" "row_of_command (ot_command other) r'"
      "st_correlation_id q = ac_correlation_id (ot_command other)"
      using ok' q(1) by (auto simp: txn_ok_def txn_writes_ok_def)
    with q(2) row r apart show False by (auto simp: txns_apart_def row_of_command_def)
  qed
  ultimately show False
    using w not_opened fresh j(2) by (auto simp: waits_for_def fresh_reply_id_def split: txn_phase.splits option.splits)
qed

section \<open>Running a transaction in the cluster\<close>

text \<open>
  A transaction whose keys nobody else has written runs through: the cluster can do what a single
  server does, while the other consumers are at any point of their work.
\<close>

lemma cluster_statement:
  assumes "consumer_at s i = In_Transaction tx" and "ot_phase tx \<noteq> Finished"
    and "\<And>j other. j \<noteq> i \<Longrightarrow> consumer_at s j = In_Transaction other \<Longrightarrow> \<not> waits_for env tx other"
    and "txn_statement lib env (cl_db s) tx = Inr tx'"
  shows "cluster_step lib key s (set_consumer i (In_Transaction tx') s)"
  using Statement [OF assms(1,2), of env lib key] assms(3,4) by (auto simp: blocked_def after_statement_def)

lemma set_consumer_again [simp]: "set_consumer i c (set_consumer i d s) = set_consumer i c s"
  by (simp add: set_consumer_def set_replica_def)

lemma set_consumer_same: "consumer_at s i = c \<Longrightarrow> set_consumer i c s = s"
  by (auto simp: consumer_updates intro!: cluster.equality)

lemma cluster_statements:
  assumes "consumer_at s i = In_Transaction tx"
    and "\<And>tx j other. j \<noteq> i \<Longrightarrow> consumer_at s j = In_Transaction other \<Longrightarrow> \<not> waits_for env tx other"
    and "run_statements lib env (cl_db s) n tx = Inr tx'"
  shows "(cluster_step lib key)\<^sup>*\<^sup>* s (set_consumer i (In_Transaction tx') s)"
  using assms
proof (induction n arbitrary: s tx)
  case 0
  then show ?case by (simp add: set_consumer_same)
next
  case (Suc n)
  from Suc.prems(3) obtain tx1 where stmt: "txn_statement lib env (cl_db s) tx = Inr tx1"
    and rest: "run_statements lib env (cl_db s) n tx1 = Inr tx'" by auto
  let ?s = "set_consumer i (In_Transaction tx1) s"
  have "(cluster_step lib key)\<^sup>*\<^sup>* ?s (set_consumer i (In_Transaction tx') ?s)"
    using Suc.prems(2) rest by (intro Suc.IH) auto
  moreover have "(cluster_step lib key)\<^sup>*\<^sup>* s ?s"
  proof (cases "ot_phase tx = Finished")
    case True
    with stmt Suc.prems(1) show ?thesis by (simp add: set_consumer_same)
  next
    case False
    from cluster_statement [OF Suc.prems(1) this _ stmt] Suc.prems(2) show ?thesis by blast
  qed
  ultimately show ?case by simp
qed

lemma cluster_transaction:
  assumes "consumer_at s i = In_Transaction (open_transaction payload c (te_now env))"
    and "\<And>tx j other. j \<noteq> i \<Longrightarrow> consumer_at s j = In_Transaction other \<Longrightarrow> \<not> waits_for env tx other"
    and "command_statements lib env (cl_db s) c = Inr db'"
  shows "(cluster_step lib key)\<^sup>*\<^sup>* s ((set_consumer i (Committed payload) s)\<lparr>cl_db := db'\<rparr>)"
proof -
  obtain tx where tx: "run_statements lib env (cl_db s) 4 (open_transaction payload c (te_now env)) = Inr tx"
    "txn_view tx (cl_db s) = db'"
    using run_statements_alone [of lib env "cl_db s" payload c] assms(3) by auto
  let ?s = "set_consumer i (In_Transaction tx) s"
  have "(cluster_step lib key)\<^sup>*\<^sup>* s ?s" using assms(1,2) tx(1) by (rule cluster_statements)
  moreover have "cluster_step lib key ?s (cluster_commit Commit_Done tx i ?s)"
    using run_statements_finished(1) [OF tx(1)] by (intro Commit) simp_all
  moreover have "cluster_commit Commit_Done tx i ?s = (set_consumer i (Committed payload) s)\<lparr>cl_db := db'\<rparr>"
    using run_statements_finished(2) [OF tx(1)] tx(2) by (simp add: cluster_commit_def commit_txn_def open_transaction_def)
  ultimately show ?thesis by simp
qed

section \<open>Sample data: two processes race for one message\<close>

definition sample_race :: "nat \<Rightarrow> cluster \<Rightarrow> cluster" where
  "sample_race i s = set_consumer i (In_Transaction (open_transaction [1] sample_command (te_now sample_txn))) s"

definition sample_cluster :: cluster where
  "sample_cluster = start_cluster (\<lambda>_. sample_boundary)"

lemma sample_statements:
  obtains db where "command_statements sample_http_lib sample_txn empty_database sample_command = Inr db"
    "command_statements sample_http_lib sample_txn db sample_command = Inr db" "length (db_inbox db) = 1"
proof -
  have "\<exists>u alerts payload. uuid_parse_str sample_http_lib (oe_actor_subject (ac_operation sample_command)) = Some u
    \<and> read_alerts sample_http_lib True empty_database \<lparr>va_subject = u, va_product_tenant = rs ''embedded-alerts''\<rparr> = Ok alerts
    \<and> stored_payload sample_http_lib (reply_envelope (te_new_id sample_txn) sample_command
        \<lparr>or_operation_id = ac_correlation_id sample_command, or_status = rs ''completed'',
         or_result = Some (alerts_to_json sample_http_lib alerts), or_error = None\<rparr>) = Some payload
    \<and> process_command sample_http_lib sample_txn empty_database sample_command
      = (Ok (), command_effect sample_http_lib sample_txn sample_command 1 u payload empty_database)"
    by (rule process_new_command [OF jet_inv_empty db_invar_empty sample_http_accepts sample_command_new])
       (use sample_command_decodes(2) in \<open>simp_all add: sample_txn_def empty_database_def sample_http_fields sample_http_payload\<close>)
  then obtain u payload where p: "process_command sample_http_lib sample_txn empty_database sample_command
      = (Ok (), command_effect sample_http_lib sample_txn sample_command 1 u payload empty_database)" by blast
  let ?db = "command_effect sample_http_lib sample_txn sample_command 1 u payload empty_database"
  have env: "te_begin sample_txn" "te_commit sample_txn = Commit_Done" "te_inbox sample_txn" by (simp_all add: sample_txn_def)
  have first: "command_statements sample_http_lib sample_txn empty_database sample_command = Inr ?db"
    using p env by (auto simp: process_command_def split: sum.splits)
  have inv: "jet_inv ?db" and rec: "command_recorded sample_command ?db"
    using process_command_inv(1,2) [OF jet_inv_empty p] by simp_all
  have "inbox_check (inbox_values sample_txn sample_command 1)"
    using accepted_command_checks(1) [OF sample_http_accepts] .
  then have "insert_inbox (inbox_values sample_txn sample_command 1) ?db = Some (0, ?db)"
    using rec by (simp add: insert_inbox_values)
  then have "command_statements sample_http_lib sample_txn ?db sample_command = Inr ?db"
    using env sample_command_decodes(2) by (simp add: command_statements_def Let_def sample_http_fields)
  moreover have "length (db_inbox ?db) = 1" by (simp add: command_effect_def Let_def empty_database_def)
  ultimately show ?thesis using that first by blast
qed

lemma sample_receive:
  assumes "app_auth (rp_app (cl_replicas s i)) = sample_boundary" and "consumer_at s i = Idle"
  shows "cluster_step sample_http_lib sample_key s (sample_race i s)"
proof -
  have "pol_product_tenant (ab_policy sample_boundary) = rs ''embedded-alerts''"
    by (simp add: sample_boundary_def sample_policy_def)
  moreover have "receive_message sample_http_lib (rs ''embedded-alerts'') sample_key sample_delivery [1]
      = In_Transaction (open_transaction [1] sample_command (te_now sample_txn))"
    using sample_command_decodes(1) sample_clock_ms sample_http_accepts
    by (simp add: receive_message_def sample_delivery_def MAX_NATS_PAYLOAD_BYTES_def sample_http_fields)
       (simp add: sample_txn_def)
  ultimately show ?thesis
    using Receive [OF assms(2) refl, of sample_http_lib sample_key sample_delivery "[1]"] assms(1)
    by (simp add: sample_race_def)
qed

definition sample_raced :: cluster where
  "sample_raced = sample_race 1 (sample_race 0 sample_cluster)"

lemma sample_raced_run: "(cluster_step sample_http_lib sample_key)\<^sup>*\<^sup>* sample_cluster sample_raced"
proof -
  have start: "app_auth (rp_app (cl_replicas sample_cluster i)) = sample_boundary" "consumer_at sample_cluster i = Idle" for i
    by (simp_all add: sample_cluster_def start_cluster_def consumer_at_def)
  have "cluster_step sample_http_lib sample_key sample_cluster (sample_race 0 sample_cluster)"
    using start by (rule sample_receive)
  moreover have "app_auth (rp_app (cl_replicas (sample_race 0 sample_cluster) 1)) = sample_boundary"
    "consumer_at (sample_race 0 sample_cluster) 1 = Idle"
    using start(1) [of 1] start(2) [of 1] by (simp_all add: sample_race_def consumer_updates)
  then have "cluster_step sample_http_lib sample_key (sample_race 0 sample_cluster) sample_raced"
    unfolding sample_raced_def by (rule sample_receive)
  ultimately show ?thesis by simp
qed

lemma sample_raced_state:
  "consumer_at sample_raced i = (if i < 2 then In_Transaction (open_transaction [1] sample_command (te_now sample_txn)) else Idle)"
  "cl_db sample_raced = empty_database" "cl_acked sample_raced = []"
  by (auto simp: sample_raced_def sample_race_def sample_cluster_def start_cluster_def consumer_updates)

lemma open_transaction_not_waited: "\<not> waits_for env tx (open_transaction p c now)"
  by (simp add: waits_for_def open_transaction_def split: txn_phase.split)

text \<open>Both processes receive the message, the first records and answers it, the second finds it recorded.\<close>

lemma sample_race_run:
  obtains s where "(cluster_step sample_http_lib sample_key)\<^sup>*\<^sup>* sample_cluster s"
    "length (db_inbox (cl_db s)) = 1" "cl_acked s = [[1], [1]]"
proof -
  obtain db where db: "command_statements sample_http_lib sample_txn empty_database sample_command = Inr db"
    "command_statements sample_http_lib sample_txn db sample_command = Inr db" "length (db_inbox db) = 1"
    by (rule sample_statements)
  let ?step = "cluster_step sample_http_lib sample_key"
  let ?s3 = "(set_consumer 0 (Committed [1]) sample_raced)\<lparr>cl_db := db\<rparr>"
  let ?s4 = "(set_consumer 1 (Committed [1]) ?s3)\<lparr>cl_db := db\<rparr>"
  let ?s5 = "cluster_ack True [1] 0 ?s4"
  let ?s6 = "cluster_ack True [1] 1 ?s5"
  have 3: "?step\<^sup>*\<^sup>* sample_raced ?s3"
    by (rule cluster_transaction)
       (use db(1) open_transaction_not_waited in \<open>auto simp: sample_raced_state split: if_splits\<close>)
  have 4: "?step\<^sup>*\<^sup>* ?s3 ?s4"
    by (rule cluster_transaction) (use db(2) in \<open>auto simp: sample_raced_state split: if_splits\<close>)
  have 5: "?step ?s4 ?s5" by (rule Ack) simp
  have 6: "?step ?s5 ?s6" by (rule Ack) (simp add: cluster_ack_def)
  have "?step\<^sup>*\<^sup>* sample_cluster ?s6"
    using sample_raced_run 3 4 5 6 by (meson rtranclp.rtrancl_into_rtrancl rtranclp_trans)
  moreover have "length (db_inbox (cl_db ?s6)) = 1" "cl_acked ?s6 = [[1], [1]]"
    using db(3) by (simp_all add: cluster_ack_def sample_raced_state)
  ultimately show ?thesis using that by blast
qed

text \<open>The first process has recorded the command, the second waits.\<close>

lemma sample_waiting:
  obtains tx where "(cluster_step sample_http_lib sample_key)\<^sup>*\<^sup>* sample_cluster (set_consumer 0 (In_Transaction tx) sample_raced)"
    "ot_outbox tx = None" "\<exists>r. ot_inbox tx = Some r \<and> row_of_command sample_command r"
proof -
  let ?tx = "open_transaction [1] sample_command (te_now sample_txn)"
  obtain db where "command_statements sample_http_lib sample_txn empty_database sample_command = Inr db"
    by (rule sample_statements)
  then obtain tx where tx: "txn_statement sample_http_lib sample_txn empty_database ?tx = Inr tx"
    using run_statements_alone [of sample_http_lib sample_txn empty_database "[1]" sample_command]
    by (auto simp: run_statements_4)
  have "cluster_step sample_http_lib sample_key sample_raced (set_consumer 0 (In_Transaction tx) sample_raced)"
    by (rule cluster_statement)
       (use tx open_transaction_not_waited in \<open>auto simp: sample_raced_state open_transaction_def split: if_splits\<close>)
  with sample_raced_run have run: "(cluster_step sample_http_lib sample_key)\<^sup>*\<^sup>* sample_cluster (set_consumer 0 (In_Transaction tx) sample_raced)"
    by simp
  have slice: "command_from_slice sample_http_lib [1] = Some sample_command"
    using sample_command_decodes(1) by (simp add: sample_http_fields)
  note st = txn_statement_ok [OF open_transaction_ok(1) [OF slice] jet_inv_empty tx]
  have "ot_phase tx \<noteq> Opened" using txn_statement_advances(1) [OF tx] by (auto simp: phase_number_def)
  then have "ot_inbox tx \<noteq> None"
    using st sample_command_new by (auto simp: txn_ok_def txn_phase_ok_def open_transaction_def split: txn_phase.splits)
  then show ?thesis
    using that [OF run] st by (auto simp: txn_ok_def txn_writes_ok_def open_transaction_def)
qed

section \<open>Properties\<close>

text \<open>
  C14. Any number of processes implements the ledger: however the requests, statements, commits,
  acknowledgements, publications, failures and restarts of the processes are interleaved, the
  tables and what the broker has seen are those of a ledger that answers each command once, sends
  answers only, settles a reply only after it was sent and acknowledges answered commands only.
\<close>

theorem cluster_implements_ledger:
  assumes "store_laws lib" and "(cluster_step lib key)\<^sup>*\<^sup>* (start_cluster ab) s"
  shows "(ledger_step lib)\<^sup>*\<^sup>* empty_ledger (cluster_ledger s)"
  using replicas.run_simulated [OF assms(2) cluster_inv_start [OF assms(1)]]
  by (simp add: cluster_ledger_def start_cluster_def ledger_of_empty)

theorem cluster_implements_ledger_witness:
  "\<exists>s. (cluster_step sample_http_lib sample_key)\<^sup>*\<^sup>* sample_cluster s \<and> cl_acked s = [[1], [1]]
     \<and> (ledger_step sample_http_lib)\<^sup>*\<^sup>* empty_ledger (cluster_ledger s)"
proof -
  obtain s where s: "(cluster_step sample_http_lib sample_key)\<^sup>*\<^sup>* sample_cluster s" "cl_acked s = [[1], [1]]"
    by (rule sample_race_run)
  from cluster_implements_ledger [OF sample_http_laws s(1) [unfolded sample_cluster_def]] s show ?thesis by blast
qed

text \<open>
  C15. A command is answered once and for good, by whichever process came first: from any state the
  processes can reach, whatever they do next, every recorded command keeps the reply it has, no
  other command with one of its identifiers and no other reply to it ever appears, every
  acknowledged message names a recorded command, and a reply marked as published has been sent.
\<close>

theorem commands_are_answered_once:
  assumes "store_laws lib" and "(cluster_step lib key)\<^sup>*\<^sup>* (start_cluster ab) s" and "(cluster_step lib key)\<^sup>*\<^sup>* s t"
    and "(c, r) \<in> set (lg_answers (cluster_ledger s))"
  shows "(c, r) \<in> set (lg_answers (cluster_ledger t)) \<and> answers c r
    \<and> (\<forall>(c', r') \<in> set (lg_answers (cluster_ledger t)). ib_event_id c' = ib_event_id c
         \<or> ib_correlation_id c' = ib_correlation_id c \<or> ib_dedupe_key c' = ib_dedupe_key c \<longrightarrow> c' = c \<and> r' = r)
    \<and> (\<forall>p \<in> set (cl_acked t). \<exists>d. command_from_slice lib p = Some d \<and> command_recorded d (cl_db t))
    \<and> (\<forall>q \<in> set (db_outbox (cl_db t)). ob_published_at q \<noteq> None \<longrightarrow> (\<exists>m \<in> set (cl_log t). outbox_message lib q = Some m))"
proof -
  have run: "(ledger_step lib)\<^sup>*\<^sup>* empty_ledger (cluster_ledger s)"
    using replicas.run_simulated [OF assms(2) cluster_inv_start [OF assms(1)]]
    by (simp add: cluster_ledger_def start_cluster_def ledger_of_empty)
  have inv_s: "cluster_inv lib s" using assms(2) cluster_inv_start [OF assms(1)] by (rule replicas.run_inv)
  have st: "(ledger_step lib)\<^sup>*\<^sup>* (cluster_ledger s) (cluster_ledger t)" using assms(3) inv_s by (rule replicas.run_simulated)
  have inv: "ledger_inv lib (cluster_ledger s)" using run ledger_inv_empty by (rule ledger_run.run_inv)
  have inv': "ledger_inv lib (cluster_ledger t)" using st inv by (rule ledger_run.run_inv)
  have jet: "jet_inv (cl_db t)" using replicas.run_inv [OF assms(3) inv_s] by (rule cluster_invD)
  have kept: "(c, r) \<in> set (lg_answers (cluster_ledger t))"
    using ledger_run_grows [OF st inv] assms(4) by (auto simp: ledger_facts_def)
  moreover have "answers c r" using inv assms(4) by (auto simp: ledger_inv_def)
  moreover have "c' = c \<and> r' = r" if "(c', r') \<in> set (lg_answers (cluster_ledger t))"
    "ib_event_id c' = ib_event_id c \<or> ib_correlation_id c' = ib_correlation_id c \<or> ib_dedupe_key c' = ib_dedupe_key c" for c' r'
    using ledger_entries_unique [OF inv' that(1) kept that(2)] by simp
  moreover have "\<exists>d. command_from_slice lib p = Some d \<and> command_recorded d (cl_db t)" if "p \<in> set (cl_acked t)" for p
    using inv' that ledger_of_knows [OF jet] by (fastforce simp: ledger_inv_def cluster_ledger_def ledger_of_def)
  moreover have "\<exists>m \<in> set (cl_log t). outbox_message lib q = Some m"
    if "q \<in> set (db_outbox (cl_db t))" "ob_published_at q \<noteq> None" for q
    using ledger_of_settled [OF inv' [unfolded cluster_ledger_def] jet that] .
  ultimately show ?thesis by blast
qed

theorem commands_are_answered_once_witness:
  "\<exists>s c r. (cluster_step sample_http_lib sample_key)\<^sup>*\<^sup>* sample_cluster s \<and> cl_acked s = [[1], [1]]
     \<and> lg_answers (cluster_ledger s) = [(c, r)] \<and> answers c r
     \<and> (\<forall>p \<in> set (cl_acked s). \<exists>d. command_from_slice sample_http_lib p = Some d \<and> command_recorded d (cl_db s))"
proof -
  obtain s where s: "(cluster_step sample_http_lib sample_key)\<^sup>*\<^sup>* sample_cluster s" "length (db_inbox (cl_db s)) = 1"
    "cl_acked s = [[1], [1]]"
    by (rule sample_race_run)
  note run = s(1) [unfolded sample_cluster_def]
  have "jet_inv (cl_db s)" using replicas.run_inv [OF run cluster_inv_start [OF sample_http_laws]] by (rule cluster_invD)
  then have "length (lg_answers (cluster_ledger s)) = 1"
    using s(2) jet_inv_lengths by (simp add: cluster_ledger_def ledger_of_def)
  then obtain c r where cr: "lg_answers (cluster_ledger s) = [(c, r)]" by (auto simp: length_Suc_conv)
  then have "(c, r) \<in> set (lg_answers (cluster_ledger s))" by simp
  from commands_are_answered_once [OF sample_http_laws run rtranclp.rtrancl_refl this] s cr show ?thesis by blast
qed

text \<open>
  C16. Waiting is short: if a process waits for a key that another process has written, it is at the
  first statement of its transaction, and the transaction it waits for does not wait for anybody.
  So there is no deadlock between the processes, and no chain of waiting processes, provided that
  the identifiers of replies are fresh.
\<close>

theorem waiting_is_short:
  assumes "store_laws lib" and "(cluster_step lib key)\<^sup>*\<^sup>* (start_cluster ab) s"
    and "consumer_at s i = In_Transaction tx" and "consumer_at s j = In_Transaction other" and "i \<noteq> j"
    and "waits_for env tx other" and "fresh_reply_id env s" and "fresh_reply_id env' s"
  shows "ot_phase tx = Opened \<and> ot_inbox other \<noteq> None \<and> \<not> blocked env' s j other"
proof -
  have inv: "cluster_inv lib s" using assms(2) cluster_inv_start [OF assms(1)] by (rule replicas.run_inv)
  have "blocked env s i tx" using assms(4-6) by (auto simp: blocked_def)
  then have "ot_inbox tx = None" using recorded_never_waits [OF inv assms(3) _ assms(7)] by blast
  with cluster_invD(5) [OF inv assms(3)] assms(6) have "ot_phase tx = Opened"
    by (auto simp: txn_ok_def txn_phase_ok_def waits_for_def split: txn_phase.splits)
  moreover from this assms(6) have "ot_inbox other \<noteq> None" by (simp add: waits_for_def split: option.splits)
  moreover from this have "\<not> blocked env' s j other" using recorded_never_waits [OF inv assms(4) _ assms(8)] by blast
  ultimately show ?thesis by blast
qed

theorem waiting_is_short_witness:
  "\<exists>s tx other. (cluster_step sample_http_lib sample_key)\<^sup>*\<^sup>* sample_cluster s
     \<and> consumer_at s 1 = In_Transaction tx \<and> consumer_at s 0 = In_Transaction other
     \<and> waits_for sample_txn tx other \<and> \<not> blocked sample_txn s 0 other"
proof -
  let ?tx = "open_transaction [1] sample_command (te_now sample_txn)"
  obtain other r where run: "(cluster_step sample_http_lib sample_key)\<^sup>*\<^sup>* sample_cluster
      (set_consumer 0 (In_Transaction other) sample_raced)"
    and r: "ot_outbox other = None" "ot_inbox other = Some r" "row_of_command sample_command r"
    using sample_waiting by blast
  let ?s = "set_consumer 0 (In_Transaction other) sample_raced"
  have cons: "consumer_at ?s 1 = In_Transaction ?tx" "consumer_at ?s 0 = In_Transaction other"
    by (simp_all add: sample_raced_state)
  have waits: "waits_for sample_txn ?tx other"
    using r by (simp add: waits_for_def open_transaction_def row_of_command_def)
  have fresh: "fresh_reply_id sample_txn ?s"
    using r(1) by (auto simp: fresh_reply_id_def sample_raced_state open_transaction_def split: if_splits)
  from waiting_is_short [OF sample_http_laws run [unfolded sample_cluster_def] cons _ waits fresh fresh] run cons waits
  show ?thesis by force
qed

end
