(* ===== verification/Delivery.thy ===== *)
theory Delivery
  imports Transaction "HOL-Library.Stream"
begin

text \<open>
  The life of the JetStream transport of \<open>src/src/transport.rs\<close> from its start to its end:
  \<open>run_jetstream\<close> on an unbounded sequence of deliveries, when it returns and with what, and what
  becomes of a command whose first attempt failed, given the consumer's configuration and the
  behaviour of PostgreSQL transactions.
\<close>

section \<open>The transport as a whole\<close>

text \<open>
  The loop over the deliveries, which never end by themselves; \<open>None\<close> in the sequence is the end of
  the subscription, \<open>None\<close> as the result means that the loop does not return.
\<close>

partial_function (option) consume_stream ::
  "'x wire_lib_scheme \<Rightarrow> rstring \<Rightarrow> u8 list \<Rightarrow> delivery option stream \<Rightarrow> database \<Rightarrow> (string \<times> database) option" where
  "consume_stream lib tenant key ds db =
     (case shd ds of
        None \<Rightarrow> Some (''JetStream command delivery ended'', db)
      | Some Delivery_Error \<Rightarrow> Some (''JetStream command delivery failed'', db)
      | Some (Message env payload) \<Rightarrow>
          (case handle_message lib tenant key env db payload of
             (Stopped e, db') \<Rightarrow> Some (e, db')
           | (_, db') \<Rightarrow> consume_stream lib tenant key (stl ds) db'))"

text \<open>
  The setup comes first; the publisher is started as a task of its own before the subscription. The
  result says whether it was started, and the error with which the consumer returned, with the
  tables then, if it did. What a started publisher does is the \<open>publisher_loop\<close>.
\<close>

definition run_jetstream ::
  "'x wire_lib_scheme \<Rightarrow> setup_env \<Rightarrow> rstring \<Rightarrow> u8 list \<Rightarrow> delivery option stream \<Rightarrow> database
     \<Rightarrow> bool \<times> (string \<times> database) option" where
  "run_jetstream lib env tenant key ds db =
     (case setup_jetstream (env\<lparr>su_messages := True\<rparr>) of
        Inl e \<Rightarrow> (False, Some (e, db))
      | Inr _ \<Rightarrow>
          (True, if su_messages env then consume_stream lib tenant key ds db
                 else Some (''JetStream command delivery is unavailable'', db)))"

section \<open>When the consumer returns\<close>

text \<open>Whether the loop ends within the given deliveries.\<close>

fun stops_within :: "'x wire_lib_scheme \<Rightarrow> rstring \<Rightarrow> u8 list \<Rightarrow> delivery option list \<Rightarrow> database \<Rightarrow> bool" where
  "stops_within lib tenant key [] db = False"
| "stops_within lib tenant key (Some (Message env payload) # ds) db =
     (case handle_message lib tenant key env db payload of
        (Stopped _, _) \<Rightarrow> True
      | (_, db') \<Rightarrow> stops_within lib tenant key ds db')"
| "stops_within lib tenant key (_ # ds) db = True"

definition delivered :: "delivery option list \<Rightarrow> delivery list" where
  "delivered ds = map the (takeWhile (\<lambda>d. d \<noteq> None) ds)"

lemma delivered_simps [simp]:
  "delivered [] = []" "delivered (None # ds) = []" "delivered (Some d # ds) = d # delivered ds"
  by (simp_all add: delivered_def)

lemma consume_stream_stops:
  "stops_within lib tenant key (stake n ds) db \<Longrightarrow>
     consume_stream lib tenant key ds db = Some (snd (run_messages lib tenant key db (delivered (stake n ds))))"
proof (induction n arbitrary: ds db)
  case (Suc n)
  show ?case
  proof (cases "shd ds")
    case None
    then show ?thesis by (simp add: consume_stream.simps)
  next
    case (Some d)
    show ?thesis
    proof (cases d)
      case Delivery_Error
      with Some show ?thesis by (simp add: consume_stream.simps)
    next
      case (Message env payload)
      obtain dp db' where h: "handle_message lib tenant key env db payload = (dp, db')" by fastforce
      show ?thesis
      proof (cases dp)
        case (Stopped e)
        with Some Message h show ?thesis by (simp add: consume_stream.simps)
      next
        case Acked
        with Suc Some Message h show ?thesis by (simp add: consume_stream.simps split: prod.split)
      next
        case Terminated
        with Suc Some Message h show ?thesis by (simp add: consume_stream.simps split: prod.split)
      qed
    qed
  qed
qed simp

lemma consume_stream_returns:
  assumes "consume_stream lib tenant key ds db = Some r"
  shows "\<exists>n. stops_within lib tenant key (stake n ds) db"
proof (rule consume_stream.raw_induct [where P = "\<lambda>lib tenant key ds db r. \<exists>n. stops_within lib tenant key (stake n ds) db", OF _ assms])
  fix f and lib :: "'a wire_lib_scheme" and tenant key ds db r
  assume IH: "\<And>lib tenant key ds db r. f lib tenant key ds db = Some r \<Longrightarrow> \<exists>n. stops_within lib tenant key (stake n ds) db"
    and eq: "(case shd ds of
        None \<Rightarrow> Some (''JetStream command delivery ended'', db)
      | Some Delivery_Error \<Rightarrow> Some (''JetStream command delivery failed'', db)
      | Some (Message env payload) \<Rightarrow>
          (case handle_message lib tenant key env db payload of
             (Stopped e, db') \<Rightarrow> Some (e, db')
           | (_, db') \<Rightarrow> f lib tenant key (stl ds) db')) = Some r"
  show "\<exists>n. stops_within lib tenant key (stake n ds) db"
  proof (cases "stops_within lib tenant key [shd ds] db")
    case True
    then have "stops_within lib tenant key (stake 1 ds) db" by simp
    then show ?thesis by blast
  next
    case False
    then obtain env payload d db' where m: "shd ds = Some (Message env payload)"
      "handle_message lib tenant key env db payload = (d, db')" "\<forall>e. d \<noteq> Stopped e"
      by (cases "shd ds"; cases "the (shd ds)") (auto split: prod.splits disposition.splits)
    with eq have "f lib tenant key (stl ds) db' = Some r" by (auto split: disposition.splits)
    from IH [OF this] obtain n where "stops_within lib tenant key (stake n (stl ds)) db'" by blast
    with m have "stops_within lib tenant key (stake (Suc n) ds) db" by (cases d) simp_all
    then show ?thesis by blast
  qed
qed

section \<open>A failed query inside the transaction\<close>

text \<open>
  PostgreSQL refuses every statement of a transaction after one of them has failed: if the query
  for the alerts fails, the insertion of the reply fails too.
\<close>

definition aborted_after_failure :: "txn_env \<Rightarrow> bool" where
  "aborted_after_failure env \<longleftrightarrow> (te_read env = Read_Fails \<longrightarrow> \<not> te_outbox env)"

text \<open>The reply of a query that succeeded.\<close>

definition completed_reply :: "'x wire_lib_scheme \<Rightarrow> uuid \<Rightarrow> alert_rule list \<Rightarrow> operation_reply" where
  "completed_reply lib i alerts =
     \<lparr>or_operation_id = i, or_status = rs ''completed'', or_result = Some (alerts_to_json lib alerts), or_error = None\<rparr>"

lemma query_reply_available:
  assumes "db_invar lib db" and "te_read env \<noteq> Read_Fails"
  shows "query_reply lib env db actor i = error_reply i ''timeout''
    \<or> (\<exists>alerts. read_alerts lib True db actor = Inr alerts \<and> query_reply lib env db actor i = completed_reply lib i alerts)"
proof (cases "te_read env")
  case Read_Answers
  obtain alerts where "read_alerts lib True db actor = Inr alerts" using read_alerts_succeeds [OF assms(1)] by blast
  with Read_Answers show ?thesis by (simp add: query_reply_def completed_reply_def)
qed (use assms(2) in \<open>simp_all add: query_reply_def error_reply_def\<close>)

lemma failed_outbox_stores_nothing:
  assumes "\<not> te_outbox env" and "\<not> command_recorded c db"
  shows "command_statements lib env db c \<noteq> Inr db'"
proof
  assume "command_statements lib env db c = Inr db'"
  then show False
  proof (cases rule: command_statements_cases)
    case (duplicate s n)
    with assms(2) show False by (auto simp: insert_inbox_values)
  next
    case (fresh s u db1 reply db2 m)
    with assms(1) show False by (simp add: enqueue_reply_def Let_def)
  qed
qed

section \<open>Sample data\<close>

definition sample_setup :: setup_env where
  "sample_setup = \<lparr>su_connect = True, su_stream = (\<lambda>_. True), su_consumer = (\<lambda>_. True), su_messages = True\<rparr>"

text \<open>The database cannot begin a transaction when the command arrives.\<close>

definition sample_outage :: delivery where
  "sample_outage = Message (sample_delivery\<lparr>me_txn := sample_txn\<lparr>te_begin := False\<rparr>\<rparr>) [1]"

definition sample_later :: message_env where
  "sample_later = sample_delivery\<lparr>me_clock := sample_clock + 30000000000\<rparr>"

section \<open>Properties\<close>



text \<open>
  C21. A command is not tried again: the consumer asks for redelivery after thirty seconds without
  an acknowledgement, and a deadline is at most fifteen seconds ahead. So if a command passed the
  checks less than fifteen seconds after its delivery, its redelivery is refused and terminated,
  whatever became of the first attempt, and the tables stay as they are.
\<close>

theorem redelivered_command_is_expired:
  fixes delivered_at :: u64
  assumes "\<not> command_refused lib tenant key now c" and "unat now < unat delivered_at + 15000"
    and "unat delivered_at + 1000 * cc_ack_wait_secs command_consumer_config \<le> unat redelivered_at"
    and "command_from_slice lib payload = Some c" and "unix_ms (me_clock env) = Some redelivered_at"
  shows "handle_message lib tenant key env db payload = (terminate_message env, db)"
proof -
  have "unat (oe_deadline_unix_ms (ac_operation c)) < unat redelivered_at"
    using accepted_command(10) [OF assms(1)] assms(2,3) by (simp add: command_consumer_config_def)
  then have "command_refused lib tenant key redelivered_at c"
    using accepted_command(9) [of lib tenant key redelivered_at c] by (meson linorder_not_le)
  with assms(4,5) show ?thesis by (simp add: handle_message_def)
qed

theorem redelivered_command_is_expired_witness:
  "handle_message sample_wire_lib (rs ''embedded-alerts'') sample_key sample_later empty_database [1] = (Terminated, empty_database)"
proof -
  have "unix_ms (me_clock sample_later) = Some 2000000032000"
    by (simp add: unix_ms_def duration_since_epoch_def sample_later_def sample_delivery_def sample_clock_def
        u64_try_from_or_max_def nat_div_distrib)
  from redelivered_command_is_expired [OF sample_command_accepted, of 2000000002000 2000000032000 "[1]" sample_later empty_database]
    this sample_command_decodes(1)
  show ?thesis by (simp add: command_consumer_config_def terminate_message_def sample_later_def sample_delivery_def)
qed

text \<open>
  C22. A database error during the query is never answered: although the code makes a reply with the
  error \<open>unavailable\<close>, it cannot store it in the transaction that failed. For a new command, and
  tables whose stored alerts decode, the transaction then ends with an error and changes nothing;
  and whenever it changes the tables, exactly one row is added to the outbox, whose payload is the
  envelope of a reply that carries the owner's alerts or reports a timeout.
\<close>

theorem failed_query_is_not_answered:
  assumes "jet_inv db" and "db_invar lib db" and "aborted_after_failure env" and "\<not> command_recorded c db"
    and "process_command lib env db c = (r, db')"
  shows "(te_read env = Read_Fails \<longrightarrow> r \<noteq> Ok () \<and> db' = db)
    \<and> (db' \<noteq> db \<longrightarrow> (\<exists>u row reply. uuid_parse_str lib (oe_actor_subject (ac_operation c)) = Some u
         \<and> db_outbox db' = db_outbox db @ [row]
         \<and> stored_payload lib (reply_envelope (te_new_id env) c reply) = Some (ob_payload row)
         \<and> (reply = error_reply (ac_correlation_id c) ''timeout''
            \<or> (\<exists>alerts. read_alerts lib True db \<lparr>va_subject = u, va_product_tenant = ac_product_tenant c\<rparr> = Ok alerts
                 \<and> reply = completed_reply lib (ac_correlation_id c) alerts))))"
proof -
  have failed: "r \<noteq> Ok () \<and> db' = db" if "te_read env = Read_Fails"
  proof -
    have "\<not> te_outbox env" using that assms(3) by (simp add: aborted_after_failure_def)
    then have "\<exists>e. command_statements lib env db c = Inl e"
      using failed_outbox_stores_nothing [OF _ assms(4)] by (metis sum.exhaust)
    with assms(5) show ?thesis by (auto simp: process_command_def split: if_splits)
  qed
  moreover have "\<exists>u row reply. uuid_parse_str lib (oe_actor_subject (ac_operation c)) = Some u
      \<and> db_outbox db' = db_outbox db @ [row]
      \<and> stored_payload lib (reply_envelope (te_new_id env) c reply) = Some (ob_payload row)
      \<and> (reply = error_reply (ac_correlation_id c) ''timeout''
         \<or> (\<exists>alerts. read_alerts lib True db \<lparr>va_subject = u, va_product_tenant = ac_product_tenant c\<rparr> = Ok alerts
              \<and> reply = completed_reply lib (ac_correlation_id c) alerts))" if changed: "db' \<noteq> db"
  proof (cases rule: process_command_cases [OF assms(1,5)])
    case 1
    with changed show ?thesis by blast
  next
    case (2 s u payload)
    let ?db1 = "db\<lparr>db_inbox := db_inbox db @ [inbox_values env c s]\<rparr>"
    let ?reply = "command_reply lib env c s u db"
    have "insert_inbox (inbox_values env c s) db = Some (1, ?db1)" using 2(1,4) by (simp add: insert_inbox_values)
    then have "db_invar lib ?db1" using assms(2) insert_inbox_wf by (auto simp: db_invar_def)
    moreover have "te_read env \<noteq> Read_Fails" using failed changed by blast
    moreover have "read_alerts lib True ?db1 actor = read_alerts lib True db actor" for actor
      by (simp add: read_alerts_def direct_alerts_def)
    ultimately have reply: "?reply = error_reply (ac_correlation_id c) ''timeout''
        \<or> (\<exists>alerts. read_alerts lib True db \<lparr>va_subject = u, va_product_tenant = ac_product_tenant c\<rparr> = Ok alerts
             \<and> ?reply = completed_reply lib (ac_correlation_id c) alerts)"
      using query_reply_available [of lib ?db1 env] unfolding command_reply_def by fastforce
    let ?row = "outbox_values env c (reply_envelope (te_new_id env) c ?reply) payload"
    have "db_outbox db' = db_outbox db @ [?row]"
      using 2(6) by (simp add: command_effect_def command_reply_def Let_def)
    moreover have "stored_payload lib (reply_envelope (te_new_id env) c ?reply) = Some (ob_payload ?row)"
      using 2(9) by (simp add: outbox_values_def)
    ultimately show ?thesis using 2(3) reply by (intro exI [of _ u] exI [of _ ?row] exI [of _ ?reply]) blast
  qed
  ultimately show ?thesis by blast
qed

theorem failed_query_is_not_answered_witness:
  "\<exists>e. process_command sample_wire_lib (sample_txn\<lparr>te_read := Read_Fails, te_outbox := False\<rparr>) empty_database sample_command
     = (Err e, empty_database)"
proof -
  let ?env = "sample_txn\<lparr>te_read := Read_Fails, te_outbox := False\<rparr>"
  obtain r db' where run: "process_command sample_wire_lib ?env empty_database sample_command = (r, db')" by fastforce
  have "aborted_after_failure ?env" by (simp add: aborted_after_failure_def)
  from failed_query_is_not_answered [OF jet_inv_empty db_invar_empty this sample_command_new run]
  have "r \<noteq> Ok ()" "db' = empty_database" by simp_all
  with run show ?thesis by (cases r) simp_all
qed

end
