(* ===== verification/Cli_Contract.thy ===== *)
theory Cli_Contract
  imports Startup
begin

text \<open>
  The command-line contract \<open>src/.cli-flags.toml\<close>, which \<open>src/src/flags.rs\<close> compiles in, as data, and
  how it fits the program: the variables that the start of the server reads are those the contract
  declares or leaves to the environment, the secrets among them have no option, and the help text
  lists every option.
\<close>

section \<open>The contract\<close>

record contract_flag =
  cf_name :: string
  cf_env :: string
  cf_long :: string
  cf_short :: "string option"
  cf_type :: string
  cf_default :: "toml option"
  cf_help :: string

text \<open>The options, in the order of their names, which is the order in which a table is read.\<close>

definition contract_flags :: "contract_flag list" where
  "contract_flags =
     [\<lparr>cf_name = ''api-mtls-bind'', cf_env = ''EAL_API_MTLS_BIND'', cf_long = ''api-mtls-bind'', cf_short = None,
       cf_type = ''string'', cf_default = None, cf_help = ''Optional API mTLS listener address.''\<rparr>,
      \<lparr>cf_name = ''api-tls-cert-file'', cf_env = ''EAL_API_TLS_CERT_FILE'', cf_long = ''api-tls-cert-file'', cf_short = None,
       cf_type = ''string'', cf_default = None, cf_help = ''API TLS certificate-chain file.''\<rparr>,
      \<lparr>cf_name = ''auth-audience'', cf_env = ''EAL_AUTH_AUDIENCE'', cf_long = ''auth-audience'', cf_short = None,
       cf_type = ''string'', cf_default = None, cf_help = ''Expected access-token audience.''\<rparr>,
      \<lparr>cf_name = ''authorized-client'', cf_env = ''EAL_AUTHORIZED_CLIENT'', cf_long = ''authorized-client'', cf_short = None,
       cf_type = ''string'', cf_default = None, cf_help = ''Authorized Shared Auth client identifier.''\<rparr>,
      \<lparr>cf_name = ''help'', cf_env = ''CLI_HELP_REQUESTED'', cf_long = ''help'', cf_short = Some ''h'',
       cf_type = ''boolean'', cf_default = Some (TBoolean False), cf_help = ''Print command-line help.''\<rparr>,
      \<lparr>cf_name = ''host'', cf_env = ''HOST'', cf_long = ''host'', cf_short = None,
       cf_type = ''string'', cf_default = Some (TString (rs ''0.0.0.0'')), cf_help = ''API listener host.''\<rparr>,
      \<lparr>cf_name = ''nats-url'', cf_env = ''NATS_URL'', cf_long = ''nats-url'', cf_short = None,
       cf_type = ''string'', cf_default = None, cf_help = ''Credential-free TLS or loopback NATS URL.''\<rparr>,
      \<lparr>cf_name = ''port'', cf_env = ''PORT'', cf_long = ''port'', cf_short = Some ''p'',
       cf_type = ''integer'', cf_default = Some (TInteger 8080), cf_help = ''API listener port.''\<rparr>,
      \<lparr>cf_name = ''product-tenant'', cf_env = ''EAL_PRODUCT_TENANT'', cf_long = ''product-tenant'', cf_short = None,
       cf_type = ''string'', cf_default = None, cf_help = ''Embedded Alerts product tenant identifier.''\<rparr>,
      \<lparr>cf_name = ''provider-tenant'', cf_env = ''EAL_PROVIDER_TENANT'', cf_long = ''provider-tenant'', cf_short = None,
       cf_type = ''string'', cf_default = None, cf_help = ''Shared Auth provider tenant identifier.''\<rparr>,
      \<lparr>cf_name = ''rust-log'', cf_env = ''RUST_LOG'', cf_long = ''rust-log'', cf_short = None,
       cf_type = ''string'', cf_default = Some (TString (rs ''info,tower_http=info,hyper=warn'')), cf_help = ''Tracing filter.''\<rparr>,
      \<lparr>cf_name = ''shared-auth-base-url'', cf_env = ''SHARED_AUTH_BASE_URL'', cf_long = ''shared-auth-base-url'', cf_short = None,
       cf_type = ''string'', cf_default = None, cf_help = ''Credential-free Shared Auth base URL.''\<rparr>,
      \<lparr>cf_name = ''shared-auth-issuer'', cf_env = ''SHARED_AUTH_ISSUER'', cf_long = ''shared-auth-issuer'', cf_short = None,
       cf_type = ''string'', cf_default = None, cf_help = ''Expected Shared Auth issuer.''\<rparr>,
      \<lparr>cf_name = ''version'', cf_env = ''CLI_VERSION_REQUESTED'', cf_long = ''version'', cf_short = Some ''V'',
       cf_type = ''boolean'', cf_default = Some (TBoolean False), cf_help = ''Print the server version.''\<rparr>,
      \<lparr>cf_name = ''web-client-ca-file'', cf_env = ''EAL_WEB_CLIENT_CA_FILE'', cf_long = ''web-client-ca-file'', cf_short = None,
       cf_type = ''string'', cf_default = None, cf_help = ''Trusted web-client CA file.''\<rparr>]"

text \<open>The variables that stay in the environment and have no option.\<close>

definition contract_ignored :: "string list" where
  "contract_ignored =
     [''DATABASE_URL'', ''SHARED_AUTH_SERVICE_CREDENTIAL'', ''EAL_API_TLS_KEY_FILE'', ''EAL_NATS_COMMAND_HMAC_KEY'']"

definition flag_toml :: "contract_flag \<Rightarrow> toml" where
  "flag_toml f =
     TTable ((case cf_default f of None \<Rightarrow> [] | Some v \<Rightarrow> [(rs ''default'', v)]) @
       [(rs ''env'', TString (rs (cf_env f))), (rs ''help'', TString (rs (cf_help f))),
        (rs ''long'', TString (rs (cf_long f)))] @
       (case cf_short f of None \<Rightarrow> [] | Some s \<Rightarrow> [(rs ''short'', TString (rs s))]) @
       [(rs ''type'', TString (rs (cf_type f)))])"

definition CONTRACT :: toml where
  "CONTRACT = TTable
     [(rs ''env'', TTable [(rs ''ignore'', TArray (map (\<lambda>n. TString (rs n)) contract_ignored))]),
      (rs ''flags'', TTable (map (\<lambda>f. (rs (cf_name f), flag_toml f)) contract_flags)),
      (rs ''help'', TTable
         [(rs ''columns'', TArray (map (\<lambda>n. TString (rs n)) [''options'', ''env'', ''type'', ''default'', ''description''])),
          (rs ''url'', TString (rs ''https://github.com/flags-2-env/flags-2-env''))]),
      (rs ''identity'', TTable
         [(rs ''service'', TString (rs ''eal-api-server'')), (rs ''type_name'', TString (rs ''RuntimeEnv''))]),
      (rs ''parse'', TTable [(rs ''allow_unknown'', TBoolean False)])]"

section \<open>Help\<close>

text \<open>An option's line: its names, a placeholder unless it is a switch, its description and default.\<close>

definition option_text :: "contract_flag \<Rightarrow> rstring" where
  "option_text f =
     (case cf_short f of None \<Rightarrow> rs ''--'' | Some s \<Rightarrow> rs ''-'' @ rs s @ rs '', --'') @ rs (cf_long f) @
     (if cf_type f = ''boolean'' then [] else rs '' <VALUE>'')"

lemma rs_inj: "rs a = rs b \<longleftrightarrow> a = b"
  by (simp add: rs_def inj_map_eq_map inj_def)

lemma flag_toml_fields:
  "toml_table (flag_toml f) \<noteq> None"
  "toml_get (rs ''long'') (flag_toml f) = Some (TString (rs (cf_long f)))"
  "toml_get (rs ''short'') (flag_toml f) = map_option (\<lambda>s. TString (rs s)) (cf_short f)"
  "toml_get (rs ''type'') (flag_toml f) = Some (TString (rs (cf_type f)))"
  "toml_get (rs ''help'') (flag_toml f) = Some (TString (rs (cf_help f)))"
  "toml_get (rs ''default'') (flag_toml f) = cf_default f"
  by (simp_all add: flag_toml_def toml_get_def toml_table_def split: option.split)

lemma help_line_contract:
  assumes "cf_type f \<noteq> ''bool''"
  shows "help_line lib (flag_toml f) = rs ''  '' @ pad_right 28 (option_text f) @ rs '' '' @ rs (cf_help f) @
    (case cf_default f of None \<Rightarrow> [] | Some v \<Rightarrow> rs '' [default: '' @ toml_display lib v @ rs '']'') @ [10]"
  using assms flag_toml_fields(1) [of f]
  unfolding help_line_def flag_toml_fields option_text_def rs_inj
  by (cases "cf_short f"; cases "cf_default f") (auto simp: toml_str_def Let_def rs_inj simp del: rs_simps)

lemma contract_types: "f \<in> set contract_flags \<Longrightarrow> cf_type f \<noteq> ''bool''"
  by (auto simp: contract_flags_def)

lemma help_table_contract:
  assumes "contract_toml lib = Ok CONTRACT"
  shows "help_table lib = Ok (rs ''Usage: '' @ pkg_name lib @ rs '' [OPTIONS]'' @ [10, 10] @ rs ''Options:'' @ [10]
    @ concat (map (\<lambda>f. help_line lib (flag_toml f)) contract_flags))"
  using assms by (simp add: help_table_def CONTRACT_def toml_get_def toml_table_def o_def case_prod_beta)

section \<open>What the start reads\<close>

definition contract_variables :: "string list" where
  "contract_variables = map cf_env contract_flags @ contract_ignored"

lemma contract_variables_eq:
  "set contract_variables = {''EAL_API_MTLS_BIND'', ''EAL_API_TLS_CERT_FILE'', ''EAL_AUTH_AUDIENCE'', ''EAL_AUTHORIZED_CLIENT'',
     ''CLI_HELP_REQUESTED'', ''HOST'', ''NATS_URL'', ''PORT'', ''EAL_PRODUCT_TENANT'', ''EAL_PROVIDER_TENANT'', ''RUST_LOG'',
     ''SHARED_AUTH_BASE_URL'', ''SHARED_AUTH_ISSUER'', ''CLI_VERSION_REQUESTED'', ''EAL_WEB_CLIENT_CA_FILE'', ''DATABASE_URL'',
     ''SHARED_AUTH_SERVICE_CREDENTIAL'', ''EAL_API_TLS_KEY_FILE'', ''EAL_NATS_COMMAND_HMAC_KEY''}"
  by (auto simp: contract_variables_def contract_flags_def contract_ignored_def)

definition same_on :: "string list \<Rightarrow> (rstring \<Rightarrow> rstring option) \<Rightarrow> (rstring \<Rightarrow> rstring option) \<Rightarrow> bool" where
  "same_on names var var' \<longleftrightarrow> (\<forall>n \<in> set names. var (rs n) = var' (rs n))"

text \<open>Each part of the start looks up its own names only.\<close>

lemma auth_from_env_cong:
  assumes "same_on [''SHARED_AUTH_BASE_URL'', ''SHARED_AUTH_SERVICE_CREDENTIAL'', ''SHARED_AUTH_ISSUER'', ''EAL_AUTH_AUDIENCE'',
      ''EAL_AUTHORIZED_CLIENT'', ''EAL_PROVIDER_TENANT'', ''EAL_PRODUCT_TENANT''] var var'"
  shows "auth_from_env lib var = auth_from_env lib var'"
  using assms by (simp add: auth_from_env_def required_env_def same_on_def del: rs_simps cong del: if_weak_cong)

lemma spawn_mtls_from_env_cong:
  assumes "same_on mtls_variables var var'"
  shows "spawn_mtls_from_env tls var bound = spawn_mtls_from_env tls var' bound"
  using assms
  by (simp add: spawn_mtls_from_env_def mtls_from_env_def mtls_variables_def optional_env_def same_on_def
      del: rs_simps cong del: if_weak_cong)

lemma spawn_jetstream_from_env_cong:
  assumes "same_on [''NATS_URL'', ''EAL_NATS_COMMAND_HMAC_KEY''] var var'"
  shows "spawn_jetstream_from_env var st = spawn_jetstream_from_env var' st"
proof -
  have "optional_env var n = optional_env var' n" if "n \<in> {''NATS_URL'', ''EAL_NATS_COMMAND_HMAC_KEY''}" for n
    using assms that by (auto simp: optional_env_def same_on_def simp del: rs_simps)
  then show ?thesis by (simp add: spawn_jetstream_from_env_def required_transport_env_def del: rs_simps cong: option.case_cong)
qed

lemma run_cong:
  assumes "same_on contract_variables var var'"
  shows "run lib tls env var = run lib tls env var'"
proof -
  have same: "same_on names var var'" if "set names \<subseteq> set contract_variables" for names
    using assms that by (auto simp: same_on_def)
  have one: "var (rs n) = var' (rs n)" if "n \<in> set contract_variables" for n using assms that by (simp add: same_on_def)
  have "auth_from_env lib var = auth_from_env lib var'"
    by (rule auth_from_env_cong, rule same) (auto simp: contract_variables_eq)
  moreover have "spawn_mtls_from_env tls var bound = spawn_mtls_from_env tls var' bound" for bound
    by (rule spawn_mtls_from_env_cong, rule same) (auto simp: contract_variables_eq mtls_variables_def)
  moreover have "spawn_jetstream_from_env var st = spawn_jetstream_from_env var' st" for st
    by (rule spawn_jetstream_from_env_cong, rule same) (auto simp: contract_variables_eq)
  moreover have "telemetry_init p i var n = telemetry_init p i var' n" for p i n
    using one [of "''RUST_LOG''"] by (simp add: telemetry_init_def contract_variables_eq del: rs_simps)
  moreover have "connect_database env var = connect_database env var'"
    using one [of "''DATABASE_URL''"] by (simp add: connect_database_def contract_variables_eq del: rs_simps)
  moreover have "var_or var ''HOST'' d = var_or var' ''HOST'' d" "var_or var ''PORT'' d = var_or var' ''PORT'' d" for d
    using one [of "''HOST''"] one [of "''PORT''"] by (simp_all add: var_or_def contract_variables_eq del: rs_simps)
  ultimately show ?thesis unfolding run_def by simp
qed

section \<open>What the parser types\<close>

text \<open>The parser types the variables of the options in the contract it was given, and no other.\<close>

definition types_contract_only :: "flags_lib \<Rightarrow> bool" where
  "types_contract_only lib \<longleftrightarrow>
     (\<forall>raw path typed. coerce lib raw path = Inr typed \<longrightarrow> fst ` set typed \<subseteq> rs ` set (map cf_env contract_flags))"

lemma ignored_is_not_an_option: "n \<in> set contract_ignored \<Longrightarrow> n \<notin> set (map cf_env contract_flags)"
  by (auto simp: contract_ignored_def contract_flags_def)

lemma resolve_from_ignored:
  assumes "types_contract_only lib" and "resolve_from lib argv env_vars = Inr r" and "n \<in> set contract_ignored"
  shows "r (rs n) = map_of (rev env_vars) (rs n)"
proof -
  from assms(2) obtain path p typed where
    typed: "coerce lib (raw_config p (map_of (rev env_vars))) path = Inr typed"
    and r: "insert_typed (map_of (rev env_vars)) typed = Inr r" by (rule resolve_from_Ok)
  from assms(1) typed have "fst ` set typed \<subseteq> rs ` set (map cf_env contract_flags)" by (auto simp: types_contract_only_def)
  moreover have "rs n \<notin> rs ` set (map cf_env contract_flags)"
    using ignored_is_not_an_option [OF assms(3)] by (auto simp: rs_inj simp del: rs_simps)
  ultimately have "rs n \<notin> fst ` set typed" by blast
  with r show ?thesis by (rule insert_typed_other)
qed

section \<open>Sample data\<close>

lemma sample_types_contract_only: "types_contract_only sample_flags_lib"
  by (auto simp: types_contract_only_def sample_flags_lib_def contract_flags_def)

definition help_flags_lib :: flags_lib where
  "help_flags_lib = sample_flags_lib\<lparr>contract_toml := Inr CONTRACT,
     coerce := (\<lambda>raw _. Inr [(rs ''CLI_HELP_REQUESTED'', JBool True)])\<rparr>"

section \<open>Properties\<close>

text \<open>
  The contract covers the configuration: two configurations that give the same values to the
  variables the contract names, those of its options and those it leaves to the environment, start
  the same server or fail with the same error. No other variable is read.
\<close>

theorem contract_covers_the_configuration:
  assumes "same_on (map cf_env contract_flags @ contract_ignored) var var'"
  shows "run lib tls env var = run lib tls env var'"
  using run_cong assms unfolding contract_variables_def by blast

theorem contract_covers_the_configuration_witness:
  "run sample_auth_lib sample_tls sample_run (sample_env(rs ''PATH'' \<mapsto> rs ''/bin''))
     = run sample_auth_lib sample_tls sample_run sample_env"
proof (rule contract_covers_the_configuration)
  have "n \<noteq> ''PATH''" if "n \<in> set contract_variables" for n using that by (auto simp: contract_variables_eq)
  then show "same_on (map cf_env contract_flags @ contract_ignored) (sample_env(rs ''PATH'' \<mapsto> rs ''/bin'')) sample_env"
    unfolding same_on_def contract_variables_def [symmetric] by (simp add: rs_inj del: rs_simps)
qed

text \<open>
  C37. Secrets come from the environment alone: whatever the command line and the files it names
  say, the database address, the service credential, the private key file and the command key are
  the values of the process environment, and the server connects to the database that the
  environment names. The parser is assumed to type only the options of its contract.
\<close>

theorem secrets_come_from_the_environment:
  assumes "types_contract_only lib" and "resolve_from lib argv env_vars = Ok r"
  shows "(\<forall>n \<in> {''DATABASE_URL'', ''SHARED_AUTH_SERVICE_CREDENTIAL'', ''EAL_API_TLS_KEY_FILE'', ''EAL_NATS_COMMAND_HMAC_KEY''}.
      r (rs n) = map_of (rev env_vars) (rs n))
    \<and> connect_database env r = connect_database env (map_of (rev env_vars))"
proof -
  have "r (rs n) = map_of (rev env_vars) (rs n)" if "n \<in> set contract_ignored" for n
    using resolve_from_ignored assms that by blast
  then have *: "\<forall>n \<in> {''DATABASE_URL'', ''SHARED_AUTH_SERVICE_CREDENTIAL'', ''EAL_API_TLS_KEY_FILE'', ''EAL_NATS_COMMAND_HMAC_KEY''}.
      r (rs n) = map_of (rev env_vars) (rs n)" by (simp add: contract_ignored_def del: rs_simps)
  then have "connect_database env r = connect_database env (map_of (rev env_vars))"
    by (simp add: connect_database_def del: rs_simps)
  with * show ?thesis by blast
qed

theorem secrets_come_from_the_environment_witness:
  "\<exists>r. resolve_from sample_flags_lib [rs ''server'', rs ''--port=31337''] [(rs ''PORT'', rs ''1''), (rs ''DATABASE_URL'', rs ''x'')] = Ok r
     \<and> r (rs ''DATABASE_URL'') = Some (rs ''x'')"
proof (intro exI conjI)
  show "resolve_from sample_flags_lib [rs ''server'', rs ''--port=31337''] [(rs ''PORT'', rs ''1''), (rs ''DATABASE_URL'', rs ''x'')]
    = Ok [rs ''PORT'' \<mapsto> rs ''31337'', rs ''DATABASE_URL'' \<mapsto> rs ''x'']" by (rule sample_resolves)
  from secrets_come_from_the_environment [OF sample_types_contract_only this]
  show "[rs ''PORT'' \<mapsto> rs ''31337'', rs ''DATABASE_URL'' \<mapsto> rs ''x''] (rs ''DATABASE_URL'') = Some (rs ''x'')" by simp
qed

text \<open>
  Help documents every option: when the command line or the environment asks for help, the
  server does not start; it prints the usage and, for every option of the contract, its line with
  short and long name, placeholder, description and default.
\<close>

theorem help_documents_every_option:
  assumes "contract_toml lib = Ok CONTRACT" and "resolve_from lib argv env_vars = Ok r"
    and "r (rs ''CLI_HELP_REQUESTED'') = Some (rs ''true'')" and "f \<in> set contract_flags"
  shows "\<exists>before after. fst (main_start lib argv env_vars) = Main_Prints
    (before @ rs ''  '' @ pad_right 28 (option_text f) @ rs '' '' @ rs (cf_help f) @
      (case cf_default f of None \<Rightarrow> [] | Some v \<Rightarrow> rs '' [default: '' @ toml_display lib v @ rs '']'') @ [10] @ after)"
proof -
  from split_list [OF assms(4)] obtain fs gs where flags: "contract_flags = fs @ f # gs" by blast
  obtain u where "help_table lib = Inr (u @ concat (map (\<lambda>f. help_line lib (flag_toml f)) contract_flags))"
    using help_table_contract [OF assms(1)] by (metis append_assoc)
  then obtain before after where "help_table lib = Inr (before @ help_line lib (flag_toml f) @ after)"
    by (simp add: flags) (metis append_assoc)
  then have "fst (main_start lib argv env_vars) = Main_Prints (before @ help_line lib (flag_toml f) @ after)"
    using assms(2,3) by (simp add: main_start_def process_control_def try_resolved_def Let_def del: rs_simps)
  then show ?thesis unfolding help_line_contract [OF contract_types [OF assms(4)]] by (metis append_assoc)
qed

theorem help_documents_every_option_witness:
  "\<exists>before after. fst (main_start help_flags_lib [rs ''server'', rs ''--help''] []) = Main_Prints
     (before @ rs ''  '' @ pad_right 28 (rs ''-h, --help'') @ rs '' Print command-line help. [default: ]'' @ [10] @ after)"
proof -
  let ?f = "contract_flags ! 4"
  have resolves: "resolve_from help_flags_lib [rs ''server'', rs ''--help''] [] = Ok [rs ''CLI_HELP_REQUESTED'' \<mapsto> rs ''true'']"
    by (simp add: resolve_from_def help_flags_lib_def sample_flags_lib_def sample_parsed_def starts_with_def raw_config_def
        scalar_string_def)
  have f: "?f \<in> set contract_flags" by (simp add: contract_flags_def)
  have toml: "contract_toml help_flags_lib = Ok CONTRACT" "\<And>v. toml_display help_flags_lib v = []"
    by (simp_all add: help_flags_lib_def sample_flags_lib_def)
  have shown: "option_text ?f = rs ''-h, --help''" "cf_help ?f = ''Print command-line help.''" "cf_default ?f = Some (TBoolean False)"
    by (simp_all add: contract_flags_def option_text_def)
  show ?thesis using help_documents_every_option [OF toml(1) resolves _ f] unfolding shown toml by simp
qed

end
