(* ===== verification/Repository_Tests.thy ===== *)
theory Repository_Tests
  imports Cli_Contract "HOL-Library.Sublist"
begin

text \<open>
  The repository's own tests, read as statements about the model: the unit tests of the modules
  under \<open>src/src\<close> and the contract tests \<open>src/tests/four_mode_contract.rs\<close>. Each test is a
  definition with the fixture and the assertions of the test, with the libraries as parameters,
  and a lemma that it passes for every library that behaves as documented. Tests of
  JSON encodings, of a logger's output and of the data-plane crate have no counterpart, nor has the
  one that counts the names it lists itself.
\<close>

section \<open>Contract tests\<close>

definition test_claims :: introspection where
  "test_claims =
     \<lparr>in_active = True, in_sub = Some (rs ''00000000-0000-4000-8000-000000000001''),
      in_sid = Some (rs ''00000000-0000-4000-8000-000000000002''),
      in_iss = Some (rs ''https://auth.oresoftware.dev/customer''), in_aud = Some (rs ''embedded-alerts-api''),
      in_azp = Some (rs ''embedded-alerts-web''), in_scope = Some (rs ''embedded-alerts:alerts:read''),
      in_provider_tenant = Some (rs ''embedded-alerts-provider''), in_exp = Some 4000000000, in_nbf = Some 1,
      in_rest = [rs ''tenant_id'' \<mapsto> JString (rs ''embedded-alerts''),
                 rs ''application_id'' \<mapsto> JString (rs ''embedded-alerts-web''),
                 rs ''actor_kind'' \<mapsto> JString (rs ''user'')]\<rparr>"

definition test_policy :: auth_policy where
  "test_policy =
     \<lparr>pol_issuer = rs ''https://auth.oresoftware.dev/customer'', pol_audience = rs ''embedded-alerts-api'',
      pol_authorized_client = rs ''embedded-alerts-web'', pol_provider_tenant = rs ''embedded-alerts-provider'',
      pol_product_tenant = rs ''embedded-alerts''\<rparr>"

definition strict_introspection_binds_product_authorization :: "'x auth_lib_scheme \<Rightarrow> bool" where
  "strict_introspection_binds_product_authorization lib \<longleftrightarrow>
     (case authorize_introspection lib test_claims test_policy (rs ''embedded-alerts:alerts:read'') 2000000000 of
        Inl _ \<Rightarrow> False | Inr actor \<Rightarrow> va_product_tenant actor = rs ''embedded-alerts'') \<and>
     (let wrong_tenant = test_claims\<lparr>in_rest := (in_rest test_claims)(rs ''tenant_id'' \<mapsto> JString (rs ''other''))\<rparr> in
      \<not> is_ok (authorize_introspection lib wrong_tenant test_policy (rs ''embedded-alerts:alerts:read'') 2000000000))"

text \<open>The library reads the UUID of the fixture and finds a scope that is the whole scope claim.\<close>

definition reads_test_claims :: "'x auth_lib_scheme \<Rightarrow> bool" where
  "reads_test_claims lib \<longleftrightarrow>
     uuid_parse_str lib (rs ''00000000-0000-4000-8000-000000000001'') \<noteq> None \<and>
     (\<forall>c s. in_scope c = Some s \<longrightarrow> has_scope lib c s)"

lemma strict_introspection_passes:
  assumes "reads_test_claims lib"
  shows "strict_introspection_binds_product_authorization lib"
proof -
  let ?scope = "rs ''embedded-alerts:alerts:read''"
  obtain i where i: "uuid_parse_str lib (rs ''00000000-0000-4000-8000-000000000001'') = Some i" and s: "has_scope lib test_claims ?scope"
    using assms by (auto simp: reads_test_claims_def test_claims_def simp del: rs_simps)
  let ?actor = "\<lparr>va_subject = i, va_product_tenant = rs ''embedded-alerts''\<rparr>"
  have ok: "authorize_introspection lib test_claims test_policy ?scope 2000000000 = Inr ?actor"
    unfolding authorize_introspection_Ok_iff claim_string_eq_Some using i s
    by (auto simp: test_claims_def test_policy_def bounded_identifier_def is_ascii_alphanumeric_def)
  let ?wrong = "test_claims\<lparr>in_rest := (in_rest test_claims)(rs ''tenant_id'' \<mapsto> JString (rs ''other''))\<rparr>"
  have "authorize_introspection lib ?wrong test_policy ?scope 2000000000 \<noteq> Inr a" for a
    unfolding authorize_introspection_Ok_iff claim_string_eq_Some by (simp add: test_policy_def)
  then have "\<not> is_ok (authorize_introspection lib ?wrong test_policy ?scope 2000000000)"
    by (cases "authorize_introspection lib ?wrong test_policy ?scope 2000000000") auto
  with ok show ?thesis by (simp add: strict_introspection_binds_product_authorization_def del: rs_simps)
qed

definition test_async_command :: "'x uuid_lib_scheme \<Rightarrow> uuid \<Rightarrow> uuid \<Rightarrow> async_command" where
  "test_async_command lib event_id correlation_id =
     \<lparr>ac_event_id = event_id, ac_correlation_id = correlation_id,
      ac_dedupe_key = rs ''list-alerts:'' @ uuid_to_string lib correlation_id,
      ac_product_tenant = rs ''embedded-alerts'',
      ac_operation =
        \<lparr>oe_version = 1, oe_operation_id = correlation_id, oe_operation = rs ''list_alerts'',
         oe_actor_subject = rs ''00000000-0000-4000-8000-000000000001'', oe_product_tenant = rs ''embedded-alerts'',
         oe_deadline_unix_ms = 2000000000000 + MAX_OPERATION_DEADLINE_MS\<rparr>,
      ac_signature = []\<rparr>"

definition test_key :: "u8 list" where
  "test_key = as_bytes (rs ''test-only-command-key-at-least-32-bytes'')"

text \<open>The part on signatures; the part on the encoding is about the JSON library.\<close>

definition async_commands_are_signed :: "'x wire_lib_scheme \<Rightarrow> uuid \<Rightarrow> uuid \<Rightarrow> uuid \<Rightarrow> bool" where
  "async_commands_are_signed lib event_id correlation_id other \<longleftrightarrow>
     (let command = test_async_command lib event_id correlation_id in
      case sign_command lib command test_key of
        Inl _ \<Rightarrow> False
      | Inr signature \<Rightarrow>
          (let signed = command\<lparr>ac_signature := signature\<rparr> in
           verify_command_signature lib signed test_key
           \<and> \<not> verify_command_signature lib
                 (signed\<lparr>ac_operation := (ac_operation signed)\<lparr>oe_actor_subject := uuid_to_string lib other\<rparr>\<rparr>) test_key))"

lemma async_commands_pass:
  assumes "uuid_laws lib" and "mac_laws lib" and "uuid_to_string lib other \<noteq> rs ''00000000-0000-4000-8000-000000000001''"
    and mac: "\<And>m m' t. hmac_sha256 lib test_key m = Some t \<Longrightarrow> hmac_sha256 lib test_key m' = Some t \<Longrightarrow> m = m'"
      "\<And>m. hmac_sha256 lib test_key m \<noteq> None"
  shows "async_commands_are_signed lib event_id correlation_id other"
proof -
  let ?c = "test_async_command lib event_id correlation_id"
  have key: "valid_command_key test_key"
    by (simp add: valid_command_key_def test_key_def as_bytes_def utf8_char_def is_ascii_control_def)
  obtain tag where tag: "hmac_sha256 lib test_key (as_bytes (command_signing_bytes lib ?c)) = Some tag" using mac(2) by blast
  let ?signed = "?c\<lparr>ac_signature := hex_encode lib tag\<rparr>"
  let ?forged = "?signed\<lparr>ac_operation := (ac_operation ?signed)\<lparr>oe_actor_subject := uuid_to_string lib other\<rparr>\<rparr>"
  have sign: "sign_command lib ?c test_key = Inr (hex_encode lib tag)" using key tag by (simp add: sign_command_def)
  have bytes: "command_signing_bytes lib ?signed = command_signing_bytes lib ?c" by (simp add: command_signing_bytes_def)
  have hex: "hex_decode lib (hex_encode lib tag) = Some tag" using assms(2) tag by (auto simp: mac_laws_def)
  have "newline_free ?c" "newline_free ?forged"
    using uuid_lawsD [OF assms(1)] by (simp_all add: newline_free_def test_async_command_def)
  moreover have "signed_view ?c \<noteq> signed_view ?forged"
    using assms(3) by (simp add: signed_view_def test_async_command_def del: rs_simps)
  ultimately have "as_bytes (command_signing_bytes lib ?c) \<noteq> as_bytes (command_signing_bytes lib ?forged)"
    using command_signing_bytes_inj [OF assms(1)] as_bytes_inj by blast
  then have "\<not> verify_command_signature lib ?forged test_key"
    using mac(1) tag hex by (auto simp: verify_command_signature_iff [OF assms(2)])
  moreover have "verify_command_signature lib ?signed test_key"
    using tag hex key bytes by (simp add: verify_command_signature_iff [OF assms(2)])
  ultimately show ?thesis using sign by (simp add: async_commands_are_signed_def Let_def)
qed

text \<open>The text of the listing statement, and what the test asks of it.\<close>

definition DIRECT_ALERTS_SQL :: rstring where
  "DIRECT_ALERTS_SQL = join_with 10
     [rs ''SELECT id,'', rs ''    created_at,'', rs ''    updated_at,'', rs ''    name,'', rs ''    query_text,'',
      rs ''    embedding_model,'', rs ''    similarity_threshold,'', rs ''    source_filters,'',
      rs ''    delivery_channels,'', rs ''    enabled'', rs ''FROM eal_alert_rules'',
      rs ''WHERE product_tenant = $1 AND owner_subject = $2'', rs ''ORDER BY updated_at DESC, id'', rs ''LIMIT 100'']"

definition to_ascii_uppercase :: "rstring \<Rightarrow> rstring" where
  "to_ascii_uppercase s = map (\<lambda>c. if is_ascii_lowercase c then c - 32 else c) s"

text \<open>\<open>str::contains\<close>.\<close>

definition str_contains :: "rstring \<Rightarrow> rstring \<Rightarrow> bool" where
  "str_contains s t \<longleftrightarrow> sublist t s"

definition direct_database_contract_is_literal_select_only :: bool where
  "direct_database_contract_is_literal_select_only \<longleftrightarrow>
     (let sql = to_ascii_uppercase (trim DIRECT_ALERTS_SQL) in
      starts_with (rs ''SELECT '') sql
      \<and> str_contains DIRECT_ALERTS_SQL (rs ''product_tenant = $1'')
      \<and> str_contains DIRECT_ALERTS_SQL (rs ''owner_subject = $2'')
      \<and> str_contains DIRECT_ALERTS_SQL (rs ''LIMIT 100'')
      \<and> (\<forall>forbidden \<in> set [rs ''INSERT '', rs ''UPDATE '', rs ''DELETE '', rs ''ALTER '', rs ''DROP '', rs '';''].
           \<not> str_contains sql forbidden))"

lemma direct_database_contract_passes: "direct_database_contract_is_literal_select_only"
proof -
  have sql: "trim DIRECT_ALERTS_SQL = DIRECT_ALERTS_SQL"
    by (simp add: DIRECT_ALERTS_SQL_def trim_def is_whitespace_def)
  show ?thesis
    unfolding direct_database_contract_is_literal_select_only_def Let_def sql
    by (simp add: DIRECT_ALERTS_SQL_def str_contains_def to_ascii_uppercase_def is_ascii_lowercase_def starts_with_def
        sublist_code prefix_code)
qed

section \<open>Unit tests\<close>

text \<open>\<open>0.8\<close> and \<open>0.7\<close> as single-precision numbers.\<close>

definition test_input :: "string \<Rightarrow> string \<Rightarrow> string \<Rightarrow> f32 \<Rightarrow> create_alert_rule" where
  "test_input name query model threshold =
     \<lparr>cr_name = rs name, cr_query_text = rs query, cr_embedding_model = rs model, cr_similarity_threshold = threshold,
      cr_source_filters = [rs ''docs''], cr_delivery_channels = [rs ''email''], cr_enabled = True\<rparr>"

definition alert_input_is_bounded_before_storage :: bool where
  "alert_input_is_bounded_before_storage \<longleftrightarrow>
     (let input = test_input ''New source'' ''rust security releases'' ''text-embedding-3-small'' (F32 False 126 5033165) in
      is_ok (validate input)
      \<and> \<not> is_ok (validate (input\<lparr>cr_query_text := concat (replicate (MAX_QUERY_BYTES + 1) (rs ''x''))\<rparr>)))"

definition fallback_storage_is_scoped_by_tenant_and_subject ::
  "'x store_lib_scheme \<Rightarrow> store_env \<Rightarrow> store_env \<Rightarrow> uuid \<Rightarrow> uuid \<Rightarrow> bool" where
  "fallback_storage_is_scoped_by_tenant_and_subject lib env env' subject subject' \<longleftrightarrow>
     (let actor = \<lparr>va_subject = subject, va_product_tenant = rs ''embedded-alerts''\<rparr>;
          other = \<lparr>va_subject = subject', va_product_tenant = va_product_tenant actor\<rparr>;
          input = test_input ''Release monitor'' ''new Rust releases'' ''small'' (F32 False 126 3355443);
          (created, store) = store_create lib env (new_store None) actor input in
      is_ok created
      \<and> (case store_list lib env' store actor of Inl _ \<Rightarrow> False | Inr alerts \<Rightarrow> length alerts = 1)
      \<and> (case store_list lib env' store other of Inl _ \<Rightarrow> False | Inr alerts \<Rightarrow> alerts = []))"

definition repeated_or_malformed_bearers_are_rejected :: "'x auth_lib_scheme \<Rightarrow> bool" where
  "repeated_or_malformed_bearers_are_rejected lib \<longleftrightarrow>
     (let headers = [(rs ''authorization'', rs ''Bearer valid-token-value'')] in
      bearer_from_headers lib headers = Ok (rs ''valid-token-value'')
      \<and> \<not> is_ok (bearer_from_headers lib (headers @ [(rs ''authorization'', rs ''Bearer second-token-value'')])))"

definition configuration_and_auth_errors_never_include_credentials :: bool where
  "configuration_and_auth_errors_never_include_credentials \<longleftrightarrow>
     auth_error_message Auth_Unauthorized = ''unauthorized''
     \<and> auth_error_message Auth_Degraded = ''identity authority unavailable''"

definition errors_are_flat_and_non_probing :: bool where
  "errors_are_flat_and_non_probing \<longleftrightarrow>
     api_error_message Api_Unauthorized = ''unauthorized'' \<and> api_error_message Api_Unavailable = ''service unavailable''
     \<and> MAX_JSON_BODY_BYTES = 32 * 1024"

definition remote_plaintext_nats_is_rejected :: bool where
  "remote_plaintext_nats_is_rejected \<longleftrightarrow>
     is_ok (validate_nats_url (rs ''tls://nats.example.test:4222'')) \<and> is_ok (validate_nats_url (rs ''nats://localhost:4222''))
     \<and> \<not> is_ok (validate_nats_url (rs ''nats://nats.example.test:4222''))"

lemma test_input_valid:
  "validate (test_input ''New source'' ''rust security releases'' ''text-embedding-3-small'' (F32 False 126 5033165)) = Inr ()"
  "validate (test_input ''Release monitor'' ''new Rust releases'' ''small'' (F32 False 126 3355443)) = Inr ()"
proof -
  have lists: "validate_list [rs ''docs''] = Inr ()" "validate_list [rs ''email''] = Inr ()"
    by (simp_all add: validate_list_def validate_text_def trim_def is_whitespace_def is_control_def rust_simps)
  have range: "f32_is_finite x \<and> f32_le f32_zero x \<and> f32_le x f32_one"
    if "x = F32 False 126 5033165 \<or> x = F32 False 126 3355443" for x
    using that by (auto simp: f32_is_finite_def f32_le_def f32_is_nan_def f32_key_def f32_zero_def f32_one_def)
  have texts: "validate_text (rs ''New source'') MAX_ALERT_NAME_BYTES = Inr ()"
    "validate_text (rs ''rust security releases'') MAX_QUERY_BYTES = Inr ()"
    "validate_text (rs ''text-embedding-3-small'') MAX_MODEL_BYTES = Inr ()"
    "validate_text (rs ''Release monitor'') MAX_ALERT_NAME_BYTES = Inr ()"
    "validate_text (rs ''new Rust releases'') MAX_QUERY_BYTES = Inr ()"
    "validate_text (rs ''small'') MAX_MODEL_BYTES = Inr ()"
    by (simp_all add: validate_text_def trim_def is_whitespace_def is_control_def rust_simps)
  show "validate (test_input ''New source'' ''rust security releases'' ''text-embedding-3-small'' (F32 False 126 5033165)) = Inr ()"
    "validate (test_input ''Release monitor'' ''new Rust releases'' ''small'' (F32 False 126 3355443)) = Inr ()"
    using lists range texts by (simp_all add: validate_Ok_iff test_input_def del: rs_simps)
qed

lemma rlen_replicate: "rlen (concat (replicate n (rs ''x''))) = n"
  by (induction n) (simp_all add: rust_simps)

lemma alert_input_passes: "alert_input_is_bounded_before_storage"
proof -
  have "validate (i\<lparr>cr_query_text := concat (replicate (MAX_QUERY_BYTES + 1) (rs ''x''))\<rparr>) \<noteq> Inr ()" for i
    unfolding validate_Ok_iff validate_text_def using rlen_replicate [of "MAX_QUERY_BYTES + 1"] by (simp del: rs_simps)
  then have "\<not> is_ok (validate (i\<lparr>cr_query_text := concat (replicate (MAX_QUERY_BYTES + 1) (rs ''x''))\<rparr>))" for i
    by (cases "validate (i\<lparr>cr_query_text := concat (replicate (MAX_QUERY_BYTES + 1) (rs ''x''))\<rparr>)") auto
  then show ?thesis unfolding alert_input_is_bounded_before_storage_def Let_def test_input_valid by simp
qed

lemma store_passes:
  assumes "\<And>m. mset (se_order env' m) = mset m" and "subject' \<noteq> subject"
  shows "fallback_storage_is_scoped_by_tenant_and_subject lib env env' subject subject'"
proof -
  have "se_order env' [x] = [x]" for x using assms(1) [of "[x]"] by (metis mset_single_iff mset_zero_iff mset.simps)
  with assms(2) show ?thesis
    by (simp add: fallback_storage_is_scoped_by_tenant_and_subject_def Let_def store_create_def test_input_valid new_store_def
        hash_insert_def store_list_def fallback_list_def)
qed

lemma bearer_passes:
  assumes "\<And>v. header_to_str lib v = Some v"
  shows "repeated_or_malformed_bearers_are_rejected lib"
  using assms
  by (simp add: repeated_or_malformed_bearers_are_rejected_def Let_def bearer_from_headers_def option_filter_def
      strict_credential_iff strip_prefix_def starts_with_def is_whitespace_def is_control_def)

lemma auth_errors_pass: "configuration_and_auth_errors_never_include_credentials"
  by (simp add: configuration_and_auth_errors_never_include_credentials_def)

lemma errors_pass: "errors_are_flat_and_non_probing"
  by (simp add: errors_are_flat_and_non_probing_def MAX_JSON_BODY_BYTES_def)

lemma nats_url_passes: "remote_plaintext_nats_is_rejected"
  by (simp add: remote_plaintext_nats_is_rejected_def validate_nats_url_def starts_with_def)

section \<open>Tests of the configuration\<close>

definition unknown_options_fail_closed_without_echoing_values :: "flags_lib \<Rightarrow> bool" where
  "unknown_options_fail_closed_without_echoing_values lib \<longleftrightarrow>
     (case resolve_from lib [rs ''server'', rs ''--definitely-unknown=do-not-echo''] [] of
        Inr _ \<Rightarrow> False
      | Inl error \<Rightarrow> str_contains error (rs ''--definitely-unknown'') \<and> \<not> str_contains error (rs ''do-not-echo''))"

text \<open>The first option of the contract that takes a value, as the test looks it up.\<close>

definition first_value_flag :: "contract_flag list \<Rightarrow> contract_flag option" where
  "first_value_flag flags = List.find (\<lambda>f. cf_type f \<noteq> ''bool'' \<and> cf_type f \<noteq> ''boolean'') flags"

definition command_line_overrides_environment_with_a_typed_value :: "flags_lib \<Rightarrow> bool" where
  "command_line_overrides_environment_with_a_typed_value lib \<longleftrightarrow>
     (case first_value_flag contract_flags of
        None \<Rightarrow> False
      | Some f \<Rightarrow>
          (let command_line_value = (if cf_type f = ''integer'' then rs ''31337'' else rs ''from-cli'');
               option = rs ''--'' @ rs (cf_long f) @ rs ''='' @ command_line_value in
           case resolve_from lib [rs ''server'', option] [(rs (cf_env f), rs ''from-env'')] of
             Inl _ \<Rightarrow> False
           | Inr resolved \<Rightarrow> resolved (rs (cf_env f)) = Some command_line_value))"

definition help_is_derived_from_the_audited_contract :: "flags_lib \<Rightarrow> bool" where
  "help_is_derived_from_the_audited_contract lib \<longleftrightarrow>
     (case help_table lib of Inl _ \<Rightarrow> False
      | Inr help \<Rightarrow> str_contains help (rs ''--help'') \<and> str_contains help (rs ''Options:''))"

text \<open>What the tests need of the parser: the contract file is accepted and the options are told apart.\<close>

definition parser_ready :: "flags_lib \<Rightarrow> rstring \<Rightarrow> bool" where
  "parser_ready lib path \<longleftrightarrow> tempfile_new lib = Inr () \<and> tempfile_write lib = Inr () \<and> tempfile_path lib = Some path
     \<and> audit_config lib path = Inr ()"

lemma unknown_options_pass:
  assumes "parser_ready lib path"
    and "parse_structured lib [rs ''server'', rs ''--definitely-unknown=do-not-echo''] path = Inr p"
    and "unknown_options p = [rs ''--definitely-unknown=do-not-echo'']"
  shows "unknown_options_fail_closed_without_echoing_values lib"
proof -
  have names: "unknown_names p = [rs ''--definitely-unknown'']"
    unfolding unknown_names_def assms(3) by (simp add: option_name_def strip_prefix_def starts_with_def)
  have "resolve_from lib [rs ''server'', rs ''--definitely-unknown=do-not-echo''] []
      = Inl (rs ''unknown command-line option(s): '' @ rs ''--definitely-unknown'')"
    using assms names by (simp add: resolve_from_def parser_ready_def del: rs_simps)
  then show ?thesis
    by (simp add: unknown_options_fail_closed_without_echoing_values_def str_contains_def sublist_Cons_right)
qed

lemma help_passes:
  assumes "contract_toml lib = Inr CONTRACT"
  shows "help_is_derived_from_the_audited_contract lib"
proof -
  have "cf_type (contract_flags ! 4) \<noteq> ''bool''" and opt: "option_text (contract_flags ! 4) = rs ''-h, '' @ rs ''--help''"
    and flags: "contract_flags = take 4 contract_flags @ contract_flags ! 4 # drop 5 contract_flags"
    by (simp_all add: contract_flags_def option_text_def)
  obtain u v where line: "help_line lib (flag_toml (contract_flags ! 4)) = u @ rs ''--help'' @ v"
    unfolding help_line_contract [OF \<open>cf_type _ \<noteq> _\<close>] opt pad_right_def by (metis append_assoc)
  have "concat (map (\<lambda>f. help_line lib (flag_toml f)) contract_flags)
      = (concat (map (\<lambda>f. help_line lib (flag_toml f)) (take 4 contract_flags)) @ u) @ rs ''--help''
        @ (v @ concat (map (\<lambda>f. help_line lib (flag_toml f)) (drop 5 contract_flags)))"
    by (subst flags) (simp add: line del: rs_simps)
  then obtain x y where "concat (map (\<lambda>f. help_line lib (flag_toml f)) contract_flags) = x @ rs ''--help'' @ y" by blast
  then obtain x' where "help_table lib = Inr (x' @ rs ''--help'' @ y)"
    using help_table_contract [OF assms] by (metis append_assoc)
  moreover obtain a b where "help_table lib = Inr (a @ rs ''Options:'' @ b)"
    using help_table_contract [OF assms] by (metis append_assoc)
  ultimately show ?thesis
    by (simp add: help_is_derived_from_the_audited_contract_def str_contains_def sublist_def del: rs_simps) metis
qed

lemma insert_typed_succeeds:
  "\<forall>(n, v) \<in> set typed. v = JNull \<or> is_ok (scalar_string n v) \<Longrightarrow> \<exists>r'. insert_typed r typed = Inr r'"
proof (induction typed arbitrary: r)
  case (Cons x typed)
  obtain n v where x: "x = (n, v)" by (cases x)
  with Cons.prems have "v = JNull \<or> (\<exists>s. scalar_string n v = Inr s)" by (cases "scalar_string n v") auto
  with Cons x show ?case by auto
qed simp

lemma override_passes:
  assumes "coerce_law lib (\<lambda>_ v. v)" and "parser_ready lib path"
    and "parse_structured lib [rs ''server'', rs ''--api-mtls-bind=from-cli''] path = Inr p"
    and "unknown_options p = []" "parse_errors p = []" "extras p = []"
    and given: "provided_flags p (rs ''EAL_API_MTLS_BIND'') = Some (rs ''from-cli'')"
    and typed: "coerce lib (raw_config p [rs ''EAL_API_MTLS_BIND'' \<mapsto> rs ''from-env'']) path = Inr typed"
    and names: "rs ''EAL_API_MTLS_BIND'' \<in> fst ` set typed" and "\<forall>(n, v) \<in> set typed. v = JNull \<or> is_ok (scalar_string n v)"
  shows "command_line_overrides_environment_with_a_typed_value lib"
proof -
  let ?n = "rs ''EAL_API_MTLS_BIND''"
  let ?env = "[?n \<mapsto> rs ''from-env'']"
  obtain r where r: "insert_typed ?env typed = Inr r" using insert_typed_succeeds assms(10) by blast
  have "resolve_from lib [rs ''server'', rs ''--api-mtls-bind=from-cli''] [(?n, rs ''from-env'')] = Inr r"
    using assms(2-6) typed r by (simp add: resolve_from_def parser_ready_def del: rs_simps)
  moreover obtain v where "(?n, v) \<in> set typed" using names by auto
  moreover have "raw_config p ?env ?n = Some (rs ''from-cli'')" using given by (simp add: raw_config_def del: rs_simps)
  ultimately have "r ?n = Some (rs ''from-cli'')" "resolve_from lib [rs ''server'', rs ''--api-mtls-bind=from-cli'']
      [(?n, rs ''from-env'')] = Inr r"
    using assms(1) typed insert_typed_at [OF r] unfolding coerce_law_def by blast+
  moreover have "first_value_flag contract_flags = Some (contract_flags ! 0)"
    by (simp add: first_value_flag_def contract_flags_def)
  moreover have "cf_env (contract_flags ! 0) = ''EAL_API_MTLS_BIND''" "cf_type (contract_flags ! 0) = ''string''"
    "rs ''--'' @ rs (cf_long (contract_flags ! 0)) @ rs ''='' @ rs ''from-cli'' = rs ''--api-mtls-bind=from-cli''"
    by (simp_all add: contract_flags_def)
  ultimately show ?thesis
    by (simp add: command_line_overrides_environment_with_a_typed_value_def Let_def del: rs_simps)
qed

section \<open>Test of the identity boundary\<close>

text \<open>
  The service of the test answers with these claims and records the request. Here it answers only
  a client that presents the service credential and puts the token, audience and scope in the
  payload, so that the verification succeeds only with that request.
\<close>

definition test_boundary :: "rstring \<Rightarrow> auth_boundary" where
  "test_boundary base =
     \<lparr>ab_client = \<lparr>sac_base = base, sac_service_credential = Some (rs ''independent-service-credential''),
                   sac_max_response_bytes = None\<rparr>,
      ab_policy = test_policy\<rparr>"

definition test_introspect :: "system_time \<Rightarrow> shared_auth_client \<Rightarrow> rstring \<Rightarrow> rstring \<Rightarrow> rstring list \<Rightarrow> (introspection, client_error) result" where
  "test_introspect now client token audience scopes =
     (if sac_service_credential client = Some (rs ''independent-service-credential'')
        \<and> token = rs ''end-user-access-token'' \<and> audience = rs ''embedded-alerts-api'' \<and> scopes = [READ_SCOPE]
      then Ok (test_claims\<lparr>in_scope := Some READ_SCOPE, in_exp := Some (2 ^ 64 - 1)\<rparr>) else Err Client_Unauthorized)"

definition official_client_separates_service_credential_and_user_payload :: "'x auth_lib_scheme \<Rightarrow> rstring \<Rightarrow> system_time \<Rightarrow> bool" where
  "official_client_separates_service_credential_and_user_payload lib base clock \<longleftrightarrow>
     is_ok (verify_token (lib\<lparr>introspect_with_requirements := test_introspect\<rparr>) (test_boundary base) clock
       (rs ''end-user-access-token'') READ_SCOPE)"

lemma official_client_passes:
  assumes "reads_test_claims lib" and "unix_seconds clock = Inr now" and "1 \<le> now" "now < 2 ^ 64 - 1"
  shows "official_client_separates_service_credential_and_user_payload lib base clock"
proof -
  let ?lib = "lib\<lparr>introspect_with_requirements := test_introspect\<rparr>"
  let ?claims = "test_claims\<lparr>in_scope := Some READ_SCOPE, in_exp := Some (2 ^ 64 - 1)\<rparr>"
  obtain i where i: "uuid_parse_str lib (rs ''00000000-0000-4000-8000-000000000001'') = Some i" and s: "has_scope lib ?claims READ_SCOPE"
    using assms(1) by (auto simp: reads_test_claims_def simp del: rs_simps)
  let ?actor = "\<lparr>va_subject = i, va_product_tenant = rs ''embedded-alerts''\<rparr>"
  have "authorize_introspection ?lib ?claims test_policy READ_SCOPE now = Inr ?actor"
    unfolding authorize_introspection_Ok_iff claim_string_eq_Some using i s assms(3,4)
    by (auto simp: test_claims_def test_policy_def bounded_identifier_def is_ascii_alphanumeric_def)
  moreover have "strict_credential (rs ''end-user-access-token'')"
    by (simp add: strict_credential_iff is_whitespace_def is_control_def)
  moreover have "introspect_with_requirements ?lib clock (ab_client (test_boundary base)) (rs ''end-user-access-token'')
      (pol_audience (ab_policy (test_boundary base))) [READ_SCOPE] = Inr ?claims"
    by (simp add: test_introspect_def test_boundary_def test_policy_def)
  moreover have "ab_policy (test_boundary base) = test_policy" by (simp add: test_boundary_def)
  ultimately have "verify_token ?lib (test_boundary base) clock (rs ''end-user-access-token'') READ_SCOPE = Inr ?actor"
    unfolding verify_token_Ok_iff using assms(2) bounded_identifier_scopes(1) by auto
  then show ?thesis by (simp add: official_client_separates_service_credential_and_user_payload_def del: rs_simps)
qed

end
