(* ===== verification/Spec2Isabelle.thy ===== *)
theory Spec2Isabelle
  imports Backends Concurrency Sockets Row_Security Cluster Delivery Repository_Tests
begin

text \<open>
  Verification of the Embedded Alerts API server (\<open>src/src/*.rs\<close>), a Rust service that stores
  alert rules per tenant and owner and serves them over HTTP, web sockets, mTLS/TCP and NATS
  JetStream, with PostgreSQL tables given by \<open>src/migrations/0001_four_mode_transport.sql\<close>.

  \<^bold>\<open>How the program is put together.\<close> \<open>main.rs\<close> resolves the configuration once (\<open>flags.rs\<close>) and
  starts \<open>lib.rs\<close>. Every read or write of alerts first passes the identity boundary (\<open>auth.rs\<close>),
  then the store (\<open>store.rs\<close>), which is PostgreSQL or, without a database, an in-memory map. A
  created alert (\<open>model.rs\<close>) is announced on a broadcast channel that web sockets listen to.
  \<open>transport.rs\<close> adds two more ways to list alerts: framed requests over mTLS, and signed commands
  on a JetStream stream, which are recorded in an inbox, answered in an outbox within the same
  transaction, and published by a background task.

  \<^bold>\<open>Theories.\<close>
  \<^item> \<open>Prelude\<close>: results, options, lists; the interface \<open>invariant_system\<close> of a step relation with an
    invariant, interpreted on the mTLS listener (\<open>accept_loop\<close>), on requests in flight (\<open>front\<close>), on web
    sockets (\<open>sockets\<close>), on the whole server (\<open>server\<close>) and on the ledger (\<open>ledger_run\<close>); the interface \<open>simulation\<close>, which extends it by an abstraction to
    another step relation, interpreted on one server (\<open>server_ledger\<close>) and on many (\<open>replicas\<close>).
  \<^item> \<open>Rust_Std\<close>, \<open>Rust_Float\<close>: what the code uses of the standard library. Strings are lists of code
    points with their UTF-8 bytes, \<open>u64\<close> is a 64-bit word, \<open>f32\<close> and \<open>f64\<close> are bit patterns with
    the conversions of the language. The interface \<open>ascii_token\<close> is what the three identifier
    checks promise; it is interpreted on each of them.
  \<^item> \<open>Externals\<close>: UUIDs, JSON values and timestamps; a UUID codec for the witnesses.
  \<^item> \<open>Alert_Model\<close>: \<open>model.rs\<close>, validation and normalisation.
  \<^item> \<open>Auth\<close>: \<open>auth.rs\<close>, credentials, introspected claims, configuration.
  \<^item> \<open>Database\<close>: the tables with their constraints, and the SQL statements.
  \<^item> \<open>Store\<close>: \<open>store.rs\<close>. The interface \<open>scoped_store\<close> states what clients rely on (an owner's view,
    isolation, what a failed request may leave); it is interpreted on the store's own operations.
  \<^item> \<open>Envelope\<close>: the wire types, signatures, validators and lookups of \<open>transport.rs\<close>.
  \<^item> \<open>Jetstream\<close>, \<open>Outbox\<close>: the consumer with its transaction, and the publisher.
  \<^item> \<open>Ledger\<close>: what the command transport promises, as an abstract machine: entries of a command with
    its reply, messages sent and commands acknowledged, which only grow.
  \<^item> \<open>Transaction\<close>: \<open>process_command\<close> statement by statement; without interleaving it is the
    transaction of \<open>Jetstream\<close>.
  \<^item> \<open>Delivery\<close>: \<open>run_jetstream\<close> on unboundedly many deliveries, and what becomes of failed commands.
  \<^item> \<open>Mtls\<close>: configuration, one operation, one connection, and the accept loop.
  \<^item> \<open>Api\<close>: \<open>lib.rs\<close>, handlers, errors, routes, web socket loop.
  \<^item> \<open>Sockets\<close>: any number of web sockets beside the requests, from the upgrade over the
    subscription to the end of the loop, on the broadcast channel with its capacity.
  \<^item> \<open>Server_System\<close>: the parts that share the database as one step relation, which implements the
    ledger.
  \<^item> \<open>Cluster\<close>: any number of server processes on one database, their transactions interleaved
    statement by statement, with waiting for locks and with crashes; it implements the same ledger.
  \<^item> \<open>Row_Security\<close>: the read-only role of the web tier with its privileges and row-level policy.
  \<^item> \<open>Flags\<close>, \<open>Telemetry\<close>, \<open>Web_Api_Plane\<close>, \<open>Startup\<close>: configuration, lifecycle records, the
    data-plane binding, and \<open>run\<close>.
  \<^item> \<open>Cli_Contract\<close>: the contract \<open>src/.cli-flags.toml\<close> as data, with what the start reads of it.
  \<^item> \<open>Process\<close>: a process from its command line to its end.
  \<^item> \<open>Concurrency\<close>: the handlers of \<open>Api\<close> cut where they wait (before the store, at the store, after
    it), for any number of requests at once, with handlers that are dropped; without interleaving
    the parts are the handlers.
  \<^item> \<open>Backends\<close>: the server on a database against the server in memory, as a relation between their
    states that every request keeps.
  \<^item> \<open>Repository_Tests\<close>: the repository's tests as statements about the model.
  \<^item> this theory: properties that span the components.

  \<^bold>\<open>How the model follows the code.\<close> A function of the source is a definition of the same name
  (with a prefix where HOL or another module has the name). \<open>Result\<close> is a sum with the error on the
  left and \<open>?\<close> is \<open>and_then\<close>. State is passed explicitly. What the outside decides in one call, such as
  whether a statement is answered, a clock reading, a fresh identifier, the order in which a hash map is
  iterated, or whether an acknowledgement arrives, is an argument of that call (the records named
  \<open>..._env\<close>), so the theorems hold for every such behaviour, failures included. Library code is a
  field of a record (\<open>uuid_lib\<close>, \<open>auth_lib\<close>, \<open>store_lib\<close>, \<open>wire_lib\<close>, \<open>http_lib\<close>, \<open>tls_lib\<close>,
  \<open>flags_lib\<close>), and what is used of its documented behaviour is a named hypothesis (\<open>uuid_laws\<close>,
  \<open>store_laws\<close>, \<open>mac_laws\<close>, \<open>no_forgery\<close>, \<open>broadcast_delivery\<close>, \<open>coerce_law\<close>, \<open>types_contract_only\<close>,
  \<open>aborted_after_failure\<close>, \<open>fresh_reply_id\<close>, \<open>rejections_are_errors\<close>), each satisfied by a sample that
  the witnesses use. The answer of the identity authority depends on the moment of the call. What the
  database makes of a value in a \<open>jsonb\<close> column is \<open>jsonb_value\<close>, and what it makes of the actor subject,
  which the statements bind as a text to \<open>uuid\<close> columns, is \<open>text_as_uuid\<close>: PostgreSQL documents that
  it refuses it, and the theorems about commands hold for either behaviour.

  \<^bold>\<open>What is shown.\<close> Authentication: what an accepted request proves, exact validity windows, claims
  bound to one policy. Storage: isolation of owners, read-your-writes below a hundred alerts,
  acceptance implies the table constraints, and the limits of lookup by identifier beyond that.
  Transport: signatures determine every signed field; only signed, fresh commands of the
  configured tenant change tables; a command's transaction is atomic and idempotent; as the
  statements are written, without a cast of the actor subject, every command fails at its first
  statement and stops the consumer; every published reply answers a recorded command, in every
  reachable state of the whole server; the outbox drains when nothing fails, and how one oversized reply stops it. Many
  processes together implement the ledger: a command is answered at most once however the
  processes race, nothing that was recorded, sent or acknowledged is lost, and no two transactions
  wait for each other. The transport returns exactly at its first failure; a command that failed
  is expired when it comes again, and an error of the query is never answered. HTTP and web
  sockets: no response or event crosses owners, unauthenticated requests reveal nothing; a socket
  sends its actor's events from its subscription on, in order and without a gap, is closed when the
  channel drops an event before it was received, catches up while
  it is within the capacity of the channel, and outlives the credentials it was opened with. The two
  backends give the same answers below a hundred alerts per owner. Requests that are handled at the
  same time get the answers of some order that respects which request ended before which began, so
  what is shown of requests one after the other holds of them too; only the order of the announced
  events may differ, and a dropped creation is not announced. On a database that reads the subject as
  a UUID, a signed command comes back as a published reply with its actor's alerts. Direct
  reads: the web role sees one owner and agrees with the server's listings. Start: what a started server has,
  which variables it reads, that secrets come from the environment, and which configurations start
  but cannot serve. Process: the order of its lifecycle records and answers, and that it serves what
  was created in it.

  \<^bold>\<open>Bounds.\<close> No theorem needs fuel: loops over an unbounded input (deliveries, frames, events,
  publisher rounds) are recursive on the list of what they meet, of any length. The delivery loop
  is also given on infinite sequences, as a partial function whose value \<open>None\<close> means that it does
  not return, with the exact condition under which it does. A transaction has at most four
  statements before its commit.

  \<^bold>\<open>Not modelled.\<close> TLS and TCP themselves, the HTTP framework beyond its routing and extractors,
  timing other than deadlines and timeouts as outcomes, tracing output, build files and scripts.
  The JSON texts of the wire types, the data-plane crate and the logger are library code behind
  parameters, so the repository's tests of them have no counterpart here. What else of the source has
  no definition are imports, accessors of one field, and test scaffolding.
  The server is taken to connect as the owner of the tables, to which the row-level policy does not
  apply. Indexes do not change what a statement returns.
\<close>

section \<open>The ways to list alerts agree\<close>

text \<open>
  C11. One actor, one database, answers that agree: when the database answers and its stored alerts
  decode, and the actor presents valid credentials to both, the two HTTP listings and the mTLS/TCP
  reply carry the same alerts in the same order, and they are what the rows decode to that the web
  tier reads directly in a session of the read-only role with the actor's settings; at most a
  hundred, all of them owned by the actor. The database is assumed to read the text of a UUID back.
\<close>

theorem listing_avenues_agree:
  assumes "as_database (app_store app) = Some db" and "db_invar lib db"
    and "verify_authorization lib (app_auth app) (ae_clock env) headers READ_SCOPE = Ok actor" and "se_db_up (ae_store env)"
    and "operation_from_slice lib frame = Some request" and "unix_ms (xe_clock tenv) = Some now"
    and "validate_operation_envelope_at lib (ao_envelope request) now = Ok ()"
    and "ao_authorization request = rs ''Bearer '' @ token"
    and "verify_token lib (app_auth app) (xe_auth_clock tenv) token READ_SCOPE = Ok actor"
    and "oe_actor_subject (ao_envelope request) = uuid_to_string lib (va_subject actor)"
    and "oe_product_tenant (ao_envelope request) = va_product_tenant actor"
    and "\<not> xe_times_out tenv" and "se_db_up (xe_store tenv)"
    and "uuid_in (uuid_to_string lib (va_subject actor)) = Some (va_subject actor)"
  shows "\<exists>alerts rows.
    handle_request lib env app \<lparr>rq_method = GET, rq_path = rs ''/v1/alerts'', rq_headers = headers, rq_body = body\<rparr>
      = ((200, Body_Alerts alerts), app)
    \<and> handle_request lib env app \<lparr>rq_method = GET, rq_path = rs ''/v1/web/alerts'', rq_headers = headers, rq_body = body\<rparr>
      = ((200, Body_Alerts alerts), app)
    \<and> execute_tcp_operation lib tenv (app_store app) (app_auth app) frame
      = \<lparr>or_operation_id = oe_operation_id (ao_envelope request), or_status = rs ''completed'',
         or_result = Some (alerts_to_json lib alerts), or_error = None\<rparr>
    \<and> session_direct_alerts uuid_in eager (actor_session lib actor) (va_product_tenant actor) (va_subject actor) db
      = Sql_Rows rows \<and> map (\<lambda>r. decode_alert lib (alert_columns r)) rows = map Ok alerts
    \<and> length alerts \<le> 100 \<and> set alerts \<subseteq> store_owned lib (app_store app) actor"
proof -
  obtain alerts where alerts: "read_alerts lib True db actor = Inr alerts"
    "map ar_id alerts = map al_id (direct_alerts (va_product_tenant actor) (va_subject actor) db)"
    using read_alerts_succeeds [OF assms(2)] by blast
  have http: "list_alerts lib env app headers = Inr alerts"
    using assms(1,3,4) alerts by (simp add: list_alerts_def store_list_def)
  have routes: "match_route (rs ''/v1/alerts'') = Some Route_Alerts" "match_route (rs ''/v1/web/alerts'') = Some Route_Web_Alerts"
    by (simp_all add: match_route_def)
  have tcp: "execute_tcp_operation lib tenv (app_store app) (app_auth app) frame
      = \<lparr>or_operation_id = oe_operation_id (ao_envelope request), or_status = rs ''completed'',
         or_result = Some (alerts_to_json lib alerts), or_error = None\<rparr>"
    using assms(1,5-13) alerts by (simp add: execute_tcp_operation_def store_list_def del: rs_simps)
  obtain rows where "session_direct_alerts uuid_in eager (actor_session lib actor) (va_product_tenant actor) (va_subject actor) db
      = Sql_Rows rows" "map (\<lambda>r. decode_alert lib (alert_columns r)) rows = map Inr alerts"
    using direct_read_rows [of uuid_in lib actor db alerts eager, OF assms(14) alerts(1)] by blast
  moreover have "length alerts = length (direct_alerts (va_product_tenant actor) (va_subject actor) db)"
    using arg_cong [OF alerts(2), of length] by simp
  then have "length alerts \<le> 100" using direct_alerts_length by simp
  moreover have "set alerts \<subseteq> store_owned lib (app_store app) actor"
    using read_alerts_owned alerts(1) assms(1) by (fastforce simp: store_owned_def)
  ultimately show ?thesis
    using tcp http by (intro exI [of _ alerts] exI [of _ rows])
      (simp add: handle_request_def routes respond_def get_route_def del: rs_simps)
qed

lemma sample_http_token:
  "verify_token sample_http_lib sample_boundary sample_clock (rs ''valid-token-value'') READ_SCOPE = Inr sample_actor"
proof -
  have "bearer_from_headers sample_http_lib sample_headers = Inr (rs ''valid-token-value'')"
    unfolding bearer_from_headers_Ok_iff strict_credential_iff
    by (simp add: sample_http_lib_def sample_headers_def is_whitespace_def is_control_def)
  with sample_http_verified [OF bounded_identifier_scopes(1)] show ?thesis
    unfolding verify_authorization_def by simp
qed

text \<open>A database with two alerts of the actor.\<close>

definition sample_alerts_db :: database where "sample_alerts_db = sample_db sample_store_lib 2"

definition sample_db_app :: app_state where
  "sample_db_app = sample_app\<lparr>app_store := new_store (Some sample_alerts_db)\<rparr>"

theorem listing_avenues_agree_witness:
  "\<exists>alerts rows. handle_request sample_http_lib sample_api_env sample_db_app
       \<lparr>rq_method = GET, rq_path = rs ''/v1/web/alerts'', rq_headers = sample_headers, rq_body = []\<rparr>
       = ((200, Body_Alerts alerts), sample_db_app)
     \<and> session_direct_alerts uuid_parse_str_ref True (actor_session sample_http_lib sample_actor)
         (va_product_tenant sample_actor) (va_subject sample_actor) sample_alerts_db = Sql_Rows rows
     \<and> length rows = length alerts \<and> or_result (execute_tcp_operation sample_http_lib sample_tcp (app_store sample_db_app)
         (app_auth sample_db_app) [1]) = Some (alerts_to_json sample_http_lib alerts)"
proof -
  have "validate_operation_envelope_at sample_http_lib (ao_envelope sample_request) 2000000002000 = Ok ()"
    using sample_operation_valid [OF sample_wire_lib_laws(2)]
    by (simp add: validate_operation_envelope_at_def sample_http_fields sample_request_def)
  moreover have "oe_actor_subject (ao_envelope sample_request) = uuid_to_string sample_http_lib (va_subject sample_actor)"
    "oe_product_tenant (ao_envelope sample_request) = va_product_tenant sample_actor"
    "ao_authorization sample_request = rs ''Bearer '' @ rs ''valid-token-value''"
    "operation_from_slice sample_http_lib [1] = Some sample_request"
    by (simp_all add: sample_request_def sample_operation_def sample_actor_def sample_http_lib_def sample_wire_lib_def)
  moreover have "unix_ms (xe_clock sample_tcp) = Some 2000000002000" using sample_clock_ms by (simp add: sample_tcp_def)
  moreover have "verify_token sample_http_lib (app_auth sample_db_app) (xe_auth_clock sample_tcp)
      (rs ''valid-token-value'') READ_SCOPE = Ok sample_actor"
    using sample_http_token by (simp add: sample_db_app_def sample_app_def sample_tcp_def)
  moreover have "verify_authorization sample_http_lib (app_auth sample_db_app) (ae_clock sample_api_env) sample_headers
      READ_SCOPE = Ok sample_actor"
    using sample_http_verified [OF bounded_identifier_scopes(1)]
    by (simp add: sample_db_app_def sample_app_def sample_api_env_def)
  moreover have "as_database (app_store sample_db_app) = Some sample_alerts_db" "se_db_up (ae_store sample_api_env)"
    "\<not> xe_times_out sample_tcp" "se_db_up (xe_store sample_tcp)"
    using sample_env_up_ok(2)
    by (simp_all add: sample_db_app_def new_store_def sample_api_env_def sample_tcp_def)
  moreover have "uuid_parse_str_ref (uuid_to_string sample_http_lib (va_subject sample_actor)) = Some (va_subject sample_actor)"
    by (simp add: sample_http_lib_def uuid_parse_str_ref_inverse)
  moreover have "db_invar sample_http_lib sample_alerts_db"
    using sample_db_invar(1) [OF store_sample_lib, of 2]
    unfolding sample_alerts_db_def db_invar_def decode_columns by (simp add: sample_http_lib_def)
  ultimately obtain alerts rows where
    "handle_request sample_http_lib sample_api_env sample_db_app
       \<lparr>rq_method = GET, rq_path = rs ''/v1/web/alerts'', rq_headers = sample_headers, rq_body = []\<rparr>
       = ((200, Body_Alerts alerts), sample_db_app)"
    "or_result (execute_tcp_operation sample_http_lib sample_tcp (app_store sample_db_app) (app_auth sample_db_app) [1])
       = Some (alerts_to_json sample_http_lib alerts)"
    "session_direct_alerts uuid_parse_str_ref True (actor_session sample_http_lib sample_actor)
         (va_product_tenant sample_actor) (va_subject sample_actor) sample_alerts_db = Sql_Rows rows"
    "map (\<lambda>r. decode_alert sample_http_lib (alert_columns r)) rows = map Ok alerts"
    using listing_avenues_agree [where app = sample_db_app and lib = sample_http_lib and db = sample_alerts_db
        and env = sample_api_env and headers = sample_headers and actor = sample_actor and frame = "[1]"
        and request = sample_request and tenv = sample_tcp and now = 2000000002000 and token = "rs ''valid-token-value''"
        and uuid_in = uuid_parse_str_ref and body = "[]" and eager = True] by (auto simp del: rs_simps)
  then show ?thesis using map_eq_imp_length_eq by blast
qed

section \<open>A command and its reply\<close>

text \<open>A delivery in which the broker and the database answer everything.\<close>

definition good_delivery :: "message_env \<Rightarrow> bool" where
  "good_delivery env \<longleftrightarrow>
     me_ack env \<and> te_begin (me_txn env) \<and> te_inbox (me_txn env) \<and> te_read (me_txn env) = Read_Answers
     \<and> te_outbox (me_txn env) \<and> te_status (me_txn env) \<and> te_commit (me_txn env) = Commit_Done"

lemma signed_command_accepted:
  assumes "mac_laws lib" and "sign_command lib c key = Ok sig" and "oe_product_tenant (ac_operation c) = ac_product_tenant c"
    and "oe_operation_id (ac_operation c) = ac_correlation_id c" and "bounded_dedupe_key (ac_dedupe_key c)"
    and "validate_operation_envelope_at lib (ac_operation c) now = Ok ()"
  shows "\<not> command_refused lib (ac_product_tenant c) key now (c\<lparr>ac_signature := sig\<rparr>)"
  using signed_command_verifies [OF assms(1,2)] assms(3-6) by (simp add: command_refused_def)

lemma pending_rows_command_effect:
  "mset (pending_rows (command_effect lib env c s u payload db))
     = add_mset (outbox_values env c (reply_envelope (te_new_id env) c
         (query_reply lib env (db\<lparr>db_inbox := db_inbox db @ [inbox_values env c s]\<rparr>)
            \<lparr>va_subject = u, va_product_tenant = ac_product_tenant c\<rparr> (ac_correlation_id c))) payload)
         (mset (pending_rows db))"
  by (simp add: pending_rows_def command_effect_def Let_def) (simp add: outbox_values_def)

lemma command_effect_message:
  assumes "json_to_vec lib payload = Some bytes" and "length bytes \<le> 262144"
    and "nats_header_value lib (rs ''reply:'' @ ac_dedupe_key c) = Some msg_id"
  shows "outbox_message lib (outbox_values env c (reply_envelope i c reply) payload)
    = Some (reply_subject (ac_product_tenant c), msg_id, bytes)"
  using assms by (simp add: outbox_message_def outbox_values_def reply_envelope_def MAX_NATS_PAYLOAD_BYTES_def del: rs_simps)

text \<open>
  A client's command and its reply, on a database that reads the bound text as a UUID (which the
  statements would need a cast for): the client signs a command for the server's tenant within the
  deadline window and the broker delivers it. If the command and the identifier of its reply are
  new, the broker and the database answer, the rows that are already pending can be sent and the
  broker accepts the reply's identifier as a header, then the message is acknowledged, and after
  enough rounds of the publisher the reply has been sent on the tenant's subject with the command's
  dedupe key, provided that it fits the payload limit: the encoded envelope of a completed reply
  with the alerts of the signed actor. The outbox is then empty.
\<close>

theorem signed_command_gets_its_reply:
  assumes "mac_laws lib" and "sign_command lib c key = Ok sig"
    and "command_from_slice lib message = Some (c\<lparr>ac_signature := sig\<rparr>)" and "length message \<le> 262144"
    and "oe_product_tenant (ac_operation c) = ac_product_tenant c"
    and "oe_operation_id (ac_operation c) = ac_correlation_id c" and "bounded_dedupe_key (ac_dedupe_key c)"
    and "unix_ms (me_clock env) = Some now" and "validate_operation_envelope_at lib (ac_operation c) now = Ok ()"
    and "good_delivery env" and "jet_inv db" and "db_invar lib db" and "\<not> command_recorded c db"
    and "te_new_id (me_txn env) \<notin> ob_event_id ` set (db_outbox db)"
    and "text_as_uuid lib (oe_actor_subject (ac_operation c)) = Some s" and "\<forall>e. stored_payload lib e \<noteq> None"
    and "\<forall>row \<in> set (pending_rows db). outbox_message lib row \<noteq> None"
    and "nats_header_value lib (rs ''reply:'' @ ac_dedupe_key c) = Some msg_id"
    and "\<forall>(up, penv) \<in> set rounds. up \<and> good_env penv" and "length (pending_rows db) < 50 * length rounds"
  shows "\<exists>db' u alerts reply.
    handle_message lib (ac_product_tenant c) key env db message = (Acked, db')
    \<and> uuid_parse_str lib (oe_actor_subject (ac_operation c)) = Some u
    \<and> read_alerts lib True db \<lparr>va_subject = u, va_product_tenant = ac_product_tenant c\<rparr> = Ok alerts
    \<and> stored_payload lib (reply_envelope (te_new_id (me_txn env)) c
        \<lparr>or_operation_id = ac_correlation_id c, or_status = rs ''completed'',
         or_result = Some (alerts_to_json lib alerts), or_error = None\<rparr>) = Some reply
    \<and> (\<forall>bytes log. json_to_vec lib reply = Some bytes \<and> length bytes \<le> 262144 \<longrightarrow>
         (\<exists>db'' sent. publisher_loop lib rounds (db', log) = (db'', log @ sent) \<and> select_outbox db'' = []
            \<and> (reply_subject (ac_product_tenant c), msg_id, bytes) \<in> set sent))"
proof -
  let ?c = "c\<lparr>ac_signature := sig\<rparr>" and ?t = "me_txn env"
  note accepted = signed_command_accepted [OF assms(1,2,5-7,9)]
  have new: "\<not> command_recorded ?c db" using assms(13) by (simp add: command_recorded_def)
  obtain u alerts reply where run:
    "uuid_parse_str lib (oe_actor_subject (ac_operation c)) = Some u"
    "read_alerts lib True db \<lparr>va_subject = u, va_product_tenant = ac_product_tenant c\<rparr> = Inr alerts"
    "stored_payload lib (reply_envelope (te_new_id ?t) c
        \<lparr>or_operation_id = ac_correlation_id c, or_status = rs ''completed'',
         or_result = Some (alerts_to_json lib alerts), or_error = None\<rparr>) = Some reply"
    "process_command lib ?t db ?c = (Inr (), command_effect lib ?t ?c s u reply db)"
    using process_new_command [OF assms(11,12) accepted new, of ?t s] assms(10,14-16)
    by (auto simp: good_delivery_def reply_envelope_def simp del: rs_simps)
  let ?db' = "command_effect lib ?t ?c s u reply db"
  have handled: "handle_message lib (ac_product_tenant c) key env db message = (Acked, ?db')"
    using assms(3,4,8,10) accepted run(4) by (simp add: handle_message_def MAX_NATS_PAYLOAD_BYTES_def good_delivery_def)
  have distinct: "distinct (map ob_event_id (db_outbox ?db'))"
    using process_command_inv(1) [OF assms(11) run(4)] by (simp add: jet_inv_def db_wf_def)
  have published: "\<exists>db'' sent. publisher_loop lib rounds (?db', log) = (db'', log @ sent) \<and> select_outbox db'' = []
      \<and> (reply_subject (ac_product_tenant c), msg_id, bytes) \<in> set sent"
    if fits: "json_to_vec lib reply = Some bytes" "length bytes \<le> 262144" for bytes log
  proof -
    obtain row where rows: "mset (pending_rows ?db') = add_mset row (mset (pending_rows db))"
      and row: "outbox_message lib row = Some (reply_subject (ac_product_tenant c), msg_id, bytes)"
      using pending_rows_command_effect [of lib ?t ?c s u reply db]
        command_effect_message [OF fits, of ?c msg_id] assms(18) by auto
    have set: "set (pending_rows ?db') = insert row (set (pending_rows db))"
      using arg_cong [OF rows, of set_mset] by simp
    have "length (pending_rows ?db') = Suc (length (pending_rows db))"
      using arg_cong [OF rows, of size] by simp
    then obtain db'' where "publisher_loop lib rounds (?db', log)
        = (db'', log @ map (\<lambda>row. the (outbox_message lib row)) (pending_rows ?db'))" "pending_rows db'' = []"
      using publisher_loop_good [OF distinct _ assms(19), of lib log] assms(17,20) row set by auto
    moreover have "(reply_subject (ac_product_tenant c), msg_id, bytes)
        \<in> set (map (\<lambda>row. the (outbox_message lib row)) (pending_rows ?db'))"
      using set row by (metis image_eqI insertI1 list.set_map option.sel)
    ultimately show ?thesis by (auto simp: select_outbox_pending_rows)
  qed
  with handled run(1-3) show ?thesis by blast
qed

theorem signed_command_gets_its_reply_witness:
  "\<exists>db' db'' sent.
     handle_message sample_wire_lib (rs ''embedded-alerts'') sample_key sample_delivery empty_database [1] = (Acked, db')
     \<and> publisher_loop sample_wire_lib [(True, sample_publish)] (db', []) = (db'', sent) \<and> select_outbox db'' = []
     \<and> (rs ''eal.event.embedded-alerts.v1'', rs ''reply:list-alerts:5'', rs ''reply:list-alerts:5'') \<in> set sent"
proof -
  let ?c = unsigned_command and ?key = "rs ''reply:'' @ ac_dedupe_key unsigned_command"
  have fields: "oe_product_tenant (ac_operation ?c) = ac_product_tenant ?c" "ac_product_tenant ?c = rs ''embedded-alerts''"
    "oe_operation_id (ac_operation ?c) = ac_correlation_id ?c" "bounded_dedupe_key (ac_dedupe_key ?c)"
    "validate_operation_envelope_at sample_wire_lib (ac_operation ?c) 2000000002000 = Ok ()"
    "text_as_uuid sample_wire_lib (oe_actor_subject (ac_operation ?c)) = Some 1"
    "\<not> command_recorded ?c empty_database"
    using sample_tokens(2) sample_operation_valid [OF sample_wire_lib_laws(2)] sample_command_decodes(2) sample_command_new
    by (simp_all add: unsigned_command_def sample_operation_def sample_command_def command_recorded_def)
  have env: "unix_ms (me_clock sample_delivery) = Some 2000000002000" "good_delivery sample_delivery"
    "command_from_slice sample_wire_lib [1] = Some (?c\<lparr>ac_signature := ac_signature sample_command\<rparr>)"
    "te_new_id (me_txn sample_delivery) \<notin> ob_event_id ` set (db_outbox empty_database)" "pending_rows empty_database = []"
    "\<forall>e. stored_payload sample_wire_lib e \<noteq> None" "nats_header_value sample_wire_lib ?key = Some ?key"
    "\<forall>(up, penv) \<in> set [(True, sample_publish)]. up \<and> good_env penv"
    using sample_clock_ms sample_command_decodes(1) sample_publish_good
    by (simp_all add: sample_delivery_def good_delivery_def sample_txn_def sample_command_signed(2) empty_database_def
        pending_rows_def sample_stored_payload del: rs_simps) (simp_all add: sample_wire_lib_def)
  obtain db' reply where run:
    "handle_message sample_wire_lib (rs ''embedded-alerts'') sample_key sample_delivery empty_database [1] = (Acked, db')"
    "reply = JString ?key"
    "\<forall>bytes log. json_to_vec sample_wire_lib reply = Some bytes \<and> length bytes \<le> 262144 \<longrightarrow>
       (\<exists>db'' sent. publisher_loop sample_wire_lib [(True, sample_publish)] (db', log) = (db'', log @ sent)
          \<and> select_outbox db'' = [] \<and> (reply_subject (rs ''embedded-alerts''), ?key, bytes) \<in> set sent)"
    using signed_command_gets_its_reply [OF sample_wire_lib_laws(5) sample_command_signed(1) env(3) _ fields(1,3,4)
        env(1) fields(5) env(2) jet_inv_empty db_invar_empty fields(7) env(4) fields(6) env(6) _ env(7,8)] env(5)
    unfolding fields(2) by (auto simp: reply_envelope_def sample_stored_payload simp del: rs_simps)
  have "json_to_vec sample_wire_lib reply = Some ?key" "length ?key \<le> 262144" "?key = rs ''reply:list-alerts:5''"
    "reply_subject (rs ''embedded-alerts'') = rs ''eal.event.embedded-alerts.v1''"
    using run(2) by (simp_all add: sample_wire_lib_def unsigned_command_def reply_subject_def)
  with run(1) run(3) [rule_format, of ?key "[]"] show ?thesis by (metis append_Nil)
qed

section \<open>Configurations that start but cannot serve\<close>

text \<open>The table refuses a tenant of more than 64 characters, so the store does not change.\<close>

lemma long_tenant_not_stored:
  assumes "64 < length (va_product_tenant actor)" and "database_configured st"
  shows "\<exists>e. store_create lib env st actor input = (Inl e, st)"
  using assms
  by (auto simp: store_create_def database_configured_def Let_def insert_alert_rule_def insert_alert_def
      alert_check_def alert_values_def length_between_def Option.bind_eq_None_conv split: sum.splits if_splits)

lemma long_tenant_request:
  assumes "64 < length (pol_product_tenant (ab_policy (app_auth app)))" and "database_configured (app_store app)"
  shows "snd (handle_request lib env app req) = app" and "fst (handle_request lib env app req) \<noteq> (201, Body_Alert a)"
proof -
  have stays: "\<exists>e. store_create lib (ae_store env) (app_store app) actor input = (Inl e, app_store app)"
    if "verify_authorization lib (app_auth app) (ae_clock env) (rq_headers req) WRITE_SCOPE = Inr actor" for actor input
    using that assms by (auto simp: verify_authorization_Ok_iff dest: verify_token_tenant intro!: long_tenant_not_stored)
  obtain resp app' where h: "handle_request lib env app req = (resp, app')" by fastforce
  then have "app' = app \<and> resp \<noteq> (201, Body_Alert a)"
  proof (cases rule: handle_request_state)
    case (failed actor input e st)
    with stays [of actor input] show ?thesis by (auto simp: into_response_def)
  next
    case (created actor input alert st)
    with stays [of actor input] show ?thesis by auto
  qed auto
  with h show "snd (handle_request lib env app req) = app" "fst (handle_request lib env app req) \<noteq> (201, Body_Alert a)" by simp_all
qed

text \<open>
  C35. A tenant the boundary accepts and the transports do not: the start checks the product tenant
  as an identifier only. If it is not also in the narrower form of the transports, no framed
  operation ever completes and every command is refused. If it is longer than 64 characters and a
  database is configured, then whatever requests are served, nothing is ever created: the server's
  state, its database included, stays what it was at the start, and no answer is \<open>201\<close> with an alert.
\<close>

theorem unsupported_tenant_serves_nothing:
  assumes "run lib tls renv var = Ok (app, address)"
    and "\<not> bounded_tenant (pol_product_tenant (ab_policy (app_auth app)))"
  shows "or_status (execute_tcp_operation wlib tenv st (app_auth app) frame) \<noteq> rs ''completed''
    \<and> command_refused wlib (pol_product_tenant (ab_policy (app_auth app))) key now c
    \<and> (64 < length (pol_product_tenant (ab_policy (app_auth app))) \<and> database_configured (app_store app) \<longrightarrow>
         run_server hlib app reqs = app
         \<and> (\<forall>env req a. fst (handle_request hlib env (run_server hlib app reqs) req) \<noteq> (201, Body_Alert a)))"
proof -
  let ?t = "pol_product_tenant (ab_policy (app_auth app))"
  have "or_status (execute_tcp_operation wlib tenv st (app_auth app) frame) \<noteq> rs ''completed''"
  proof
    assume "or_status (execute_tcp_operation wlib tenv st (app_auth app) frame) = rs ''completed''"
    then show False
    proof (rule execute_completed)
      fix request now' token actor
      assume "validate_operation_envelope_at wlib (ao_envelope request) now' = Inr ()"
        "verify_token wlib (app_auth app) (xe_auth_clock tenv) token READ_SCOPE = Inr actor"
        "va_product_tenant actor = oe_product_tenant (ao_envelope request)"
      moreover from this(2) have "va_product_tenant actor = ?t" by (rule verify_token_tenant)
      ultimately show False using assms(2) by (simp add: validate_operation_envelope_at_Ok_iff)
    qed
  qed
  moreover have "command_refused wlib ?t key now c" using accepted_command(4) assms(2) by blast
  moreover have "run_server hlib app reqs = app
      \<and> (\<forall>env req a. fst (handle_request hlib env (run_server hlib app reqs) req) \<noteq> (201, Body_Alert a))"
    if "64 < length ?t" "database_configured (app_store app)"
  proof -
    have "run_server hlib app reqs = app"
      by (induction reqs) (auto simp: long_tenant_request [OF that])
    then show ?thesis by (simp add: long_tenant_request(2) [OF that])
  qed
  ultimately show ?thesis by blast
qed

text \<open>A tenant of 65 characters, for which the authority issues tokens.\<close>

definition wide_tenant :: rstring where
  "wide_tenant = rs ''Embedded.Alerts.0123456789.0123456789.0123456789.0123456789.01234''"

definition wide_env :: "rstring \<Rightarrow> rstring option" where
  "wide_env = sample_env(rs ''EAL_PRODUCT_TENANT'' \<mapsto> wide_tenant, rs ''DATABASE_URL'' \<mapsto> rs ''postgres://db/eal'')"

definition wide_run :: run_env where
  "wide_run = sample_run\<lparr>ru_connect := (\<lambda>_. Connected empty_database)\<rparr>"

definition wide_lib :: http_lib where
  "wide_lib = sample_http_lib\<lparr>introspect_with_requirements := (\<lambda>_ _ _ _ _. Inr (sample_claims
     \<lparr>in_rest := (in_rest sample_claims)(rs ''tenant_id'' \<mapsto> JString wide_tenant)\<rparr>))\<rparr>"

lemma wide_tenant_form: "64 < length wide_tenant" "\<not> bounded_tenant wide_tenant" "bounded_identifier wide_tenant"
  "trim wide_tenant = wide_tenant"
  by (simp_all add: wide_tenant_def bounded_tenant_def is_ascii_lowercase_def is_ascii_digit_def bounded_identifier_def
      is_ascii_alphanumeric_def trim_def is_whitespace_def)

lemma wide_env_loads:
  obtains auth where "auth_from_env wide_lib wide_env = Inr auth"
    "ab_policy auth = sample_policy\<lparr>pol_product_tenant := wide_tenant\<rparr>"
  using wide_tenant_form(3,4)
  by (simp add: auth_from_env_def required_env_def wide_env_def sample_env_def trim_def is_whitespace_def
      strict_credential_iff is_control_def bounded_identifier_def is_ascii_alphanumeric_def
      wide_lib_def sample_http_lib_def sample_policy_def Let_def wide_tenant_def)

lemma wide_run_starts:
  "\<exists>app address. run wide_lib tls wide_run wide_env = Inr (app, address) \<and> app_store app = new_store (Some empty_database)
     \<and> ab_policy (app_auth app) = sample_policy\<lparr>pol_product_tenant := wide_tenant\<rparr>"
proof -
  obtain auth where auth: "auth_from_env wide_lib wide_env = Inr auth"
    "ab_policy auth = sample_policy\<lparr>pol_product_tenant := wide_tenant\<rparr>" by (rule wide_env_loads)
  have unset: "wide_env (rs ''NATS_URL'') = None" "\<forall>n \<in> set mtls_variables. wide_env (rs n) = None"
    by (simp_all add: wide_env_def sample_env_def mtls_variables_def)
  have "\<exists>m \<in> set mtls_variables. optional_env wide_env m = None" "\<forall>n \<in> set mtls_variables. optional_env wide_env n = None"
    using unset(2) by (simp_all add: optional_env_def mtls_variables_def)
  then have "spawn_mtls_from_env tls wide_env b = Inr None" for b
    using mtls_from_env_incomplete [of wide_env tls] by (simp add: spawn_mtls_from_env_def)
  moreover have "connect_database wide_run wide_env = Inr (Some empty_database)"
    by (simp add: connect_database_def wide_env_def wide_run_def trim_def is_whitespace_def)
  moreover have "spawn_jetstream_from_env wide_env st = Inr None" for st
    using unset(1) by (simp add: spawn_jetstream_from_env_def optional_env_def)
  ultimately show ?thesis
    using auth by (simp add: run_def telemetry_init_def wide_run_def sample_run_def Let_def)
qed

lemma wide_request_authorised:
  assumes "ab_policy ab = sample_policy\<lparr>pol_product_tenant := wide_tenant\<rparr>"
  shows "verify_authorization wide_lib ab sample_clock sample_headers WRITE_SCOPE
    = Inr (sample_actor\<lparr>va_product_tenant := wide_tenant\<rparr>)"
proof -
  have "bearer_from_headers wide_lib sample_headers = Inr (rs ''valid-token-value'')"
    unfolding bearer_from_headers_Ok_iff strict_credential_iff
    by (simp add: wide_lib_def sample_http_lib_def sample_headers_def is_whitespace_def is_control_def)
  moreover from this have "strict_credential (rs ''valid-token-value'')" using bearer_from_headers_Ok_iff by blast
  moreover have "unix_seconds sample_clock = Inr 2000000002"
    by (simp add: unix_seconds_def duration_since_epoch_def sample_clock_def nat_div_distrib)
  moreover have "authorize_introspection wide_lib (sample_claims
     \<lparr>in_rest := (in_rest sample_claims)(rs ''tenant_id'' \<mapsto> JString wide_tenant)\<rparr>)
     (sample_policy\<lparr>pol_product_tenant := wide_tenant\<rparr>) WRITE_SCOPE 2000000002 = Inr (sample_actor\<lparr>va_product_tenant := wide_tenant\<rparr>)"
    unfolding authorize_introspection_Ok_iff claim_string_eq_Some
    by (simp add: sample_claims_def sample_policy_def wide_lib_def sample_http_lib_def sample_actor_def wide_tenant_def
        uuid_parse_str_ref_inverse bounded_identifier_def is_ascii_alphanumeric_def)
  moreover have "introspect_with_requirements wide_lib m c t a sc = Inr (sample_claims
     \<lparr>in_rest := (in_rest sample_claims)(rs ''tenant_id'' \<mapsto> JString wide_tenant)\<rparr>)" for m c t a sc
    by (simp add: wide_lib_def del: rs_simps)
  ultimately show ?thesis
    using assms bounded_identifier_scopes(2) unfolding verify_authorization_Ok_iff verify_token_Ok_iff by auto
qed

theorem unsupported_tenant_serves_nothing_witness:
  "\<exists>app address actor. run wide_lib sample_tls wide_run wide_env = Ok (app, address) \<and> database_configured (app_store app)
     \<and> verify_authorization wide_lib (app_auth app) (ae_clock sample_api_env) (rq_headers sample_post) WRITE_SCOPE = Ok actor
     \<and> run_server wide_lib app [(sample_api_env, sample_post)] = app
     \<and> command_refused sample_wire_lib (pol_product_tenant (ab_policy (app_auth app))) sample_key 0 sample_command"
proof -
  obtain app address where run: "run wide_lib sample_tls wide_run wide_env = Inr (app, address)"
    "app_store app = new_store (Some empty_database)"
    "ab_policy (app_auth app) = sample_policy\<lparr>pol_product_tenant := wide_tenant\<rparr>"
    using wide_run_starts by blast
  have tenant: "pol_product_tenant (ab_policy (app_auth app)) = wide_tenant" "database_configured (app_store app)"
    using run(2,3) by (simp_all add: database_configured_def new_store_def)
  have "verify_authorization wide_lib (app_auth app) (ae_clock sample_api_env) (rq_headers sample_post) WRITE_SCOPE
      = Inr (sample_actor\<lparr>va_product_tenant := wide_tenant\<rparr>)"
    using wide_request_authorised [OF run(3)] by (simp add: sample_api_env_def sample_post_def)
  moreover have "\<not> bounded_tenant (pol_product_tenant (ab_policy (app_auth app)))"
    unfolding tenant by (rule wide_tenant_form(2))
  moreover have "64 < length (pol_product_tenant (ab_policy (app_auth app)))" unfolding tenant by (rule wide_tenant_form(1))
  ultimately show ?thesis
    using unsupported_tenant_serves_nothing [OF run(1), where wlib = sample_wire_lib and key = sample_key and now = 0
      and c = sample_command and tenv = sample_tcp and st = "new_store None" and frame = "[1]"
      and hlib = wide_lib and reqs = "[(sample_api_env, sample_post)]"] run(1) tenant(2) by blast
qed

text \<open>
  The in-cluster broker address that the data-plane binding documents is refused: with
  \<open>NATS_URL\<close> set to it, the server does not start at all.
\<close>

theorem documented_broker_is_refused:
  assumes "var (rs ''NATS_URL'') = Some (rs ''nats://dd-nats.messaging.svc.cluster.local:4222'')"
  shows "\<exists>e. run lib tls env var = Err e"
proof (cases "run lib tls env var")
  case (Inr r)
  obtain app address where r: "r = (app, address)" by (cases r)
  have url: "optional_env var ''NATS_URL'' = Some (rs ''nats://dd-nats.messaging.svc.cluster.local:4222'')"
    using assms by (simp add: optional_env_def trim_def is_whitespace_def)
  have "validate_nats_url (rs ''nats://dd-nats.messaging.svc.cluster.local:4222'') \<noteq> Inr ()"
    by (simp add: validate_nats_url_def starts_with_def)
  then have "spawn_jetstream_from_env var st \<noteq> Inr js" for st js
    unfolding spawn_jetstream_from_env_def url by (simp del: rs_simps)
  with Inr r show ?thesis using run_Ok by metis
qed simp

theorem documented_broker_is_refused_witness:
  "\<exists>e. run sample_auth_lib sample_tls sample_run
     (sample_env(rs ''NATS_URL'' \<mapsto> rs ''nats://dd-nats.messaging.svc.cluster.local:4222'')) = Err e"
  by (rule documented_broker_is_refused) simp

end
